(* ===== verification/CInt.thy ===== *)
theory CInt
  imports Main "HOL-Library.Word" "HOL-Library.Signed_Division"
begin

text \<open>
  Prelude of the development: the C integer types of the code as words, the operators of C whose
  meaning on signed values differs from the one of \<open>HOL-Library.Word\<close> (division and remainder
  truncate towards zero, \<open>abs\<close>, arithmetic shift), and the lemmas the component theories share.

  A signed C value of width w is a \<open>w word\<close> read with \<open>sint\<close>; arithmetic wraps, which is what the
  targets of this code compute. ISO C leaves signed overflow undefined, so every theory that adds
  signed values also states the range in which no addition overflows (collection \<open>no_overflow\<close>).
\<close>

unbundle bit_operations_syntax

named_theorems no_overflow \<open>exact values of signed operations that stay in range\<close>
named_theorems c_defs \<open>definitions of the C operators, for evaluation on concrete words\<close>

type_synonym u8 = "8 word"
type_synonym u16 = "16 word"
type_synonym u32 = "32 word"
type_synonym u64 = "64 word"
type_synonym i32 = "32 word"
type_synonym i64 = "64 word"

section \<open>C operators\<close>

definition c_div :: "'a::len word \<Rightarrow> 'a word \<Rightarrow> 'a word" where
  "c_div a b = word_of_int (sint a sdiv sint b)"

definition c_mod :: "'a::len word \<Rightarrow> 'a word \<Rightarrow> 'a word" where
  "c_mod a b = word_of_int (sint a smod sint b)"

definition c_abs :: "'a::len word \<Rightarrow> 'a word" where
  "c_abs a = (if sint a < 0 then - a else a)"

definition c_sar :: "'a::len word \<Rightarrow> nat \<Rightarrow> 'a word" where
  "c_sar a n = signed_drop_bit n a"

declare c_div_def [c_defs] c_mod_def [c_defs] c_abs_def [c_defs] c_sar_def [c_defs]

section \<open>Signed values in range\<close>

lemma sint_word_of_int_exact [no_overflow]:
  fixes k :: int
  assumes "- (2 ^ (LENGTH('a::len) - 1)) \<le> k" and "k < 2 ^ (LENGTH('a) - 1)"
  shows "sint (word_of_int k :: 'a word) = k"
  using assms by (simp add: sint_sbintrunc' signed_take_bit_int_eq_self)

lemma sint_add_exact:
  fixes a b :: "'a::len word"
  assumes "- (2 ^ (LENGTH('a) - 1)) \<le> sint a + sint b" and "sint a + sint b < 2 ^ (LENGTH('a) - 1)"
  shows "sint (a + b) = sint a + sint b"
  using assms by (simp add: sint_word_add signed_take_bit_int_eq_self)

lemma sint_diff_exact:
  fixes a b :: "'a::len word"
  assumes "- (2 ^ (LENGTH('a) - 1)) \<le> sint a - sint b" and "sint a - sint b < 2 ^ (LENGTH('a) - 1)"
  shows "sint (a - b) = sint a - sint b"
  using assms by (simp add: sint_word_diff signed_take_bit_int_eq_self)

lemma sint_minus_exact:
  fixes a :: "'a::len word"
  assumes "- (2 ^ (LENGTH('a) - 1)) < sint a"
  shows "sint (- a) = - sint a"
proof -
  have "sint a < 2 ^ (LENGTH('a) - 1)" by (rule sint_lt)
  moreover have "- (2 ^ (LENGTH('a) - 1)) \<le> sint a" by (rule sint_ge)
  ultimately show ?thesis
    using assms by (simp add: sint_word_minus signed_take_bit_int_eq_self)
qed

lemma sint_of_uint_small:
  fixes a :: "'a::len word"
  assumes "uint a < 2 ^ (LENGTH('a) - 1)"
  shows "sint a = uint a"
proof -
  have "- (2 ^ (LENGTH('a) - Suc 0)) \<le> uint a"
    by (rule order.trans [of _ 0]) simp_all
  with assms show ?thesis
    by (simp add: sint_uint signed_take_bit_int_eq_self)
qed

lemma sint_eq_unat:
  fixes a :: "'a::len word"
  assumes "unat a < 2 ^ (LENGTH('a) - 1)"
  shows "sint a = int (unat a)"
proof -
  have "int (unat a) < int (2 ^ (LENGTH('a) - 1))" using assms by (rule of_nat_less_iff [THEN iffD2])
  then have "uint a < 2 ^ (LENGTH('a) - 1)" by simp
  then show ?thesis by (simp add: sint_of_uint_small)
qed

lemma uint_eq_sint:
  fixes a :: "'a::len word"
  assumes "0 \<le> sint a"
  shows "uint a = sint a"
proof -
  have "sint a < 2 ^ (LENGTH('a) - 1)" by (rule sint_lt)
  also have "\<dots> \<le> 2 ^ LENGTH('a)" by (rule power_increasing) simp_all
  finally show ?thesis
    using assms by (simp add: uint_sint take_bit_int_eq_self)
qed

section \<open>Truncating division\<close>

lemma sdiv_pos:
  "0 < n \<Longrightarrow> (a::int) sdiv n = (if 0 \<le> a then a div n else - ((- a) div n))"
  by (auto simp: signed_divide_int_def sgn_if)

lemma smod_pos:
  "0 < n \<Longrightarrow> (a::int) smod n = (if 0 \<le> a then a mod n else - ((- a) mod n))"
  by (auto simp: signed_modulo_int_def sgn_if)

lemma abs_sdiv_le: "0 < n \<Longrightarrow> \<bar>(a::int) sdiv n\<bar> \<le> \<bar>a\<bar>"
  by (auto simp: sdiv_pos pos_imp_zdiv_nonneg_iff intro: order.trans [OF zdiv_mono2 [of _ 1 n]])

lemma sint_c_div:
  fixes a b :: "'a::len word"
  assumes "0 < sint b" and "- (2 ^ (LENGTH('a) - 1)) < sint a"
  shows "sint (c_div a b) = sint a sdiv sint b"
proof -
  have le: "\<bar>sint a sdiv sint b\<bar> \<le> \<bar>sint a\<bar>" using assms(1) by (rule abs_sdiv_le)
  have "sint a < 2 ^ (LENGTH('a) - 1)" by (rule sint_lt)
  with le assms(2) show ?thesis
    unfolding c_div_def by (intro sint_word_of_int_exact) linarith+
qed

lemma sint_c_mod:
  fixes a b :: "'a::len word"
  assumes "0 < sint b"
  shows "sint (c_mod a b) = sint a smod sint b"
proof -
  have lt: "sint b < 2 ^ (LENGTH('a) - 1)" by (rule sint_lt)
  have "\<bar>sint a smod sint b\<bar> < sint b"
    using assms by (auto simp: smod_pos)
  with lt show ?thesis
    unfolding c_mod_def by (intro sint_word_of_int_exact) linarith+
qed

lemma uint_c_abs:
  fixes a :: "'a::len word"
  assumes "- (2 ^ (LENGTH('a) - 1)) < sint a"
  shows "sint (c_abs a) = \<bar>sint a\<bar>"
  using sint_minus_exact [OF assms] by (simp add: c_abs_def)

section \<open>Instances at the widths of the code\<close>

text \<open>
  The exactness lemmas with the bounds of \<open>int\<close> and \<open>int64_t\<close> written as numerals, the form in
  which \<open>linarith\<close> discharges them.
\<close>

lemmas sint32_add [no_overflow] = sint_add_exact [where 'a = 32, simplified]
lemmas sint32_diff [no_overflow] = sint_diff_exact [where 'a = 32, simplified]
lemmas sint32_minus [no_overflow] = sint_minus_exact [where 'a = 32, simplified]
lemmas sint64_add [no_overflow] = sint_add_exact [where 'a = 64, simplified]
lemmas sint64_diff [no_overflow] = sint_diff_exact [where 'a = 64, simplified]
lemmas sint64_minus [no_overflow] = sint_minus_exact [where 'a = 64, simplified]
lemmas sint32_c_div = sint_c_div [where 'a = 32, simplified]
lemmas sint64_c_div = sint_c_div [where 'a = 64, simplified]
lemmas sint32_bounds = sint_ge [where 'a = 32, simplified] sint_lt [where 'a = 32, simplified]
lemmas sint64_bounds = sint_ge [where 'a = 64, simplified] sint_lt [where 'a = 64, simplified]

section \<open>Big-endian byte strings\<close>

text \<open>
  The value of a byte string, most significant byte first, and the byte string of a value. Both
  codecs of the wire format are instances.
\<close>

fun be_val :: "u8 list \<Rightarrow> nat" where
  "be_val [] = 0"
| "be_val (b # bs) = unat b * 256 ^ length bs + be_val bs"

fun be_bytes :: "nat \<Rightarrow> nat \<Rightarrow> u8 list" where
  "be_bytes 0 v = []"
| "be_bytes (Suc n) v = be_bytes n (v div 256) @ [word_of_nat v]"

lemma length_be_bytes [simp]: "length (be_bytes n v) = n"
  by (induction n arbitrary: v) auto

lemma be_val_append: "be_val (xs @ ys) = be_val xs * 256 ^ length ys + be_val ys"
  by (induction xs) (auto simp: power_add algebra_simps)

lemma be_val_bound: "be_val bs < 256 ^ length bs"
proof (induction bs)
  case Nil
  then show ?case by simp
next
  case (Cons b bs)
  have "unat b \<le> 255" using unsigned_less [of b, where ?'a = nat] by simp
  then have "unat b * 256 ^ length bs \<le> 255 * 256 ^ length bs" by (rule mult_le_mono1)
  with Cons have "unat b * 256 ^ length bs + be_val bs < 256 * 256 ^ length bs" by linarith
  then show ?case by simp
qed

lemma be_val_be_bytes: "be_val (be_bytes n v) = v mod 256 ^ n"
proof (induction n arbitrary: v)
  case 0
  then show ?case by simp
next
  case (Suc n)
  have "be_val (be_bytes (Suc n) v) = (v div 256 mod 256 ^ n) * 256 + v mod 256"
    by (simp add: be_val_append Suc unat_of_nat)
  also have "\<dots> = v mod 256 ^ Suc n"
    by (simp add: mod_mult2_eq)
  finally show ?case .
qed

lemma be_bytes_be_val: "be_bytes (length bs) (be_val bs) = bs"
proof (induction bs rule: rev_induct)
  case Nil
  then show ?case by simp
next
  case (snoc b bs)
  have lt: "unat b < 256" using unsigned_less [of b, where ?'a = nat] by simp
  have "(be_val bs * 256 + unat b) div 256 = be_val bs" using lt by simp
  moreover have "(word_of_nat (be_val bs * 256 + unat b) :: u8) = b"
    by (rule word_unat_eq_iff [THEN iffD2]) (simp add: unat_of_nat lt del: of_nat_add of_nat_mult)
  ultimately show ?case using snoc by (simp add: be_val_append)
qed

section \<open>Faults and results\<close>

text \<open>
  What stops the code where C leaves it undefined or aborts: a failed \<open>assert\<close>, a read behind the end
  of a buffer, a null pointer used, an automatic variable read before it is set, an array indexed out of
  its bounds. A computation that can stop returns \<open>fault + result\<close>.
\<close>

datatype fault = Assert_failed | Buffer_overread | Null_deref | Uninit_read | Index_range

definition bind_sum :: "'e + 'a \<Rightarrow> ('a \<Rightarrow> 'e + 'b) \<Rightarrow> 'e + 'b" where
  "bind_sum x f = (case x of Inl e \<Rightarrow> Inl e | Inr v \<Rightarrow> f v)"

lemma bind_sum_simps [simp]:
  "bind_sum (Inl e) f = Inl e"
  "bind_sum (Inr v) f = f v"
  by (simp_all add: bind_sum_def)

lemma bind_sum_Inr_iff: "bind_sum x f = Inr r \<longleftrightarrow> (\<exists>v. x = Inr v \<and> f v = Inr r)"
  by (cases x) auto

section \<open>Little-endian fields\<close>

text \<open>The bytes of a multi-byte field of a packed struct in memory, and the field read back.\<close>

definition le_bytes :: "nat \<Rightarrow> 'a::len word \<Rightarrow> u8 list" where
  "le_bytes n v = map (\<lambda>i. ucast (drop_bit (8 * i) v)) [0..<n]"

fun le_word :: "u8 list \<Rightarrow> 'a::len word" where
  "le_word [] = 0"
| "le_word (b # bs) = ucast b OR push_bit 8 (le_word bs)"

lemma length_le_bytes [simp]: "length (le_bytes n v) = n"
  by (simp add: le_bytes_def)

lemma nth_le_bytes [simp]: "i < n \<Longrightarrow> le_bytes n v ! i = ucast (drop_bit (8 * i) v)"
  by (simp add: le_bytes_def)

lemma bit_le_word:
  "bit (le_word bs :: 'a::len word) n \<longleftrightarrow>
     n < LENGTH('a) \<and> n div 8 < length bs \<and> bit (bs ! (n div 8)) (n mod 8)"
proof (induction bs arbitrary: n)
  case Nil
  then show ?case by simp
next
  case (Cons b bs)
  show ?case
  proof (cases "n < 8")
    case True
    then show ?thesis
      by (auto simp: bit_or_iff bit_ucast_iff bit_push_bit_iff dest: bit_imp_le_length)
  next
    case False
    then have "\<not> bit b n" by (auto dest: bit_imp_le_length)
    moreover have "n div 8 = Suc ((n - 8) div 8)" "n mod 8 = (n - 8) mod 8"
      using False by (simp_all add: le_div_geq le_mod_geq)
    ultimately show ?thesis
      using False Cons.IH [of "n - 8"] by (auto simp: bit_or_iff bit_ucast_iff bit_push_bit_iff)
  qed
qed

lemma le_word_le_bytes:
  assumes "LENGTH('a) = 8 * n"
  shows "le_word (le_bytes n v) = (v :: 'a::len word)"
proof (rule bit_word_eqI)
  fix k assume k: "k < LENGTH('a)"
  then have "k div 8 < n" using assms by auto
  then show "bit (le_word (le_bytes n v) :: 'a word) k = bit v k"
    using k by (simp add: bit_le_word bit_ucast_iff bit_drop_bit_eq)
qed

lemma le_bytes_le_word:
  assumes "LENGTH('a) = 8 * length bs"
  shows "le_bytes (length bs) (le_word bs :: 'a::len word) = bs"
proof (rule nth_equalityI)
  fix i assume i: "i < length (le_bytes (length bs) (le_word bs :: 'a word))"
  show "le_bytes (length bs) (le_word bs :: 'a word) ! i = bs ! i"
  proof (rule bit_word_eqI)
    fix n assume "n < LENGTH(8)"
    then show "bit (le_bytes (length bs) (le_word bs :: 'a word) ! i) n = bit (bs ! i) n"
      using i assms by (auto simp: bit_ucast_iff bit_drop_bit_eq bit_le_word)
  qed
qed simp

section \<open>Endless loops\<close>

text \<open>
  \<open>while (1)\<close> with a return inside: one turn either returns a result or gives the next state. \<open>None\<close> is a
  loop that never returns.
\<close>

partial_function (option) forever :: "('s \<Rightarrow> 'r + 's) \<Rightarrow> 's \<Rightarrow> 'r option" where
  "forever turn s = (case turn s of Inl r \<Rightarrow> Some r | Inr s' \<Rightarrow> forever turn s')"

declare forever.simps [code]

lemma forever_keeps:
  assumes run: "forever turn s = Some r" and "P s"
    and step: "\<And>s s'. P s \<Longrightarrow> turn s = Inr s' \<Longrightarrow> P s'"
    and stop: "\<And>s r. P s \<Longrightarrow> turn s = Inl r \<Longrightarrow> Q r"
  shows "Q r"
proof -
  have "turn = turn \<longrightarrow> P s \<longrightarrow> Q r"
  proof (rule forever.raw_induct [of "\<lambda>t s r. t = turn \<longrightarrow> P s \<longrightarrow> Q r" turn s, OF _ run])
    fix f :: "('b \<Rightarrow> 'a + 'b) \<Rightarrow> 'b \<Rightarrow> 'a option" and t s r
    assume "\<And>t s r. f t s = Some r \<Longrightarrow> t = turn \<longrightarrow> P s \<longrightarrow> Q r"
      and "(case t s of Inl r \<Rightarrow> Some r | Inr s' \<Rightarrow> f t s') = Some r"
    then show "t = turn \<longrightarrow> P s \<longrightarrow> Q r"
      using step [of s] stop [of s] by (auto split: sum.splits)
  qed
  then show ?thesis using \<open>P s\<close> by blast
qed

lemma forever_returns:
  assumes "P s" and step: "\<And>s s'. P s \<Longrightarrow> turn s = Inr s' \<Longrightarrow> P s' \<and> m s' < (m s :: nat)"
  shows "\<exists>r. forever turn s = Some r"
  using \<open>P s\<close>
proof (induction "m s" arbitrary: s rule: less_induct)
  case less
  then show ?case
    using step [of s] by (subst forever.simps) (auto split: sum.splits)
qed

text \<open>Total correctness: an invariant, a measure that every further turn lowers, and what holds on return.\<close>

lemma forever_total:
  assumes "P s" and "\<And>s s'. P s \<Longrightarrow> turn s = Inr s' \<Longrightarrow> P s' \<and> m s' < (m s :: nat)"
    and "\<And>s r. P s \<Longrightarrow> turn s = Inl r \<Longrightarrow> Q r"
  shows "\<exists>r. forever turn s = Some r \<and> Q r"
proof -
  obtain r where "forever turn s = Some r" using forever_returns [of P s turn m, OF assms(1,2)] by blast
  moreover from this have "Q r" by (rule forever_keeps [where P = P]) (use assms in blast)+
  ultimately show ?thesis by blast
qed

text \<open>Two loops of which one is the image of the other return together, with corresponding results.\<close>

lemma forever_map:
  assumes "P u" and step: "\<And>u. P u \<Longrightarrow> turn (f u) = map_sum g f (turn2 u)"
    and keep: "\<And>u u'. P u \<Longrightarrow> turn2 u = Inr u' \<Longrightarrow> P u'"
  shows "forever turn (f u) = map_option g (forever turn2 u)"
proof -
  have a: "forever turn (f u) = Some (g r)" if "forever turn2 u = Some r" for r
  proof -
    have "turn2 = turn2 \<longrightarrow> P u \<longrightarrow> forever turn (f u) = Some (g r)"
    proof (rule forever.raw_induct [of "\<lambda>t u r. t = turn2 \<longrightarrow> P u \<longrightarrow> forever turn (f u) = Some (g r)" turn2 u, OF _ that])
      fix k t u r
      assume "\<And>t u r. k t u = Some r \<Longrightarrow> t = turn2 \<longrightarrow> P u \<longrightarrow> forever turn (f u) = Some (g r)"
        and "(case t u of Inl r \<Rightarrow> Some r | Inr s' \<Rightarrow> k t s') = Some r"
      then show "t = turn2 \<longrightarrow> P u \<longrightarrow> forever turn (f u) = Some (g r)"
        using step [of u] keep [of u] by (subst forever.simps) (auto split: sum.splits)
    qed
    then show ?thesis using \<open>P u\<close> by blast
  qed
  have b: "\<exists>r. forever turn2 u = Some r" if "forever turn (f u) = Some q" for q
  proof -
    have "turn = turn \<longrightarrow> (\<forall>u. s = f u \<longrightarrow> P u \<longrightarrow> (\<exists>r. forever turn2 u = Some r))" if "forever turn s = Some q" for s
    proof (rule forever.raw_induct [of "\<lambda>t s q. t = turn \<longrightarrow> (\<forall>u. s = f u \<longrightarrow> P u \<longrightarrow> (\<exists>r. forever turn2 u = Some r))"
          turn s, OF _ that])
      fix k t s q
      assume "\<And>t s q. k t s = Some q \<Longrightarrow> t = turn \<longrightarrow> (\<forall>u. s = f u \<longrightarrow> P u \<longrightarrow> (\<exists>r. forever turn2 u = Some r))"
        and "(case t s of Inl r \<Rightarrow> Some r | Inr s' \<Rightarrow> k t s') = Some q"
      then show "t = turn \<longrightarrow> (\<forall>u. s = f u \<longrightarrow> P u \<longrightarrow> (\<exists>r. forever turn2 u = Some r))"
        using step keep by (subst forever.simps) (fastforce split: sum.splits)
    qed
    from this [OF that] show ?thesis using \<open>P u\<close> by blast
  qed
  show ?thesis using a b by (cases "forever turn2 u"; cases "forever turn (f u)") auto
qed

end
