(* ===== verification/PtpTime.thy ===== *)
theory PtpTime
  imports CInt
begin

text \<open>
  PTP timestamps, the time calculation part of \<open>IEEE1588/ptp_sync.c\<close>: the timestamp type, its
  addition, subtraction and halving, the delay and offset computation of a delay response, and the
  ten-byte wire format.

  The member \<open>dts\<close> of the C struct (the timestamp as a \<open>double\<close>) is written by \<open>ptp_time_add\<close> and
  \<open>ptp_calc_prop_delay\<close> and read nowhere in the repository; the record leaves it out.
\<close>

section \<open>Timestamps and their arithmetic\<close>

record ptp_timestamp_t =
  seconds :: i64
  nanosec :: i32

definition NS_SEC_PERIOD :: i32 where "NS_SEC_PERIOD = 1000000000"

definition ptp_time_add :: "ptp_timestamp_t \<Rightarrow> ptp_timestamp_t \<Rightarrow> ptp_timestamp_t" where
  "ptp_time_add pt1 pt2 =
     \<lparr>seconds = seconds pt1 + seconds pt2, nanosec = nanosec pt1 + nanosec pt2\<rparr>"

definition ptp_time_sub :: "ptp_timestamp_t \<Rightarrow> ptp_timestamp_t \<Rightarrow> ptp_timestamp_t" where
  "ptp_time_sub pt1 pt2 =
     ptp_time_add pt1 \<lparr>seconds = - seconds pt2, nanosec = - nanosec pt2\<rparr>"

definition ptp_time_except_2 :: "ptp_timestamp_t \<Rightarrow> ptp_timestamp_t" where
  "ptp_time_except_2 pt1 =
     (if c_mod (seconds pt1) 2 = 0
      then \<lparr>seconds = c_div (seconds pt1) 2, nanosec = c_div (nanosec pt1) 2\<rparr>
      else \<lparr>seconds = c_div (seconds pt1 - 1) 2,
            nanosec = c_div (nanosec pt1) 2 + c_div NS_SEC_PERIOD 2\<rparr>)"

definition ptp_calc_prop_delay :: "ptp_timestamp_t \<Rightarrow> ptp_timestamp_t \<Rightarrow> ptp_timestamp_t" where
  "ptp_calc_prop_delay pt1 pt2 =
     (let diff = ptp_time_sub pt2 pt1
      in if c_mod (seconds diff) 2 = 0
         then \<lparr>seconds = c_div (seconds diff) 2, nanosec = c_div (nanosec diff) 2\<rparr>
         else \<lparr>seconds = c_div (seconds diff - 1) 2,
               nanosec = c_div (nanosec diff) 2 + c_div NS_SEC_PERIOD 2\<rparr>)"

definition ptp_clock_offset :: "ptp_timestamp_t \<Rightarrow> ptp_timestamp_t \<Rightarrow> ptp_timestamp_t \<Rightarrow> i32" where
  "ptp_clock_offset t3 t4 delay = (nanosec t3 - nanosec t4) + nanosec delay"

text \<open>The local computation of the delay response case of the interpreter, in its parts.\<close>

definition resp_delay ::
  "ptp_timestamp_t \<Rightarrow> ptp_timestamp_t \<Rightarrow> ptp_timestamp_t \<Rightarrow> ptp_timestamp_t \<Rightarrow> ptp_timestamp_t" where
  "resp_delay t1 t2 t3 t4 =
     ptp_time_except_2 (ptp_time_add (ptp_time_sub t2 t1) (ptp_time_sub t4 t3))"

definition resp_offset ::
  "ptp_timestamp_t \<Rightarrow> ptp_timestamp_t \<Rightarrow> ptp_timestamp_t \<Rightarrow> ptp_timestamp_t \<Rightarrow> ptp_timestamp_t" where
  "resp_offset t1 t2 t3 t4 =
     ptp_time_except_2 (ptp_time_sub (ptp_time_sub t2 t1) (ptp_time_sub t4 t3))"

definition resp_synced_time ::
  "ptp_timestamp_t \<Rightarrow> ptp_timestamp_t \<Rightarrow> ptp_timestamp_t \<Rightarrow> ptp_timestamp_t \<Rightarrow> ptp_timestamp_t" where
  "resp_synced_time t1 t2 t3 t4 =
     (let delay = resp_delay t1 t2 t3 t4;
          offset = resp_offset t1 t2 t3 t4;
          prop_delay = ptp_time_sub delay offset
      in ptp_time_add t3 prop_delay)"

section \<open>The wire format\<close>

text \<open>
  The two loops of \<open>ptp_prepare_timestamp\<close> store one byte per turn, moving down from byte 5 and
  from byte 9 of the output; those of \<open>ptp_store_timestamp\<close> shift one byte in per turn.
\<close>

definition ptp_prepare_timestamp :: "ptp_timestamp_t \<Rightarrow> u8 list \<Rightarrow> u8 list" where
  "ptp_prepare_timestamp ts out =
     (let out1 = fold (\<lambda>i p. p[5 - i := ucast (c_sar (seconds ts) (i * 8) AND 0xFF)]) [0..<6] out
      in fold (\<lambda>i p. p[9 - i := ucast (c_sar (nanosec ts) (i * 8) AND 0xFF)]) [0..<4] out1)"

definition ptp_store_timestamp :: "u8 list \<Rightarrow> ptp_timestamp_t" where
  "ptp_store_timestamp timestamp =
     (let sec = fold (\<lambda>i s. push_bit 8 s + ucast (timestamp ! i)) [0..<6] (0 :: u64);
          nanos = fold (\<lambda>i n. push_bit 8 n + ucast (timestamp ! i)) [6..<10] (0 :: u32)
      in \<lparr>seconds = sec, nanosec = nanos\<rparr>)"

section \<open>Exact values of the arithmetic\<close>

text \<open>\<open>ts_is t s n\<close>: the timestamp holds \<open>s\<close> seconds and \<open>n\<close> nanoseconds, read as signed values.\<close>

definition ts_is :: "ptp_timestamp_t \<Rightarrow> int \<Rightarrow> int \<Rightarrow> bool" where
  "ts_is t s n \<longleftrightarrow> sint (seconds t) = s \<and> sint (nanosec t) = n"

definition ts_total :: "ptp_timestamp_t \<Rightarrow> int" where
  "ts_total t = sint (seconds t) * 10 ^ 9 + sint (nanosec t)"

lemma ts_isI [intro]: "ts_is t (sint (seconds t)) (sint (nanosec t))"
  by (simp add: ts_is_def)

lemma ts_is_total: "ts_is t s n \<Longrightarrow> ts_total t = s * 10 ^ 9 + n"
  by (simp add: ts_is_def ts_total_def)

lemma ts_is_add:
  assumes "ts_is t s n" and "ts_is u s' n'"
    and "\<bar>s + s'\<bar> < 2 ^ 63" and "\<bar>n + n'\<bar> < 2 ^ 31"
  shows "ts_is (ptp_time_add t u) (s + s') (n + n')"
  using assms by (auto simp: ts_is_def ptp_time_add_def sint64_add sint32_add abs_less_iff)

lemma ts_is_sub:
  assumes "ts_is t s n" and "ts_is u s' n'"
    and "\<bar>s'\<bar> < 2 ^ 63" and "\<bar>n'\<bar> < 2 ^ 31"
    and "\<bar>s - s'\<bar> < 2 ^ 63" and "\<bar>n - n'\<bar> < 2 ^ 31"
  shows "ts_is (ptp_time_sub t u) (s - s') (n - n')"
proof -
  have "ts_is \<lparr>seconds = - seconds u, nanosec = - nanosec u\<rparr> (- s') (- n')"
    using assms(2-4) by (auto simp: ts_is_def sint64_minus sint32_minus abs_less_iff)
  then show ?thesis
    unfolding ptp_time_sub_def using ts_is_add [OF assms(1), of _ "- s'" "- n'"] assms(5,6) by simp
qed

text \<open>Halving: the odd second moves into the nanoseconds, the odd nanosecond is cut off.\<close>

definition half_s :: "int \<Rightarrow> int" where
  "half_s s = (if even s then s div 2 else (s - 1) div 2)"

definition half_n :: "int \<Rightarrow> int \<Rightarrow> int" where
  "half_n s n = (if even s then n sdiv 2 else n sdiv 2 + 500000000)"

lemma even_smod_2: "((s::int) smod 2 = 0) = even s"
  by (auto simp: smod_pos even_iff_mod_2_eq_zero)

lemma ts_is_except_2:
  assumes t: "ts_is t s n" and s: "\<bar>s\<bar> < 2 ^ 63 - 1"
  shows "ts_is (ptp_time_except_2 t) (half_s s) (half_n s n)"
proof -
  have sv: "sint (seconds t) = s" and nv: "sint (nanosec t) = n"
    using t by (simp_all add: ts_is_def)
  have nb: "- (2 ^ 31) \<le> n" "n < 2 ^ 31"
    using sint32_bounds [of "nanosec t"] nv by simp_all
  have m: "(c_mod (seconds t) 2 = 0) = even s"
  proof -
    have "sint (c_mod (seconds t) 2) = s smod 2" by (subst sint_c_mod) (simp_all add: sv)
    then show ?thesis by (metis even_smod_2 signed_0 signed_word_eqI)
  qed
  have s1: "sint (c_div (seconds t) 2) = s sdiv 2"
    using s by (subst sint64_c_div) (simp_all add: sv)
  have "sint (seconds t - 1) = s - 1"
    using s by (subst sint64_diff) (simp_all add: sv abs_less_iff)
  then have s2: "sint (c_div (seconds t - 1) 2) = (s - 1) sdiv 2"
    using s by (subst sint64_c_div) (simp_all add: abs_less_iff)
  have n1: "sint (c_div (nanosec t) 2) = n sdiv 2"
    using nb unfolding c_div_def nv
    by (subst sint_word_of_int_exact) (simp_all add: sdiv_pos split: if_splits; arith)+
  have h: "c_div NS_SEC_PERIOD 2 = 500000000"
    by (simp add: NS_SEC_PERIOD_def c_div_def sdiv_pos)
  have n2: "sint (c_div (nanosec t) 2 + c_div NS_SEC_PERIOD 2) = n sdiv 2 + 500000000"
    using nb n1 by (subst sint32_add) (simp_all add: h sdiv_pos split: if_splits; arith)+
  have "s sdiv 2 = s div 2" if "even s"
    using that by (simp add: sdiv_pos) (auto elim!: evenE)
  moreover have "(s - 1) sdiv 2 = (s - 1) div 2" if "odd s"
    using that by (simp add: sdiv_pos) (auto elim!: oddE)
  ultimately show ?thesis
    by (simp add: ts_is_def ptp_time_except_2_def m s1 s2 n1 n2 half_s_def half_n_def)
qed

lemma half_total: "2 * (half_s s * 10 ^ 9 + half_n s n) = s * 10 ^ 9 + n - n smod 2"
  by (auto simp: half_s_def half_n_def sdiv_pos smod_pos elim!: evenE oddE; arith)

text \<open>
  Halving a timestamp is exact up to the lost odd nanosecond: twice the result differs from the
  timestamp by the signed remainder of its nanoseconds, for any nanoseconds and any seconds whose
  predecessor is representable.
\<close>

lemma ptp_time_halving:
  assumes "\<bar>sint (seconds t)\<bar> < 2 ^ 63 - 1"
  shows "2 * ts_total (ptp_time_except_2 t) = ts_total t - sint (nanosec t) smod 2"
proof -
  have "ts_total (ptp_time_except_2 t) =
      half_s (sint (seconds t)) * 10 ^ 9 + half_n (sint (seconds t)) (sint (nanosec t))"
    by (rule ts_is_total [OF ts_is_except_2 [OF ts_isI assms]])
  then show ?thesis
    using half_total [of "sint (seconds t)" "sint (nanosec t)"] by (simp add: ts_total_def)
qed

section \<open>Delay, offset and synchronised time of a delay response\<close>

text \<open>What the wire and the clock deliver: 48-bit seconds and nanoseconds below one second.\<close>

definition wf_ts :: "ptp_timestamp_t \<Rightarrow> bool" where
  "wf_ts t \<longleftrightarrow> 0 \<le> sint (seconds t) \<and> sint (seconds t) < 2 ^ 48 \<and>
     0 \<le> sint (nanosec t) \<and> sint (nanosec t) < 10 ^ 9"

lemma wf_ts_diff:
  assumes "wf_ts t" and "wf_ts u"
  shows "ts_is (ptp_time_sub t u)
    (sint (seconds t) - sint (seconds u)) (sint (nanosec t) - sint (nanosec u))"
  using assms by (intro ts_is_sub ts_isI) (auto simp: wf_ts_def)

lemma resp_delay_value:
  assumes "wf_ts t1" "wf_ts t2" "wf_ts t3" "wf_ts t4"
    and A: "A = sint (seconds t2) - sint (seconds t1)" and B: "B = sint (seconds t4) - sint (seconds t3)"
    and a: "a = sint (nanosec t2) - sint (nanosec t1)" and b: "b = sint (nanosec t4) - sint (nanosec t3)"
  shows "ts_is (resp_delay t1 t2 t3 t4) (half_s (A + B)) (half_n (A + B) (a + b))"
    and "ts_is (resp_offset t1 t2 t3 t4) (half_s (A - B)) (half_n (A - B) (a - b))"
proof -
  have d1: "ts_is (ptp_time_sub t2 t1) A a" and d2: "ts_is (ptp_time_sub t4 t3) B b"
    unfolding A a B b using assms(1-4) by (simp_all add: wf_ts_diff)
  have r: "\<bar>A\<bar> < 2 ^ 48" "\<bar>B\<bar> < 2 ^ 48" "\<bar>a\<bar> < 10 ^ 9" "\<bar>b\<bar> < 10 ^ 9"
    using assms by (auto simp: wf_ts_def)
  then have "ts_is (ptp_time_add (ptp_time_sub t2 t1) (ptp_time_sub t4 t3)) (A + B) (a + b)"
    by (intro ts_is_add d1 d2) auto
  then show "ts_is (resp_delay t1 t2 t3 t4) (half_s (A + B)) (half_n (A + B) (a + b))"
    unfolding resp_delay_def using r by (intro ts_is_except_2) auto
  have "ts_is (ptp_time_sub (ptp_time_sub t2 t1) (ptp_time_sub t4 t3)) (A - B) (a - b)"
    using r by (intro ts_is_sub d1 d2) auto
  then show "ts_is (resp_offset t1 t2 t3 t4) (half_s (A - B)) (half_n (A - B) (a - b))"
    unfolding resp_offset_def using r by (intro ts_is_except_2) auto
qed

text \<open>Delay and offset, doubled: the sums of the differences less the parity that the division drops.\<close>

lemma resp_doubled:
  assumes "wf_ts t1" "wf_ts t2" "wf_ts t3" "wf_ts t4"
  shows "\<exists>k. \<bar>k\<bar> \<le> 1 \<and> 2 * ts_total (resp_delay t1 t2 t3 t4) =
      (ts_total t2 - ts_total t1) + (ts_total t4 - ts_total t3) - k"
    and "\<exists>k. \<bar>k\<bar> \<le> 1 \<and> 2 * ts_total (resp_offset t1 t2 t3 t4) =
      (ts_total t2 - ts_total t1) - (ts_total t4 - ts_total t3) - k"
proof -
  define A B a b where "A = sint (seconds t2) - sint (seconds t1)"
    and "B = sint (seconds t4) - sint (seconds t3)"
    and "a = sint (nanosec t2) - sint (nanosec t1)"
    and "b = sint (nanosec t4) - sint (nanosec t3)"
  note v = resp_delay_value [OF assms this]
  have m: "\<bar>(x::int) smod 2\<bar> \<le> 1" for x by (auto simp: smod_pos)
  have d: "2 * ts_total (resp_delay t1 t2 t3 t4) = (A + B) * 10 ^ 9 + (a + b) - (a + b) smod 2"
    unfolding ts_is_total [OF v(1)] by (rule half_total)
  have e: "2 * ts_total (resp_offset t1 t2 t3 t4) = (A - B) * 10 ^ 9 + (a - b) - (a - b) smod 2"
    unfolding ts_is_total [OF v(2)] by (rule half_total)
  have t: "ts_total t2 - ts_total t1 = A * 10 ^ 9 + a" "ts_total t4 - ts_total t3 = B * 10 ^ 9 + b"
    by (simp_all add: ts_total_def A_def B_def a_def b_def algebra_simps)
  show "\<exists>k. \<bar>k\<bar> \<le> 1 \<and> 2 * ts_total (resp_delay t1 t2 t3 t4) =
      (ts_total t2 - ts_total t1) + (ts_total t4 - ts_total t3) - k"
    using d t m [of "a + b"] by (intro exI [of _ "(a + b) smod 2"]) (simp add: algebra_simps)
  show "\<exists>k. \<bar>k\<bar> \<le> 1 \<and> 2 * ts_total (resp_offset t1 t2 t3 t4) =
      (ts_total t2 - ts_total t1) - (ts_total t4 - ts_total t3) - k"
    using e t m [of "a - b"] by (intro exI [of _ "(a - b) smod 2"]) (simp add: algebra_simps)
qed

text \<open>
  A step is exact when every signed operation of it gives the integer it stands for, so that nothing
  overflows: the sums; the negations and the sums of a difference; and, for a halving, the predecessor of the
  seconds and the halved parts.
\<close>

definition add_exact :: "ptp_timestamp_t \<Rightarrow> ptp_timestamp_t \<Rightarrow> bool" where
  "add_exact t u \<longleftrightarrow> ts_is (ptp_time_add t u)
     (sint (seconds t) + sint (seconds u)) (sint (nanosec t) + sint (nanosec u))"

definition sub_exact :: "ptp_timestamp_t \<Rightarrow> ptp_timestamp_t \<Rightarrow> bool" where
  "sub_exact t u \<longleftrightarrow>
     ts_is \<lparr>seconds = - seconds u, nanosec = - nanosec u\<rparr> (- sint (seconds u)) (- sint (nanosec u)) \<and>
     ts_is (ptp_time_sub t u) (sint (seconds t) - sint (seconds u)) (sint (nanosec t) - sint (nanosec u))"

definition halve_exact :: "ptp_timestamp_t \<Rightarrow> bool" where
  "halve_exact t \<longleftrightarrow> sint (seconds t - 1) = sint (seconds t) - 1 \<and>
     ts_is (ptp_time_except_2 t) (half_s (sint (seconds t))) (half_n (sint (seconds t)) (sint (nanosec t)))"

lemma sub_exactI:
  assumes "ts_is t s n" "ts_is u s' n'" "\<bar>s'\<bar> < 2 ^ 63" "\<bar>n'\<bar> < 2 ^ 31" "\<bar>s - s'\<bar> < 2 ^ 63" "\<bar>n - n'\<bar> < 2 ^ 31"
  shows "sub_exact t u"
  using ts_is_sub [OF assms] assms
  by (auto simp: sub_exact_def ts_is_def sint64_minus sint32_minus abs_less_iff)

lemma halve_exactI:
  assumes "ts_is t s n" and "\<bar>s\<bar> < 2 ^ 63 - 1"
  shows "halve_exact t"
proof -
  have "sint (seconds t) = s" "sint (nanosec t) = n" using assms(1) by (simp_all add: ts_is_def)
  moreover from this assms(2) have "sint (seconds t - 1) = s - 1"
    by (subst sint64_diff) (simp_all add: abs_less_iff)
  ultimately show ?thesis using ts_is_except_2 [OF assms] by (simp add: halve_exact_def)
qed

lemma resp_steps_exact:
  assumes "wf_ts t1" "wf_ts t2" "wf_ts t3" "wf_ts t4"
  defines "d1 \<equiv> ptp_time_sub t2 t1" and "d2 \<equiv> ptp_time_sub t4 t3"
  shows "sub_exact t2 t1" "sub_exact t4 t3" "add_exact d1 d2" "sub_exact d1 d2"
    "halve_exact (ptp_time_add d1 d2)" "halve_exact (ptp_time_sub d1 d2)"
proof -
  define A B a b where defs: "A = sint (seconds t2) - sint (seconds t1)" "B = sint (seconds t4) - sint (seconds t3)"
    "a = sint (nanosec t2) - sint (nanosec t1)" "b = sint (nanosec t4) - sint (nanosec t3)"
  have d: "ts_is d1 A a" "ts_is d2 B b"
    unfolding d1_def d2_def defs using assms(1-4) by (simp_all add: wf_ts_diff)
  have r: "\<bar>A\<bar> < 2 ^ 48" "\<bar>B\<bar> < 2 ^ 48" "\<bar>a\<bar> < 10 ^ 9" "\<bar>b\<bar> < 10 ^ 9"
    using assms(1-4) by (auto simp: wf_ts_def defs)
  have p: "ts_is (ptp_time_add d1 d2) (A + B) (a + b)" using r by (intro ts_is_add d) auto
  have m: "ts_is (ptp_time_sub d1 d2) (A - B) (a - b)" using r by (intro ts_is_sub d) auto
  show "sub_exact t2 t1" "sub_exact t4 t3"
    using assms(1-4) by (auto intro!: sub_exactI [OF ts_isI ts_isI] simp: wf_ts_def)
  show "add_exact d1 d2" using p d by (simp add: add_exact_def ts_is_def)
  show "sub_exact d1 d2" using r by (intro sub_exactI [OF d]) auto
  show "halve_exact (ptp_time_add d1 d2)" using r by (intro halve_exactI [OF p]) auto
  show "halve_exact (ptp_time_sub d1 d2)" using r by (intro halve_exactI [OF m]) auto
qed

text \<open>
  C12: on well-formed timestamps no step of the computation of delay and offset overflows: both differences, their sum
  and difference, and the two halvings are exact in every signed operation; and delay and offset are the
  two-way averages: twice the delay is \<open>(t2 - t1) + (t4 - t3)\<close> and twice the offset is
  \<open>(t2 - t1) - (t4 - t3)\<close>, each up to one nanosecond.
\<close>
theorem resp_delay_offset_exact:
  assumes "wf_ts t1" "wf_ts t2" "wf_ts t3" "wf_ts t4"
  shows "(let d1 = ptp_time_sub t2 t1; d2 = ptp_time_sub t4 t3; p = ptp_time_add d1 d2; m = ptp_time_sub d1 d2 in
      sub_exact t2 t1 \<and> sub_exact t4 t3 \<and> add_exact d1 d2 \<and> sub_exact d1 d2 \<and> halve_exact p \<and> halve_exact m \<and>
      resp_delay t1 t2 t3 t4 = ptp_time_except_2 p \<and> resp_offset t1 t2 t3 t4 = ptp_time_except_2 m) \<and>
    \<bar>2 * ts_total (resp_delay t1 t2 t3 t4) -
      ((ts_total t2 - ts_total t1) + (ts_total t4 - ts_total t3))\<bar> \<le> 1 \<and>
    \<bar>2 * ts_total (resp_offset t1 t2 t3 t4) -
      ((ts_total t2 - ts_total t1) - (ts_total t4 - ts_total t3))\<bar> \<le> 1"
  using resp_doubled [OF assms] resp_steps_exact [OF assms]
  by (auto simp: Let_def resp_delay_def resp_offset_def)

text \<open>The rounding left when the two halves are subtracted.\<close>

definition halving_gap :: "int \<Rightarrow> int \<Rightarrow> int" where
  "halving_gap a b = (a + b) sdiv 2 - (a - b) sdiv 2 - b"

lemma halving_gap_bound: "\<bar>halving_gap a b\<bar> \<le> 1"
  unfolding halving_gap_def by (simp add: sdiv_pos) arith

text \<open>The gap never leads out of a second: it is below zero only when \<open>b\<close> is above, and the other way round.\<close>

lemma halving_gap_sign:
  "halving_gap a b < 0 \<Longrightarrow> 0 < b" "0 < halving_gap a b \<Longrightarrow> b < 0"
  unfolding halving_gap_def by (auto simp: sdiv_pos split: if_splits)

lemma halving_gap_even: "even (a + b) \<Longrightarrow> halving_gap a b = 0"
proof -
  assume e: "even (a + b)"
  have h: "2 * (x sdiv 2) = x" if "even x" for x :: int
    using that sdiv_mult_smod_eq [of x 2] unfolding even_smod_2 [symmetric] by linarith
  have "2 * ((a + b) sdiv 2) = a + b" using e by (rule h)
  moreover have "2 * ((a - b) sdiv 2) = a - b" using e by (intro h) simp
  ultimately show ?thesis unfolding halving_gap_def by linarith
qed

lemma half_s_eq: "half_s s = s div 2"
  by (auto simp: half_s_def elim!: oddE)

lemma half_s_bound: "2 * \<bar>half_s s\<bar> \<le> \<bar>s\<bar> + 1"
  unfolding half_s_eq
  using mult_div_mod_eq [of 2 s] pos_mod_bound [of 2 s] pos_mod_sign [of 2 s] by linarith

lemma half_n_bound: "2 * \<bar>half_n s n\<bar> \<le> \<bar>n\<bar> + 1000000000"
  by (auto simp: half_n_def sdiv_pos; arith)

lemma half_s_diff: "half_s (A + B) - half_s (A - B) = B"
proof (cases "even (A + B)")
  case True
  then have "even (A - B)" by simp
  with True show ?thesis unfolding half_s_def by (auto elim!: evenE)
next
  case False
  then have "odd (A - B)" by simp
  with False show ?thesis unfolding half_s_def by (auto elim!: oddE)
qed

lemma half_n_diff: "half_n (A + B) (a + b) - half_n (A - B) (a - b) = b + halving_gap a b"
  by (simp add: half_n_def halving_gap_def)

lemma resp_synced_value:
  assumes "wf_ts t1" "wf_ts t2" "wf_ts t3" "wf_ts t4"
  shows "ts_is (resp_synced_time t1 t2 t3 t4) (sint (seconds t4))
    (sint (nanosec t4) + halving_gap (sint (nanosec t2) - sint (nanosec t1))
                                     (sint (nanosec t4) - sint (nanosec t3)))"
proof -
  define A B a b where "A = sint (seconds t2) - sint (seconds t1)"
    and "B = sint (seconds t4) - sint (seconds t3)"
    and "a = sint (nanosec t2) - sint (nanosec t1)"
    and "b = sint (nanosec t4) - sint (nanosec t3)"
  note defs = this
  note v = resp_delay_value [OF assms defs]
  have r: "\<bar>A\<bar> < 2 ^ 48" "\<bar>B\<bar> < 2 ^ 48" "\<bar>a\<bar> < 10 ^ 9" "\<bar>b\<bar> < 10 ^ 9"
    using assms by (auto simp: wf_ts_def defs)
  have h: "\<bar>half_s (A - B)\<bar> < 2 ^ 63" "\<bar>half_n (A - B) (a - b)\<bar> < 2 ^ 31"
    using r half_s_bound [of "A - B"] half_n_bound [of "A - B" "a - b"] by simp_all
  have g: "\<bar>halving_gap a b\<bar> \<le> 1" by (rule halving_gap_bound)
  have p: "ts_is (ptp_time_sub (resp_delay t1 t2 t3 t4) (resp_offset t1 t2 t3 t4)) B
      (b + halving_gap a b)"
    using ts_is_sub [OF v h] r g unfolding half_s_diff half_n_diff by auto
  have "ts_is (resp_synced_time t1 t2 t3 t4) (sint (seconds t3) + B)
      (sint (nanosec t3) + (b + halving_gap a b))"
    unfolding resp_synced_time_def Let_def using r g assms
    by (intro ts_is_add p ts_isI) (auto simp: wf_ts_def defs)
  then show ?thesis by (simp add: defs)
qed

lemma resp_synced_wf:
  assumes "wf_ts t1" "wf_ts t2" "wf_ts t3" "wf_ts t4"
  shows "wf_ts (resp_synced_time t1 t2 t3 t4)"
  using assms resp_synced_value [OF assms]
    halving_gap_bound [of "sint (nanosec t2) - sint (nanosec t1)" "sint (nanosec t4) - sint (nanosec t3)"]
    halving_gap_sign [of "sint (nanosec t2) - sint (nanosec t1)" "sint (nanosec t4) - sint (nanosec t3)"]
  unfolding wf_ts_def ts_is_def by linarith

lemma resp_synced_seconds:
  assumes "wf_ts t1" "wf_ts t2" "wf_ts t3" "wf_ts t4"
  shows "seconds (resp_synced_time t1 t2 t3 t4) = seconds t4"
    and "\<bar>sint (nanosec (resp_synced_time t1 t2 t3 t4)) - sint (nanosec t4)\<bar> \<le> 1"
proof -
  note v = resp_synced_value [OF assms]
  then have "sint (seconds (resp_synced_time t1 t2 t3 t4)) = sint (seconds t4)" by (simp add: ts_is_def)
  then show "seconds (resp_synced_time t1 t2 t3 t4) = seconds t4" by (rule signed_word_eqI)
  show "\<bar>sint (nanosec (resp_synced_time t1 t2 t3 t4)) - sint (nanosec t4)\<bar> \<le> 1"
    using v halving_gap_bound [of "sint (nanosec t2) - sint (nanosec t1)" "sint (nanosec t4) - sint (nanosec t3)"]
    by (simp add: ts_is_def)
qed

text \<open>
  C13: the synchronised time does not depend on \<open>t1\<close>, \<open>t2\<close> or \<open>t3\<close>: subtracting the offset from the
  delay leaves \<open>t4 - t3\<close>, so adding it to \<open>t3\<close> gives back the time stamp \<open>t4\<close> of the delay
  response, the seconds exactly and the nanoseconds up to the rounding of the two halvings, which
  vanishes when the nanoseconds of the two differences have the same parity.
\<close>
theorem resp_synced_time_is_t4:
  assumes "wf_ts t1" "wf_ts t2" "wf_ts t3" "wf_ts t4"
  shows "seconds (resp_synced_time t1 t2 t3 t4) = seconds t4 \<and>
    \<bar>sint (nanosec (resp_synced_time t1 t2 t3 t4)) - sint (nanosec t4)\<bar> \<le> 1 \<and>
    (even (sint (nanosec t2) - sint (nanosec t1) + (sint (nanosec t4) - sint (nanosec t3))) \<longrightarrow>
      resp_synced_time t1 t2 t3 t4 = t4)"
proof -
  let ?a = "sint (nanosec t2) - sint (nanosec t1)" and ?b = "sint (nanosec t4) - sint (nanosec t3)"
  let ?r = "resp_synced_time t1 t2 t3 t4"
  note sec = resp_synced_seconds [OF assms]
  have "?r = t4" if "even (?a + ?b)"
  proof -
    have "sint (nanosec ?r) = sint (nanosec t4)"
      using resp_synced_value [OF assms] halving_gap_even [OF that] by (simp add: ts_is_def)
    then have "nanosec ?r = nanosec t4" by (rule signed_word_eqI)
    with sec show ?thesis by (intro ptp_timestamp_t.equality) auto
  qed
  then show ?thesis using sec by simp
qed

theorem resp_synced_time_is_t4_witness:
  "resp_synced_time \<lparr>seconds = 100, nanosec = 4\<rparr> \<lparr>seconds = 7, nanosec = 999999998\<rparr>
     \<lparr>seconds = 8, nanosec = 10\<rparr> \<lparr>seconds = 101, nanosec = 0\<rparr> = \<lparr>seconds = 101, nanosec = 0\<rparr>"
  using resp_synced_time_is_t4 [of "\<lparr>seconds = 100, nanosec = 4\<rparr>" "\<lparr>seconds = 7, nanosec = 999999998\<rparr>"
      "\<lparr>seconds = 8, nanosec = 10\<rparr>" "\<lparr>seconds = 101, nanosec = 0\<rparr>"]
  by (simp add: wf_ts_def)

theorem resp_delay_offset_exact_witness:
  "\<bar>2 * ts_total (resp_offset \<lparr>seconds = 100, nanosec = 4\<rparr> \<lparr>seconds = 7, nanosec = 999999998\<rparr>
     \<lparr>seconds = 8, nanosec = 10\<rparr> \<lparr>seconds = 101, nanosec = 0\<rparr>) - (- 184999999996)\<bar> \<le> 1"
  using resp_delay_offset_exact [of "\<lparr>seconds = 100, nanosec = 4\<rparr>" "\<lparr>seconds = 7, nanosec = 999999998\<rparr>"
      "\<lparr>seconds = 8, nanosec = 10\<rparr>" "\<lparr>seconds = 101, nanosec = 0\<rparr>"]
  by (simp add: wf_ts_def ts_total_def)

text \<open>
  C14: in an ideal exchange (path delay \<open>d\<close> both ways, slave clock ahead of the master by \<open>theta\<close>,
  request sent at master time \<open>s\<close>, response handled at master time \<open>r\<close>) the computed offset and
  delay are \<open>theta\<close> and \<open>d\<close> to a nanosecond, but the reported difference is not \<open>- theta\<close>: it is short by
  the time \<open>r - (s + d)\<close> from the master's reception of the request to the slave's handling of the
  response, also for a slave that is already synchronous.
\<close>
theorem ideal_exchange_report:
  assumes wf: "wf_ts t1" "wf_ts t2" "wf_ts t3" "wf_ts t4" "wf_ts sys"
    and t2: "ts_total t2 = ts_total t1 + d + theta"
    and t3: "ts_total t3 = s + theta" and t4: "ts_total t4 = s + d"
    and sys: "ts_total sys = r + theta"
  shows "\<bar>ts_total (resp_offset t1 t2 t3 t4) - theta\<bar> \<le> 1 \<and>
    \<bar>ts_total (resp_delay t1 t2 t3 t4) - d\<bar> \<le> 1 \<and>
    \<bar>ts_total (ptp_time_sub (resp_synced_time t1 t2 t3 t4) sys) - (- theta - (r - (s + d)))\<bar> \<le> 1"
proof -
  let ?r = "resp_synced_time t1 t2 t3 t4"
  note e = resp_doubled [OF wf(1-4)]
  note v = resp_synced_seconds [OF wf(1-4)]
  have "ts_is (ptp_time_sub ?r sys) (sint (seconds ?r) - sint (seconds sys))
      (sint (nanosec ?r) - sint (nanosec sys))"
    using wf(4,5) v by (intro ts_is_sub ts_isI) (auto simp: wf_ts_def)
  then have "ts_total (ptp_time_sub ?r sys) = ts_total ?r - ts_total sys"
    by (simp add: ts_is_def ts_total_def algebra_simps)
  moreover have "\<bar>ts_total ?r - ts_total t4\<bar> \<le> 1" using v by (simp add: ts_total_def)
  ultimately show ?thesis using e t2 t3 t4 sys by auto
qed

theorem ideal_exchange_report_witness:
  "ts_total (ptp_time_sub (resp_synced_time \<lparr>seconds = 10, nanosec = 0\<rparr> \<lparr>seconds = 10, nanosec = 3000\<rparr>
     \<lparr>seconds = 10, nanosec = 50000\<rparr> \<lparr>seconds = 10, nanosec = 53000\<rparr>) \<lparr>seconds = 10, nanosec = 60000\<rparr>)
   \<le> - 6999"
proof -
  let ?t = "\<lambda>n. \<lparr>seconds = 10, nanosec = n\<rparr>"
  have "\<bar>ts_total (ptp_time_sub (resp_synced_time (?t 0) (?t 3000) (?t 50000) (?t 53000)) (?t 60000))
      - (- 0 - (10000060000 - (10000050000 + 3000)))\<bar> \<le> 1"
    by (rule ideal_exchange_report [THEN conjunct2, THEN conjunct2])
       (simp_all add: wf_ts_def ts_total_def)
  then show ?thesis by simp
qed

section \<open>Encoding and decoding timestamps\<close>

text \<open>The loops unrolled, as bytes of the two fields.\<close>

lemma upt_loops: "[0..<6] = [0, 1, 2, 3, 4, 5 :: nat]" "[0..<4] = [0, 1, 2, 3 :: nat]"
  "[6..<10] = [6, 7, 8, 9 :: nat]"
  by (simp_all add: upt_rec)

definition sar_byte :: "'a::len word \<Rightarrow> nat \<Rightarrow> u8" where
  "sar_byte v i = ucast (c_sar v (i * 8) AND 0xFF)"

lemma prepare_bytes:
  assumes "length out = 10"
  shows "ptp_prepare_timestamp ts out =
    map (sar_byte (seconds ts)) [5, 4, 3, 2, 1, 0] @ map (sar_byte (nanosec ts)) [3, 2, 1, 0]"
proof -
  obtain b0 b1 b2 b3 b4 b5 b6 b7 b8 b9 where "out = [b0, b1, b2, b3, b4, b5, b6, b7, b8, b9]"
    using assms by (auto simp: length_Suc_conv numeral_eq_Suc)
  then show ?thesis
    by (simp add: ptp_prepare_timestamp_def upt_loops sar_byte_def)
qed

lemma length_prepare [simp]: "length out = 10 \<Longrightarrow> length (ptp_prepare_timestamp ts out) = 10"
  by (simp add: prepare_bytes)

lemma sar_byte_eq:
  assumes "i * 8 + 8 \<le> LENGTH('a)"
  shows "sar_byte (v :: 'a::len word) i = ucast (drop_bit (i * 8) v)"
proof (rule bit_word_eqI)
  fix n assume "n < LENGTH(8)"
  then have n: "n < 8" by simp
  have m: "(0xFF :: 'a word) = mask 8" by (simp add: mask_eq_exp_minus_1)
  show "bit (sar_byte v i) n = bit (ucast (drop_bit (i * 8) v) :: u8) n"
    using n assms
    by (auto simp: sar_byte_def c_sar_def m bit_ucast_iff bit_and_iff bit_mask_iff
        bit_signed_drop_bit_iff bit_drop_bit_eq)
qed

lemma store_step_bit:
  "bit (push_bit 8 (s :: 'a::len word) + ucast (x :: u8)) n \<longleftrightarrow>
     n < LENGTH('a) \<and> (if n < 8 then bit x n else bit s (n - 8))"
proof -
  have "push_bit 8 s AND ucast x = 0"
    by (rule bit_word_eqI) (auto simp: bit_push_bit_iff bit_and_iff bit_ucast_iff dest: bit_imp_le_length)
  then have "push_bit 8 s + ucast x = push_bit 8 s OR ucast x"
    by (rule disjunctive_add_eq_or)
  then show ?thesis
    by (auto simp: bit_or_iff bit_push_bit_iff bit_ucast_iff dest: bit_imp_le_length)
qed

lemma bit_sar_byte:
  "i * 8 + 8 \<le> LENGTH('a) \<Longrightarrow> bit (sar_byte (v :: 'a::len word) i) n \<longleftrightarrow> n < 8 \<and> bit v (i * 8 + n)"
  by (simp add: sar_byte_eq bit_ucast_iff bit_drop_bit_eq)

lemma store_seconds:
  "seconds (ptp_store_timestamp (map (sar_byte (s :: i64)) [5, 4, 3, 2, 1, 0] @ ns)) = take_bit 48 s"
proof (rule bit_word_eqI)
  fix n assume "n < LENGTH(64)"
  have "bit (seconds (ptp_store_timestamp (map (sar_byte s) [5, 4, 3, 2, 1, 0] @ ns))) n
      \<longleftrightarrow> n < 48 \<and> bit s n"
    by (auto simp: ptp_store_timestamp_def upt_loops store_step_bit bit_sar_byte bit_ucast_iff
        dest: bit_imp_le_length)
  then show "bit (seconds (ptp_store_timestamp (map (sar_byte s) [5, 4, 3, 2, 1, 0] @ ns))) n
      = bit (take_bit 48 s) n"
    by (simp add: bit_take_bit_iff)
qed

lemma store_nanosec:
  "length ss = 6 \<Longrightarrow>
   nanosec (ptp_store_timestamp (ss @ map (sar_byte (v :: i32)) [3, 2, 1, 0])) = v"
proof (rule bit_word_eqI)
  fix n assume "n < LENGTH(32)" and "length ss = 6"
  then show "bit (nanosec (ptp_store_timestamp (ss @ map (sar_byte v) [3, 2, 1, 0]))) n = bit v n"
    by (auto simp: ptp_store_timestamp_def upt_loops store_step_bit bit_sar_byte bit_ucast_iff nth_append
        dest: bit_imp_le_length)
qed

lemma store_prepare:
  assumes "length out = 10"
  shows "ptp_store_timestamp (ptp_prepare_timestamp ts out) = ts\<lparr>seconds := take_bit 48 (seconds ts)\<rparr>"
  using store_seconds [of "seconds ts"] store_nanosec [of "map (sar_byte (seconds ts)) [5, 4, 3, 2, 1, 0]"]
  by (intro ptp_timestamp_t.equality) (simp_all add: prepare_bytes [OF assms])

lemma take_bit_48: "0 \<le> sint s \<Longrightarrow> sint s < 2 ^ 48 \<Longrightarrow> take_bit 48 s = (s :: i64)"
  by (rule word_uint_eqI) (simp add: unsigned_take_bit_eq take_bit_int_eq_self uint_eq_sint)

lemma store_prepare_wf: "length out = 10 \<Longrightarrow> wf_ts ts \<Longrightarrow> ptp_store_timestamp (ptp_prepare_timestamp ts out) = ts"
  by (simp add: store_prepare take_bit_48 wf_ts_def)

text \<open>
  C26: writing a timestamp to the wire and reading it back gives the same nanoseconds and the low 48 bits
  of the seconds, so the timestamp itself whenever its seconds are below 2^48.
\<close>
theorem ptp_timestamp_roundtrip:
  assumes "length out = 10"
  shows "ptp_store_timestamp (ptp_prepare_timestamp ts out) = ts\<lparr>seconds := take_bit 48 (seconds ts)\<rparr> \<and>
    (0 \<le> sint (seconds ts) \<and> sint (seconds ts) < 2 ^ 48 \<longrightarrow>
      ptp_store_timestamp (ptp_prepare_timestamp ts out) = ts)"
  using store_prepare [OF assms] by (simp add: take_bit_48)

theorem ptp_timestamp_roundtrip_witness:
  "ptp_store_timestamp (ptp_prepare_timestamp \<lparr>seconds = 1757890123, nanosec = 999999999\<rparr> (replicate 10 0))
    = \<lparr>seconds = 1757890123, nanosec = 999999999\<rparr>"
  using ptp_timestamp_roundtrip [of "replicate 10 0" "\<lparr>seconds = 1757890123, nanosec = 999999999\<rparr>"]
  by simp

lemma sar_byte_store_seconds:
  assumes "i < 6" and "10 \<le> length bs"
  shows "sar_byte (seconds (ptp_store_timestamp bs)) i = bs ! (5 - i)"
proof (rule bit_word_eqI)
  fix n assume "n < LENGTH(8)"
  then have n: "n < 8" by simp
  have "i = 0 \<or> i = 1 \<or> i = 2 \<or> i = 3 \<or> i = 4 \<or> i = 5" using assms(1) by auto
  with n show "bit (sar_byte (seconds (ptp_store_timestamp bs)) i) n = bit (bs ! (5 - i)) n"
    by (auto simp: bit_sar_byte ptp_store_timestamp_def upt_loops store_step_bit bit_ucast_iff
        dest: bit_imp_le_length)
qed

lemma sar_byte_store_nanosec:
  assumes "i < 4" and "10 \<le> length bs"
  shows "sar_byte (nanosec (ptp_store_timestamp bs)) i = bs ! (9 - i)"
proof (rule bit_word_eqI)
  fix n assume "n < LENGTH(8)"
  then have n: "n < 8" by simp
  have "i = 0 \<or> i = 1 \<or> i = 2 \<or> i = 3" using assms(1) by auto
  with n show "bit (sar_byte (nanosec (ptp_store_timestamp bs)) i) n = bit (bs ! (9 - i)) n"
    by (auto simp: bit_sar_byte ptp_store_timestamp_def upt_loops store_step_bit bit_ucast_iff
        dest: bit_imp_le_length)
qed

text \<open>
  C27: reading a ten-byte timestamp from the wire and writing it again gives the same ten bytes,
  whatever the buffer held before: the code's wire format has one encoding per value.
\<close>
theorem ptp_timestamp_wire_roundtrip:
  assumes "length bs = 10" and "length out = 10"
  shows "ptp_prepare_timestamp (ptp_store_timestamp bs) out = bs"
proof -
  obtain b0 b1 b2 b3 b4 b5 b6 b7 b8 b9 where bs: "bs = [b0, b1, b2, b3, b4, b5, b6, b7, b8, b9]"
    using assms(1) by (auto simp: length_Suc_conv numeral_eq_Suc)
  show ?thesis
    unfolding prepare_bytes [OF assms(2)]
    using assms(1) by (simp add: sar_byte_store_seconds sar_byte_store_nanosec) (simp add: bs)
qed

theorem ptp_timestamp_wire_roundtrip_witness:
  "ptp_prepare_timestamp (ptp_store_timestamp [0, 0, 1, 2, 3, 4, 59, 154, 201, 255]) (replicate 10 7)
    = [0, 0, 1, 2, 3, 4, 59, 154, 201, 255]"
  by (rule ptp_timestamp_wire_roundtrip) simp_all

lemma store_seconds_range:
  "0 \<le> sint (seconds (ptp_store_timestamp bs)) \<and> sint (seconds (ptp_store_timestamp bs)) < 2 ^ 48"
proof -
  let ?s = "seconds (ptp_store_timestamp bs)"
  have "bit ?s n \<Longrightarrow> n < 48" for n
    by (auto simp: ptp_store_timestamp_def upt_loops store_step_bit bit_ucast_iff
        dest: bit_imp_le_length split: if_splits)
  then have "take_bit 48 ?s = ?s"
    by (intro bit_word_eqI) (auto simp: bit_take_bit_iff)
  then have "uint ?s = take_bit 48 (uint ?s)" by (metis unsigned_take_bit_eq)
  also have "\<dots> < 2 ^ 48" by (rule take_bit_int_less_exp)
  finally have u: "uint ?s < 2 ^ 48" .
  then have "sint ?s = uint ?s" by (intro sint_of_uint_small) simp
  with u show ?thesis by simp
qed

end
