(* ===== verification/PtpSync.thy ===== *)
theory PtpSync
  imports PtpTime
begin

text \<open>
  The message part of \<open>IEEE1588/ptp_sync.c\<close> and \<open>ptp_sync.h\<close>: the packed message header and the
  delay request, the registration of the three call-backs, and the interpreter that the UDP and the
  raw Ethernet receivers call with each message.

  The call-backs act on a world \<open>'w\<close> that the theory leaves open; the interpreter's own statics are
  the record \<open>ptp_sync_state\<close>. The C interpreter gets a pointer and no length, so the model reads the
  message through \<open>rd\<close>, which faults when a read leaves the bytes that were received.
\<close>

section \<open>Messages\<close>

definition PTP_MSG_OK :: i32 where "PTP_MSG_OK = 0"
definition PTP_MSG_ERR :: i32 where "PTP_MSG_ERR = - 1"

datatype msg_type_e =
    SyncMsg_e | DelayRequest_e | PDelayRequest_e | PDelayResponse_e
  | FollowUpMsg_e | DelayResponse_e | PDelayResponseFollowUp_e | Announce_e
  | Signaling_e | Management_e

fun msg_type_code :: "msg_type_e \<Rightarrow> 4 word" where
  "msg_type_code SyncMsg_e = 0x00"
| "msg_type_code DelayRequest_e = 0x01"
| "msg_type_code PDelayRequest_e = 0x02"
| "msg_type_code PDelayResponse_e = 0x03"
| "msg_type_code FollowUpMsg_e = 0x08"
| "msg_type_code DelayResponse_e = 0x09"
| "msg_type_code PDelayResponseFollowUp_e = 0x0A"
| "msg_type_code Announce_e = 0x0B"
| "msg_type_code Signaling_e = 0x0C"
| "msg_type_code Management_e = 0x0D"

text \<open>
  The header, 34 bytes, packed: the four-bit fields share a byte from the low bits up, and the
  multi-byte fields are stored in the target's little-endian order.
\<close>

record ptp_msg_header_t =
  messageType :: "4 word"
  majorSdoId :: "4 word"
  versionPTP :: "4 word"
  minorVerPtp :: "4 word"
  messageLen :: u16
  domainNumber :: u8
  hdr_RESERVED_1 :: u8
  hdr_flags :: u16
  correctionField :: u64
  hdr_RESERVED_2 :: "u8 list"
  srcPortId :: "u8 list"
  seqId :: u16
  controlField :: u8
  logMsgInterval :: u8

definition nibbles :: "4 word \<Rightarrow> 4 word \<Rightarrow> u8" where
  "nibbles lo hi = ucast lo OR push_bit 4 (ucast hi)"

definition header_bytes :: "ptp_msg_header_t \<Rightarrow> u8 list" where
  "header_bytes h =
     [nibbles (messageType h) (majorSdoId h), nibbles (versionPTP h) (minorVerPtp h)] @
     le_bytes 2 (messageLen h) @ [domainNumber h, hdr_RESERVED_1 h] @ le_bytes 2 (hdr_flags h) @
     le_bytes 8 (correctionField h) @ hdr_RESERVED_2 h @ srcPortId h @ le_bytes 2 (seqId h) @
     [controlField h, logMsgInterval h]"

definition header_of_bytes :: "u8 list \<Rightarrow> ptp_msg_header_t" where
  "header_of_bytes bs =
     \<lparr>messageType = ucast (bs ! 0), majorSdoId = ucast (drop_bit 4 (bs ! 0)),
      versionPTP = ucast (bs ! 1), minorVerPtp = ucast (drop_bit 4 (bs ! 1)),
      messageLen = le_word (take 2 (drop 2 bs)),
      domainNumber = bs ! 4, hdr_RESERVED_1 = bs ! 5,
      hdr_flags = le_word (take 2 (drop 6 bs)),
      correctionField = le_word (take 8 (drop 8 bs)),
      hdr_RESERVED_2 = take 4 (drop 16 bs), srcPortId = take 10 (drop 20 bs),
      seqId = le_word (take 2 (drop 30 bs)),
      controlField = bs ! 32, logMsgInterval = bs ! 33\<rparr>"

record ptp_delay_req_msg_fmt_t =
  dr_header :: ptp_msg_header_t
  dr_origin_ts :: "u8 list"

definition delay_req_bytes :: "ptp_delay_req_msg_fmt_t \<Rightarrow> u8 list" where
  "delay_req_bytes m = header_bytes (dr_header m) @ dr_origin_ts m"

definition zero_header :: ptp_msg_header_t where
  "zero_header = header_of_bytes (replicate 34 0)"

definition zero_delay_req :: ptp_delay_req_msg_fmt_t where
  "zero_delay_req = \<lparr>dr_header = zero_header, dr_origin_ts = replicate 10 0\<rparr>"

text \<open>A received message: where it lies and the bytes received there.\<close>

record ptp_msg =
  msg_addr :: nat
  msg_bytes :: "u8 list"

definition rd :: "ptp_msg \<Rightarrow> nat \<Rightarrow> nat \<Rightarrow> fault + u8 list" where
  "rd m off n = (if off + n \<le> length (msg_bytes m) then Inr (take n (drop off (msg_bytes m)))
                 else Inl Buffer_overread)"

section \<open>State and call-backs\<close>

text \<open>
  The pointers to the last message of each kind are stored and never read back; they are kept as
  addresses. \<open>st_t1\<close> to \<open>st_sys_ts\<close> are the statics of the interpreter, \<open>delay_req_msg\<close> the static
  message of \<open>ptp_sync_send_delay_req_event\<close>.
\<close>

record ptp_sync_state =
  pAnnounce :: "nat option"
  pSync :: "nat option"
  pFollowUp :: "nat option"
  pDelayResp :: "nat option"
  pPDelayResp :: "nat option"
  pPDelayRespFollwUp :: "nat option"
  st_t1 :: ptp_timestamp_t
  st_t2 :: ptp_timestamp_t
  st_t3 :: ptp_timestamp_t
  st_t4 :: ptp_timestamp_t
  st_sys_ts :: ptp_timestamp_t
  delay_req_msg :: ptp_delay_req_msg_fmt_t

definition zero_ts :: ptp_timestamp_t where
  "zero_ts = \<lparr>seconds = 0, nanosec = 0\<rparr>"

definition ptp_sync_boot :: ptp_sync_state where
  "ptp_sync_boot =
     \<lparr>pAnnounce = None, pSync = None, pFollowUp = None, pDelayResp = None, pPDelayResp = None,
      pPDelayRespFollwUp = None, st_t1 = zero_ts, st_t2 = zero_ts, st_t3 = zero_ts, st_t4 = zero_ts,
      st_sys_ts = zero_ts, delay_req_msg = zero_delay_req\<rparr>"

record 'w ptp_sync_cbs =
  sSyscTimeCb :: "('w \<Rightarrow> ptp_timestamp_t \<times> 'w) option"
  sReportDiffCb :: "(i32 \<Rightarrow> ptp_timestamp_t \<Rightarrow> ptp_timestamp_t \<Rightarrow> 'w \<Rightarrow> fault + 'w) option"
  sSendDlyReqCb :: "(u8 list \<Rightarrow> 'w \<Rightarrow> fault + 'w) option"

definition no_cbs :: "'w ptp_sync_cbs" where
  "no_cbs = \<lparr>sSyscTimeCb = None, sReportDiffCb = None, sSendDlyReqCb = None\<rparr>"

definition ptp_sync_register_gettime_cb ::
  "('w \<Rightarrow> ptp_timestamp_t \<times> 'w) \<Rightarrow> 'w ptp_sync_cbs \<Rightarrow> 'w ptp_sync_cbs" where
  "ptp_sync_register_gettime_cb cb c = c\<lparr>sSyscTimeCb := Some cb\<rparr>"

definition ptp_sync_register_report_diff_cb ::
  "(i32 \<Rightarrow> ptp_timestamp_t \<Rightarrow> ptp_timestamp_t \<Rightarrow> 'w \<Rightarrow> fault + 'w) \<Rightarrow> 'w ptp_sync_cbs \<Rightarrow> 'w ptp_sync_cbs"
where
  "ptp_sync_register_report_diff_cb cb c = c\<lparr>sReportDiffCb := Some cb\<rparr>"

definition ptp_sync_register_delay_req_cb ::
  "(u8 list \<Rightarrow> 'w \<Rightarrow> fault + 'w) \<Rightarrow> 'w ptp_sync_cbs \<Rightarrow> 'w ptp_sync_cbs" where
  "ptp_sync_register_delay_req_cb cb c = c\<lparr>sSendDlyReqCb := Some cb\<rparr>"

definition ptp_sync_read_systime :: "'w ptp_sync_cbs \<Rightarrow> 'w \<Rightarrow> fault + (ptp_timestamp_t \<times> 'w)" where
  "ptp_sync_read_systime c w =
     (case sSyscTimeCb c of None \<Rightarrow> Inl Assert_failed | Some cb \<Rightarrow> Inr (cb w))"

definition ptp_sycn_report_diff ::
  "'w ptp_sync_cbs \<Rightarrow> i32 \<Rightarrow> ptp_timestamp_t \<Rightarrow> ptp_timestamp_t \<Rightarrow> 'w \<Rightarrow> fault + 'w" where
  "ptp_sycn_report_diff c offset sync_ts diff_ts w =
     (case sReportDiffCb c of None \<Rightarrow> Inl Assert_failed | Some cb \<Rightarrow> cb offset sync_ts diff_ts w)"

section \<open>The delay request\<close>

text \<open>\<open>memcpy(&msg.header, hdr, 4)\<close> on the packed header.\<close>

definition copy_header4 :: "u8 list \<Rightarrow> ptp_msg_header_t \<Rightarrow> ptp_msg_header_t" where
  "copy_header4 bs h = header_of_bytes (bs @ drop 4 (header_bytes h))"

definition bswap16 :: "u16 \<Rightarrow> u16" where
  "bswap16 v = push_bit 8 v OR drop_bit 8 v"

definition sizeof_delay_req :: nat where "sizeof_delay_req = 44"

definition fill_delay_req :: "u8 list \<Rightarrow> ptp_timestamp_t \<Rightarrow> ptp_delay_req_msg_fmt_t \<Rightarrow> ptp_delay_req_msg_fmt_t" where
  "fill_delay_req hdr4 ts m =
     (let h = copy_header4 hdr4 (dr_header m);
          m1 = m\<lparr>dr_origin_ts := ptp_prepare_timestamp ts (dr_origin_ts m)\<rparr>
      in m1\<lparr>dr_header := h\<lparr>messageType := msg_type_code DelayRequest_e,
                            messageLen := bswap16 (of_nat sizeof_delay_req),
                            controlField := 5,
                            domainNumber := 0,
                            hdr_RESERVED_1 := 0x00,
                            hdr_flags := 0x0000,
                            correctionField := 0x00\<rparr>\<rparr>)"

definition ptp_sync_send_delay_req_event ::
  "'w ptp_sync_cbs \<Rightarrow> ptp_msg \<Rightarrow> ptp_timestamp_t \<Rightarrow> ptp_sync_state \<Rightarrow> 'w \<Rightarrow> fault + (ptp_sync_state \<times> 'w)"
where
  "ptp_sync_send_delay_req_event c hdr ts s w =
     (case sSendDlyReqCb c of
        None \<Rightarrow> Inl Assert_failed
      | Some cb \<Rightarrow>
          bind_sum (rd hdr 0 4) (\<lambda>h4.
            let msg = fill_delay_req h4 ts (delay_req_msg s)
            in bind_sum (cb (delay_req_bytes msg) w) (\<lambda>w'. Inr (s\<lparr>delay_req_msg := msg\<rparr>, w'))))"

section \<open>The interpreter\<close>

definition ptp_sync_interpreter ::
  "'w ptp_sync_cbs \<Rightarrow> ptp_msg \<Rightarrow> ptp_sync_state \<Rightarrow> 'w \<Rightarrow> fault + (i32 \<times> ptp_sync_state \<times> 'w)" where
  "ptp_sync_interpreter c msg s w =
     bind_sum (rd msg 0 1) (\<lambda>b0.
       let ty = (ucast (hd b0) :: 4 word) in
       if ty = msg_type_code SyncMsg_e then
         bind_sum (ptp_sync_read_systime c w) (\<lambda>(t2, w1).
           Inr (PTP_MSG_OK, s\<lparr>pSync := Some (msg_addr msg), st_t2 := t2\<rparr>, w1))
       else if ty = msg_type_code FollowUpMsg_e then
         bind_sum (rd msg 34 10) (\<lambda>origin.
         bind_sum (ptp_sync_read_systime c w) (\<lambda>(t3, w1).
         bind_sum (ptp_sync_send_delay_req_event c msg t3
                     (s\<lparr>pFollowUp := Some (msg_addr msg), st_t1 := ptp_store_timestamp origin,
                        st_t3 := t3\<rparr>) w1) (\<lambda>(s2, w2).
           Inr (PTP_MSG_OK, s2, w2))))
       else if ty = msg_type_code DelayResponse_e then
         bind_sum (ptp_sync_read_systime c w) (\<lambda>(sys_ts, w1).
         bind_sum (rd msg 34 10) (\<lambda>recv.
         let t1 = st_t1 s; t2 = st_t2 s; t3 = st_t3 s;
             t4 = ptp_store_timestamp recv;
             synced_time = resp_synced_time t1 t2 t3 t4;
             diff = ptp_time_sub synced_time sys_ts;
             s1 = s\<lparr>pDelayResp := Some (msg_addr msg), st_sys_ts := sys_ts, st_t4 := t4\<rparr>
         in bind_sum (ptp_sycn_report_diff c 0 synced_time diff w1) (\<lambda>w2.
              Inr (PTP_MSG_OK, s1, w2))))
       else if ty = msg_type_code PDelayResponse_e then
         Inr (PTP_MSG_OK, s\<lparr>pPDelayResp := Some (msg_addr msg)\<rparr>, w)
       else if ty = msg_type_code PDelayResponseFollowUp_e then
         Inr (PTP_MSG_OK, s\<lparr>pPDelayRespFollwUp := Some (msg_addr msg)\<rparr>, w)
       else if ty = msg_type_code Announce_e then
         Inr (PTP_MSG_OK, s\<lparr>pAnnounce := Some (msg_addr msg)\<rparr>, w)
       else if ty = msg_type_code Signaling_e then Inr (PTP_MSG_ERR, s, w)
       else if ty = msg_type_code Management_e then Inr (PTP_MSG_ERR, s, w)
       else Inr (PTP_MSG_ERR, s, w))"

section \<open>The packed header\<close>

lemma nibbles_inverse [simp]:
  "(ucast (nibbles lo hi) :: 4 word) = lo"
  "(ucast (drop_bit 4 (nibbles lo hi)) :: 4 word) = hi"
  by (rule bit_word_eqI; auto simp: nibbles_def bit_simps bit_ucast_iff dest: bit_imp_le_length)+

lemma nibbles_of_byte [simp]: "nibbles (ucast b) (ucast (drop_bit 4 b)) = b"
proof (rule bit_word_eqI)
  fix n assume "n < LENGTH(8)"
  then have "n < 4 \<or> (4 \<le> n \<and> n - 4 < 4)" by auto
  then show "bit (nibbles (ucast b) (ucast (drop_bit 4 b))) n = bit b n"
    by (auto simp: nibbles_def bit_simps bit_ucast_iff)
qed

definition header_shape :: "ptp_msg_header_t \<Rightarrow> bool" where
  "header_shape h \<longleftrightarrow> length (hdr_RESERVED_2 h) = 4 \<and> length (srcPortId h) = 10"

lemma length_header_bytes [simp]: "header_shape h \<Longrightarrow> length (header_bytes h) = 34"
  by (simp add: header_bytes_def header_shape_def)

lemma header_shape_of_bytes [simp]: "34 \<le> length bs \<Longrightarrow> header_shape (header_of_bytes bs)"
  by (simp add: header_shape_def header_of_bytes_def)

text \<open>
  The packed header is a faithful view of its 34 bytes: reading back a stored header gives every
  field, four-bit fields included, and storing a header read from 34 bytes gives the bytes.
\<close>

lemma header_roundtrip:
  "(header_shape h \<longrightarrow> header_of_bytes (header_bytes h) = h) \<and>
   (length bs = 34 \<longrightarrow> header_bytes (header_of_bytes bs) = bs)"
proof (intro conjI impI)
  assume "header_shape h"
  then show "header_of_bytes (header_bytes h) = h"
    by (intro ptp_msg_header_t.equality)
       (simp_all add: header_of_bytes_def header_bytes_def header_shape_def nth_append le_word_le_bytes)
next
  assume "length bs = 34"
  then obtain b0 b1 b2 b3 b4 b5 b6 b7 b8 b9 c0 c1 c2 c3 c4 c5 c6 c7 c8 c9 d0 d1 d2 d3 d4 d5 d6 d7 d8 d9
      e0 e1 e2 e3 where bs: "bs = [b0, b1, b2, b3, b4, b5, b6, b7, b8, b9, c0, c1, c2, c3, c4, c5, c6,
      c7, c8, c9, d0, d1, d2, d3, d4, d5, d6, d7, d8, d9, e0, e1, e2, e3]"
    by (auto simp: length_Suc_conv numeral_eq_Suc)
  have le: "le_bytes 2 (le_word [x, y] :: u16) = [x, y]" for x y
    using le_bytes_le_word [of "[x, y]", where 'a = 16]
    by (simp add: numeral_eq_Suc del: le_word.simps)
  have le8: "le_bytes 8 (le_word [x0, x1, x2, x3, x4, x5, x6, x7] :: u64) = [x0, x1, x2, x3, x4, x5, x6, x7]"
    for x0 x1 x2 x3 x4 x5 x6 x7
    using le_bytes_le_word [of "[x0, x1, x2, x3, x4, x5, x6, x7]", where 'a = 64]
    by (simp add: numeral_eq_Suc del: le_word.simps)
  show "header_bytes (header_of_bytes bs) = bs"
    unfolding bs header_of_bytes_def header_bytes_def
    by (simp add: le le8 del: le_word.simps)
qed

lemma header_roundtrip_example:
  "header_bytes (header_of_bytes ([0x18, 0x12, 0, 44] @ replicate 30 7)) = [0x18, 0x12, 0, 44] @ replicate 30 7"
  using header_roundtrip [of zero_header "[0x18, 0x12, 0, 44] @ replicate 30 7"] by simp

section \<open>The request sent on the wire\<close>

definition dr_clean :: "ptp_delay_req_msg_fmt_t \<Rightarrow> bool" where
  "dr_clean m \<longleftrightarrow> hdr_RESERVED_2 (dr_header m) = replicate 4 0 \<and> srcPortId (dr_header m) = replicate 10 0 \<and>
     seqId (dr_header m) = 0 \<and> logMsgInterval (dr_header m) = 0 \<and> length (dr_origin_ts m) = 10"

lemma dr_clean_shape [simp]: "dr_clean m \<Longrightarrow> header_shape (dr_header m)"
  by (simp add: dr_clean_def header_shape_def)

lemma copy_header4_fields:
  assumes "header_shape h" and "length bs = 4"
  shows "majorSdoId (copy_header4 bs h) = ucast (drop_bit 4 (bs ! 0))"
    "versionPTP (copy_header4 bs h) = ucast (bs ! 1)"
    "minorVerPtp (copy_header4 bs h) = ucast (drop_bit 4 (bs ! 1))"
    "hdr_RESERVED_2 (copy_header4 bs h) = hdr_RESERVED_2 h"
    "srcPortId (copy_header4 bs h) = srcPortId h"
    "seqId (copy_header4 bs h) = seqId h"
    "logMsgInterval (copy_header4 bs h) = logMsgInterval h"
  using assms
  by (simp_all add: copy_header4_def header_of_bytes_def header_bytes_def header_shape_def nth_append
      le_word_le_bytes)

lemma nibbles_request: "nibbles 1 (ucast (drop_bit 4 b)) = (b AND 0xF0) OR 1"
proof (rule bit_word_eqI)
  fix n assume "n < LENGTH(8)"
  then have "n = 0 \<or> n = 1 \<or> n = 2 \<or> n = 3 \<or> n = 4 \<or> n = 5 \<or> n = 6 \<or> n = 7" by auto
  then show "bit (nibbles 1 (ucast (drop_bit 4 b))) n = bit ((b AND 0xF0) OR 1) n"
    by (auto simp: nibbles_def bit_simps bit_ucast_iff)
qed

lemma bytes_of_zero [simp]: "le_bytes 2 (0 :: u16) = [0, 0]" "le_bytes 8 (0 :: u64) = replicate 8 0"
  by (simp_all add: le_bytes_def upt_rec numeral_eq_Suc)

lemma bytes_of_size: "le_bytes 2 (bswap16 (of_nat sizeof_delay_req)) = [0, 44]"
  by (simp add: le_bytes_def bswap16_def sizeof_delay_req_def upt_rec)

lemma delay_request_fill:
  assumes "dr_clean m" and "length h4 = 4"
  shows "delay_req_bytes (fill_delay_req h4 ts m) =
      [(h4 ! 0 AND 0xF0) OR 1, h4 ! 1, 0, 44] @ replicate 28 0 @ [5, 0] @
      ptp_prepare_timestamp ts (replicate 10 0)"
    and "dr_clean (fill_delay_req h4 ts m)"
    and "length (delay_req_bytes (fill_delay_req h4 ts m)) = 44"
proof -
  have sh: "header_shape (dr_header m)" and o: "length (dr_origin_ts m) = 10"
    and cl: "hdr_RESERVED_2 (dr_header m) = replicate 4 0" "srcPortId (dr_header m) = replicate 10 0"
      "seqId (dr_header m) = 0" "logMsgInterval (dr_header m) = 0"
    using assms(1) by (auto simp: dr_clean_def header_shape_def)
  have p: "ptp_prepare_timestamp ts (dr_origin_ts m) = ptp_prepare_timestamp ts (replicate 10 0)"
    using o by (simp add: prepare_bytes)
  show frame: "delay_req_bytes (fill_delay_req h4 ts m) =
      [(h4 ! 0 AND 0xF0) OR 1, h4 ! 1, 0, 44] @ replicate 28 0 @ [5, 0] @
      ptp_prepare_timestamp ts (replicate 10 0)"
    by (simp add: delay_req_bytes_def fill_delay_req_def header_bytes_def Let_def
        copy_header4_fields [OF sh assms(2)] cl bytes_of_size nibbles_request p)
       (simp add: numeral_eq_Suc)
  show "dr_clean (fill_delay_req h4 ts m)"
    using o by (simp add: dr_clean_def fill_delay_req_def Let_def copy_header4_fields [OF sh assms(2)] cl)
  show "length (delay_req_bytes (fill_delay_req h4 ts m)) = 44"
    unfolding frame by simp
qed

text \<open>
  C25: every delay request on the wire is the same 44-byte frame: the sender's high nibble and version
  byte copied from the follow-up message, type 1, the length 44 in network order, control field 5, the
  local send time in big-endian form, and zero in all other bytes; in particular the source port
  identity and the sequence number are always zero.
\<close>
theorem delay_request_frame:
  assumes "dr_clean m" and "length h4 = 4"
  shows "delay_req_bytes (fill_delay_req h4 ts m) =
      [(h4 ! 0 AND 0xF0) OR 1, h4 ! 1, 0, 44] @ replicate 28 0 @ [5, 0] @
      ptp_prepare_timestamp ts (replicate 10 0) \<and>
    dr_clean (fill_delay_req h4 ts m) \<and>
    length (delay_req_bytes (fill_delay_req h4 ts m)) = sizeof_delay_req"
  using delay_request_fill [OF assms] by (simp add: sizeof_delay_req_def)

lemma dr_clean_zero [simp]: "dr_clean zero_delay_req"
  by (simp add: dr_clean_def zero_delay_req_def zero_header_def header_of_bytes_def)
     (simp add: numeral_eq_Suc)

theorem delay_request_frame_witness:
  "delay_req_bytes (fill_delay_req [0x18, 0x12, 0, 44] \<lparr>seconds = 1, nanosec = 258\<rparr> zero_delay_req) =
    [0x11, 0x12, 0, 44] @ replicate 28 0 @ [5, 0] @ [0, 0, 0, 0, 0, 1, 0, 0, 1, 2]"
proof -
  have "ptp_prepare_timestamp \<lparr>seconds = 1, nanosec = 258\<rparr> (replicate 10 0) = [0, 0, 0, 0, 0, 1, 0, 0, 1, 2]"
    by (simp add: prepare_bytes sar_byte_eq)
  then show ?thesis
    using delay_request_frame [of zero_delay_req "[0x18, 0x12, 0, 44]" "\<lparr>seconds = 1, nanosec = 258\<rparr>"]
    by simp
qed

section \<open>Results of the interpreter\<close>

definition msg_ty :: "ptp_msg \<Rightarrow> 4 word" where
  "msg_ty m = ucast (hd (msg_bytes m))"

lemma rd_enough: "off + n \<le> length (msg_bytes m) \<Longrightarrow> rd m off n = Inr (take n (drop off (msg_bytes m)))"
  by (simp add: rd_def)

lemma hd_take_one: "bs \<noteq> [] \<Longrightarrow> hd (take (Suc 0) bs) = hd bs"
  by (cases bs) auto

text \<open>The four kinds of behaviour, as one equation each.\<close>

lemma interpreter_sync:
  assumes "msg_bytes m \<noteq> []" and "msg_ty m = msg_type_code SyncMsg_e"
    and "sSyscTimeCb c = Some rt"
  shows "ptp_sync_interpreter c m s w =
    Inr (PTP_MSG_OK, s\<lparr>pSync := Some (msg_addr m), st_t2 := fst (rt w)\<rparr>, snd (rt w))"
  using assms
  by (simp add: ptp_sync_interpreter_def rd_enough Suc_le_eq hd_take_one msg_ty_def
      ptp_sync_read_systime_def split_beta)

lemma interpreter_follow_up:
  assumes "44 \<le> length (msg_bytes m)" and "msg_ty m = msg_type_code FollowUpMsg_e"
    and "sSyscTimeCb c = Some rt" and "sSendDlyReqCb c = Some sd"
  shows "ptp_sync_interpreter c m s w =
    (let msg = fill_delay_req (take 4 (msg_bytes m)) (fst (rt w)) (delay_req_msg s)
     in bind_sum (sd (delay_req_bytes msg) (snd (rt w))) (\<lambda>w'.
          Inr (PTP_MSG_OK,
               s\<lparr>pFollowUp := Some (msg_addr m),
                 st_t1 := ptp_store_timestamp (take 10 (drop 34 (msg_bytes m))),
                 st_t3 := fst (rt w), delay_req_msg := msg\<rparr>, w')))"
proof -
  have "msg_bytes m \<noteq> []" using assms(1) by auto
  with assms show ?thesis
    by (auto simp: ptp_sync_interpreter_def rd_enough Suc_le_eq hd_take_one msg_ty_def Let_def
        ptp_sync_read_systime_def ptp_sync_send_delay_req_event_def split_beta bind_sum_def
        split: sum.splits)
qed

lemma interpreter_delay_resp:
  assumes "44 \<le> length (msg_bytes m)" and "msg_ty m = msg_type_code DelayResponse_e"
    and "sSyscTimeCb c = Some rt" and "sReportDiffCb c = Some rp"
  shows "ptp_sync_interpreter c m s w =
    (let t4 = ptp_store_timestamp (take 10 (drop 34 (msg_bytes m)));
         synced = resp_synced_time (st_t1 s) (st_t2 s) (st_t3 s) t4
     in bind_sum (rp 0 synced (ptp_time_sub synced (fst (rt w))) (snd (rt w))) (\<lambda>w'.
          Inr (PTP_MSG_OK,
               s\<lparr>pDelayResp := Some (msg_addr m), st_sys_ts := fst (rt w), st_t4 := t4\<rparr>, w')))"
proof -
  have "msg_bytes m \<noteq> []" using assms(1) by auto
  with assms show ?thesis
    by (simp add: ptp_sync_interpreter_def rd_enough Suc_le_eq hd_take_one msg_ty_def Let_def
        ptp_sync_read_systime_def ptp_sycn_report_diff_def split_beta)
qed

definition timed_types :: "4 word list" where
  "timed_types = map msg_type_code [SyncMsg_e, FollowUpMsg_e, DelayResponse_e]"

definition stored_types :: "4 word list" where
  "stored_types = map msg_type_code [PDelayResponse_e, PDelayResponseFollowUp_e, Announce_e]"

lemma interpreter_stored:
  assumes "msg_bytes m \<noteq> []" and "msg_ty m \<in> set stored_types"
  shows "\<exists>s'. ptp_sync_interpreter c m s w = Inr (PTP_MSG_OK, s', w) \<and>
    delay_req_msg s' = delay_req_msg s \<and> st_t1 s' = st_t1 s \<and> st_t2 s' = st_t2 s \<and> st_t3 s' = st_t3 s"
  using assms
  by (auto simp: ptp_sync_interpreter_def rd_enough Suc_le_eq hd_take_one msg_ty_def Let_def stored_types_def)

lemma interpreter_rejects:
  assumes "msg_bytes m \<noteq> []" and "msg_ty m \<notin> set timed_types" and "msg_ty m \<notin> set stored_types"
  shows "ptp_sync_interpreter c m s w = Inr (PTP_MSG_ERR, s, w)"
  using assms
  by (simp add: ptp_sync_interpreter_def rd_enough Suc_le_eq hd_take_one msg_ty_def Let_def
      stored_types_def timed_types_def)

lemmas interpreter_eqs = interpreter_sync interpreter_follow_up interpreter_delay_resp interpreter_rejects

text \<open>Call-backs that are registered and never fault.\<close>

definition cbs_live :: "'w ptp_sync_cbs \<Rightarrow> bool" where
  "cbs_live c \<longleftrightarrow> sSyscTimeCb c \<noteq> None \<and>
     (case sReportDiffCb c of None \<Rightarrow> False | Some rp \<Rightarrow> \<forall>off a b w. \<exists>w'. rp off a b w = Inr w') \<and>
     (case sSendDlyReqCb c of None \<Rightarrow> False | Some sd \<Rightarrow> \<forall>bs w. \<exists>w'. sd bs w = Inr w')"

text \<open>
  C24: with all call-backs registered and none faulting, the interpreter returns on every message of at
  least 44 bytes; it answers \<open>PTP_MSG_OK\<close> exactly for the six message types it handles, and a message
  it rejects changes neither its own state nor the world.
\<close>
theorem interpreter_returns:
  assumes "cbs_live c" and "44 \<le> length (msg_bytes m)"
  shows "\<exists>r s' w'. ptp_sync_interpreter c m s w = Inr (r, s', w') \<and>
    (r = PTP_MSG_OK \<longleftrightarrow> msg_ty m \<in> set timed_types \<union> set stored_types) \<and>
    (r \<noteq> PTP_MSG_OK \<longrightarrow> r = PTP_MSG_ERR \<and> s' = s \<and> w' = w)"
proof -
  obtain rt rp sd where c: "sSyscTimeCb c = Some rt" "sReportDiffCb c = Some rp" "sSendDlyReqCb c = Some sd"
    and rp: "\<And>off a b w. \<exists>w'. rp off a b w = Inr w'" and sd: "\<And>bs w. \<exists>w'. sd bs w = Inr w'"
    using assms(1) by (auto simp: cbs_live_def split: option.splits)
  have ne: "msg_bytes m \<noteq> []" using assms(2) by auto
  have codes: "PTP_MSG_ERR \<noteq> PTP_MSG_OK" by (simp add: PTP_MSG_OK_def PTP_MSG_ERR_def)
  consider "msg_ty m = msg_type_code SyncMsg_e" | "msg_ty m = msg_type_code FollowUpMsg_e"
    | "msg_ty m = msg_type_code DelayResponse_e" | "msg_ty m \<in> set stored_types"
    | "msg_ty m \<notin> set timed_types" "msg_ty m \<notin> set stored_types"
    by (auto simp: timed_types_def)
  then show ?thesis
  proof cases
    case 1
    then show ?thesis by (simp add: interpreter_sync [OF ne _ c(1)] timed_types_def)
  next
    case 2
    then show ?thesis
      using sd by (simp add: interpreter_follow_up [OF assms(2) _ c(1,3)] timed_types_def Let_def)
        (metis bind_sum_simps(2))
  next
    case 3
    then show ?thesis
      using rp by (simp add: interpreter_delay_resp [OF assms(2) _ c(1,2)] timed_types_def Let_def)
        (metis bind_sum_simps(2))
  next
    case 4
    then show ?thesis using interpreter_stored [OF ne, of c s w] by auto
  next
    case 5
    then show ?thesis using codes by (simp add: interpreter_rejects [OF ne])
  qed
qed

definition trace_cbs :: "(i32 \<times> ptp_timestamp_t \<times> ptp_timestamp_t) list ptp_sync_cbs" where
  "trace_cbs = \<lparr>sSyscTimeCb = Some (\<lambda>w. (\<lparr>seconds = 10, nanosec = 60000\<rparr>, w)),
     sReportDiffCb = Some (\<lambda>off a b w. Inr ((off, a, b) # w)),
     sSendDlyReqCb = Some (\<lambda>bs w. Inr w)\<rparr>"

lemma trace_cbs_live: "cbs_live trace_cbs"
  by (simp add: cbs_live_def trace_cbs_def)

theorem interpreter_returns_witness:
  "\<exists>s' w'. ptp_sync_interpreter trace_cbs \<lparr>msg_addr = 16, msg_bytes = 0x1C # replicate 43 0\<rparr> ptp_sync_boot []
    = Inr (PTP_MSG_ERR, s', w')"
  using interpreter_returns [OF trace_cbs_live,
      of "\<lparr>msg_addr = 16, msg_bytes = 0x1C # replicate 43 0\<rparr>" ptp_sync_boot "[]"]
  by (auto simp: msg_ty_def timed_types_def stored_types_def)

section \<open>What the interpreter does not check\<close>

text \<open>
  The interpreter has no length check: a follow-up or a delay response whose 44 bytes were not all
  received makes it read behind the received bytes, whatever the state and the call-backs do.
\<close>

lemma interpreter_short_message_overread:
  assumes "msg_bytes m \<noteq> []" and "length (msg_bytes m) < 44"
    and "msg_ty m = msg_type_code FollowUpMsg_e \<or>
         msg_ty m = msg_type_code DelayResponse_e \<and> sSyscTimeCb c \<noteq> None"
  shows "ptp_sync_interpreter c m s w = Inl Buffer_overread"
  using assms
  by (auto simp: ptp_sync_interpreter_def rd_def hd_take_one msg_ty_def Let_def Suc_le_eq
      ptp_sync_read_systime_def)

lemma interpreter_short_message_overread_example:
  "ptp_sync_interpreter trace_cbs \<lparr>msg_addr = 16, msg_bytes = [0x18, 0x12, 0, 44]\<rparr> ptp_sync_boot []
    = Inl Buffer_overread"
  by (rule interpreter_short_message_overread) (simp_all add: msg_ty_def)

text \<open>
  A delay response is taken for an answer to this node's request without looking at the requesting
  port identity, the sequence number, the domain or the length field: two responses that agree on the
  type and the ten bytes of the receive time stamp are handled alike in every state.
\<close>

lemma delay_response_identity_ignored:
  assumes "44 \<le> length (msg_bytes m)" and "44 \<le> length (msg_bytes m')"
    and "msg_ty m = msg_type_code DelayResponse_e" and "msg_ty m' = msg_type_code DelayResponse_e"
    and "take 10 (drop 34 (msg_bytes m)) = take 10 (drop 34 (msg_bytes m'))"
    and "msg_addr m = msg_addr m'"
  shows "ptp_sync_interpreter c m s w = ptp_sync_interpreter c m' s w"
proof -
  have "msg_bytes m \<noteq> []" "msg_bytes m' \<noteq> []" using assms(1,2) by auto
  with assms show ?thesis
    by (simp add: ptp_sync_interpreter_def rd_enough Suc_le_eq hd_take_one msg_ty_def Let_def
        del: take_drop drop_drop)
qed

lemma delay_response_identity_ignored_example:
  "ptp_sync_interpreter trace_cbs
      \<lparr>msg_addr = 16, msg_bytes = [0x19, 0x12, 0, 54] @ replicate 40 0 @ replicate 10 0xAA\<rparr> ptp_sync_boot []
    = ptp_sync_interpreter trace_cbs
      \<lparr>msg_addr = 16, msg_bytes = [0x19, 0x12, 0, 54] @ replicate 40 0 @ replicate 10 0xBB\<rparr> ptp_sync_boot []"
  by (rule delay_response_identity_ignored) (simp_all add: msg_ty_def)

section \<open>A whole exchange\<close>

fun ptp_sync_run ::
  "'w ptp_sync_cbs \<Rightarrow> ptp_msg list \<Rightarrow> ptp_sync_state \<Rightarrow> 'w \<Rightarrow> fault + (ptp_sync_state \<times> 'w)" where
  "ptp_sync_run c [] s w = Inr (s, w)"
| "ptp_sync_run c (m # ms) s w =
     bind_sum (ptp_sync_interpreter c m s w) (\<lambda>(r, s', w'). ptp_sync_run c ms s' w')"

text \<open>
  A complete exchange (sync, follow-up, delay response) with the call-backs registered reports
  exactly once, with the time stamp of the delay response as the synchronised time (to a nanosecond)
  and its difference to the clock reading of the last message: the report does not depend on the time
  stamps of the sync and follow-up messages, nor on the two earlier clock readings.
\<close>

lemma exchange_reports_response_time:
  assumes cbs: "sSyscTimeCb c = Some rt" "sReportDiffCb c = Some rp" "sSendDlyReqCb c = Some sd"
    and m1: "msg_bytes m1 \<noteq> []" "msg_ty m1 = msg_type_code SyncMsg_e"
    and m2: "44 \<le> length (msg_bytes m2)" "msg_ty m2 = msg_type_code FollowUpMsg_e"
    and m3: "44 \<le> length (msg_bytes m3)" "msg_ty m3 = msg_type_code DelayResponse_e"
    and clock: "rt w0 = (t2, w1)" "rt w1 = (t3, w2)" "rt w3 = (sys, w4)"
    and send: "\<And>bs. sd bs w2 = Inr w3"
    and t1: "t1 = ptp_store_timestamp (take 10 (drop 34 (msg_bytes m2)))"
    and t4: "t4 = ptp_store_timestamp (take 10 (drop 34 (msg_bytes m3)))"
    and wf: "wf_ts t1" "wf_ts t2" "wf_ts t3" "wf_ts t4"
  shows "\<exists>synced s'. ptp_sync_run c [m1, m2, m3] s w0 =
      bind_sum (rp 0 synced (ptp_time_sub synced sys) w4) (\<lambda>w5. Inr (s', w5)) \<and>
    seconds synced = seconds t4 \<and> \<bar>sint (nanosec synced) - sint (nanosec t4)\<bar> \<le> 1"
proof -
  let ?synced = "resp_synced_time t1 t2 t3 t4"
  let ?s2 = "\<lambda>msg. s\<lparr>pSync := Some (msg_addr m1), st_t2 := t2, pFollowUp := Some (msg_addr m2),
      st_t1 := t1, st_t3 := t3, delay_req_msg := msg\<rparr>"
  have "\<exists>s'. ptp_sync_run c [m1, m2, m3] s w0 =
      bind_sum (rp 0 ?synced (ptp_time_sub ?synced sys) w4) (\<lambda>w5. Inr (s', w5))"
    by (cases "rp 0 ?synced (ptp_time_sub ?synced sys) w4")
       (simp_all add: interpreter_sync [OF m1 cbs(1)] interpreter_follow_up [OF m2 cbs(1,3)]
         interpreter_delay_resp [OF m3 cbs(1,2)] clock send Let_def flip: t1 t4 del: take_drop drop_drop)
  moreover have "seconds ?synced = seconds t4 \<and> \<bar>sint (nanosec ?synced) - sint (nanosec t4)\<bar> \<le> 1"
    using resp_synced_seconds [OF wf] by blast
  ultimately show ?thesis by blast
qed

lemma exchange_reports_response_time_example:
  "\<exists>synced s' rest.
     ptp_sync_run trace_cbs
       [\<lparr>msg_addr = 1, msg_bytes = 0x10 # replicate 43 0\<rparr>,
        \<lparr>msg_addr = 2, msg_bytes = 0x18 # replicate 43 0\<rparr>,
        \<lparr>msg_addr = 3, msg_bytes = 0x19 # replicate 38 0 @ [9, 0, 0, 0, 5]\<rparr>] ptp_sync_boot [] =
     Inr (s', [(0, synced, rest)]) \<and> seconds synced = 9"
proof -
  let ?now = "\<lparr>seconds = 10, nanosec = 60000\<rparr>"
  have "\<exists>synced s'. ptp_sync_run trace_cbs
       [\<lparr>msg_addr = 1, msg_bytes = 0x10 # replicate 43 0\<rparr>,
        \<lparr>msg_addr = 2, msg_bytes = 0x18 # replicate 43 0\<rparr>,
        \<lparr>msg_addr = 3, msg_bytes = 0x19 # replicate 38 0 @ [9, 0, 0, 0, 5]\<rparr>] ptp_sync_boot [] =
      bind_sum (Inr ((0, synced, ptp_time_sub synced ?now) # [])) (\<lambda>w5. Inr (s', w5)) \<and>
    seconds synced = seconds \<lparr>seconds = 9, nanosec = 5\<rparr> \<and>
    \<bar>sint (nanosec synced) - sint (nanosec \<lparr>seconds = 9, nanosec = 5\<rparr>)\<bar> \<le> 1"
    by (rule exchange_reports_response_time [where rt = "\<lambda>w. (?now, w)" and sd = "\<lambda>bs w. Inr w"
          and ?t1.0 = "\<lparr>seconds = 0, nanosec = 0\<rparr>" and ?t2.0 = ?now and ?t3.0 = ?now
          and ?w1.0 = "[]" and ?w2.0 = "[]" and ?w3.0 = "[]"])
       (simp_all add: trace_cbs_def msg_ty_def wf_ts_def ptp_store_timestamp_def upt_loops nth_append)
  then show ?thesis by auto
qed

section \<open>The contract of the call-backs\<close>

text \<open>
  What a user of the interpreter registers: a clock read, a report and a send, an invariant of the
  world that all three keep, and the faults the send may end in. Then a run over complete messages
  ends in one of those faults or keeps the invariant together with the interpreter's own; a user
  whose send never faults gets runs that always return.
\<close>

locale sync_callbacks =
  fixes read_time :: "'w \<Rightarrow> ptp_timestamp_t \<times> 'w"
    and report :: "i32 \<Rightarrow> ptp_timestamp_t \<Rightarrow> ptp_timestamp_t \<Rightarrow> 'w \<Rightarrow> fault + 'w"
    and send :: "u8 list \<Rightarrow> 'w \<Rightarrow> fault + 'w"
    and inv :: "'w \<Rightarrow> bool"
    and send_fault :: "fault \<Rightarrow> bool"
  assumes read_inv: "inv w \<Longrightarrow> inv (snd (read_time w))"
    and report_inv: "inv w \<Longrightarrow> \<exists>w'. report off a b w = Inr w' \<and> inv w'"
    and send_inv: "inv w \<Longrightarrow> length bs = 44 \<Longrightarrow>
      (\<exists>f. send bs w = Inl f \<and> send_fault f) \<or> (\<exists>w'. send bs w = Inr w' \<and> inv w')"
begin

lemma interpreter_step:
  assumes c: "sSyscTimeCb c = Some read_time" "sReportDiffCb c = Some report" "sSendDlyReqCb c = Some send"
    and w: "inv w" and clean: "dr_clean (delay_req_msg s)" and len: "44 \<le> length (msg_bytes m)"
  shows "(\<exists>f. ptp_sync_interpreter c m s w = Inl f \<and> send_fault f) \<or>
    (\<exists>r s' w'. ptp_sync_interpreter c m s w = Inr (r, s', w') \<and> inv w' \<and> dr_clean (delay_req_msg s'))"
proof -
  have ne: "msg_bytes m \<noteq> []" using len by auto
  have r: "inv (snd (read_time w))" using w by (rule read_inv)
  consider "msg_ty m = msg_type_code SyncMsg_e" | "msg_ty m = msg_type_code FollowUpMsg_e"
    | "msg_ty m = msg_type_code DelayResponse_e" | "msg_ty m \<in> set stored_types"
    | "msg_ty m \<notin> set timed_types" "msg_ty m \<notin> set stored_types"
    by (auto simp: timed_types_def)
  then show ?thesis
  proof cases
    case 1
    then show ?thesis using r clean by (simp add: interpreter_sync [OF ne _ c(1)])
  next
    case 2
    let ?msg = "fill_delay_req (take 4 (msg_bytes m)) (fst (read_time w)) (delay_req_msg s)"
    have f: "dr_clean ?msg" "length (delay_req_bytes ?msg) = 44"
      using delay_request_fill [OF clean, of "take 4 (msg_bytes m)"] len by simp_all
    show ?thesis using send_inv [OF r f(2)] f(1)
      by (auto simp: interpreter_follow_up [OF len 2 c(1,3)] Let_def)
  next
    case 3
    let ?t4 = "ptp_store_timestamp (take 10 (drop 34 (msg_bytes m)))"
    let ?synced = "resp_synced_time (st_t1 s) (st_t2 s) (st_t3 s) ?t4"
    obtain w' where "report 0 ?synced (ptp_time_sub ?synced (fst (read_time w))) (snd (read_time w)) = Inr w'"
        "inv w'"
      using report_inv [OF r] by blast
    then show ?thesis using clean
      by (simp add: interpreter_delay_resp [OF len 3 c(1,2)] Let_def del: take_drop drop_drop)
  next
    case 4
    then show ?thesis using interpreter_stored [OF ne, of c s w] w clean by auto
  next
    case 5
    then show ?thesis using w clean by (simp add: interpreter_rejects [OF ne])
  qed
qed

lemma run_safe:
  assumes c: "sSyscTimeCb c = Some read_time" "sReportDiffCb c = Some report" "sSendDlyReqCb c = Some send"
    and "inv w" and "dr_clean (delay_req_msg s)" and "\<forall>m \<in> set ms. 44 \<le> length (msg_bytes m)"
  shows "(\<exists>f. ptp_sync_run c ms s w = Inl f \<and> send_fault f) \<or>
    (\<exists>s' w'. ptp_sync_run c ms s w = Inr (s', w') \<and> inv w' \<and> dr_clean (delay_req_msg s'))"
  using assms(4-6)
proof (induction ms arbitrary: s w)
  case Nil
  then show ?case by simp
next
  case (Cons m ms)
  then consider (fault) f where "ptp_sync_interpreter c m s w = Inl f" "send_fault f"
    | (ok) r s' w' where "ptp_sync_interpreter c m s w = Inr (r, s', w')" "inv w'"
        "dr_clean (delay_req_msg s')"
    using interpreter_step [OF c, of w s m] by auto
  then show ?case
  proof cases
    case fault
    then show ?thesis by simp
  next
    case ok
    with Cons show ?thesis by simp
  qed
qed

end

end
