(* ===== verification/TsuTime.thy ===== *)
theory TsuTime
  imports CInt Complex_Main
begin

text \<open>
  The time stamp unit driver, \<open>IEEE1588/ttc_tsu/tsu_time.c\<close> and \<open>tsu_time.h\<close>: reading and setting
  the hardware clock, the fine tuning register with its dead band, the tick callback that writes
  it out, and the start-up programming of the clock increment.

  The registers are reached through the board support package's \<open>Xil_In32\<close> and \<open>Xil_Out32\<close>, which
  are not part of the repository: they are the fields of the parameter \<open>bsp\<close> over an abstract
  hardware state \<open>'h\<close>. What the driver relies on is the predicate \<open>tsu_hw\<close>: the seconds and
  nanoseconds registers show one clock that never runs backwards between two reads.
\<close>

section \<open>Constants and data\<close>

definition ADJUST_ADD :: u32 where "ADJUST_ADD = 0"
definition ADJUST_SUBTRACT :: u32 where "ADJUST_SUBTRACT = 1"

definition TSU_TIMER_INCR_GEM0 :: u64 where "TSU_TIMER_INCR_GEM0 = 0xff0b01dc"
definition TSU_TIMER_INCR_SUB_NS_GEM0 :: u64 where "TSU_TIMER_INCR_SUB_NS_GEM0 = 0xff0b01bc"
definition TSU_TIMER_SEC_GEM0 :: u64 where "TSU_TIMER_SEC_GEM0 = 0xff0b01d0"
definition TSU_TIMER_NS_GEM0 :: u64 where "TSU_TIMER_NS_GEM0 = 0xff0b01d4"
definition TSU_TIMER_ADJUST :: u64 where "TSU_TIMER_ADJUST = 0xff0b01d8"
definition GEM_TSU_REF_CTRL :: u64 where "GEM_TSU_REF_CTRL = 0xff5e0100"

lemmas tsu_reg_defs = TSU_TIMER_INCR_GEM0_def TSU_TIMER_INCR_SUB_NS_GEM0_def
  TSU_TIMER_SEC_GEM0_def TSU_TIMER_NS_GEM0_def TSU_TIMER_ADJUST_def GEM_TSU_REF_CTRL_def

record tsu_timestamp_t =
  tsu_seconds :: u64
  tsu_nanosec :: u32

text \<open>
  The union \<open>tsu_adjustment\<close> is its \<open>word\<close> view; the bit fields \<open>nanosec : 30\<close>, \<open>reserved : 1\<close> and
  \<open>direction : 1\<close> are allocated from the least significant bit, as the target's ABI does. A store
  to a field keeps the low bits of the value that fit.
\<close>

type_synonym tsu_adjustment = u32

definition adj_nanosec :: "tsu_adjustment \<Rightarrow> u32" where
  "adj_nanosec w = w AND 0x3FFFFFFF"

definition adj_reserved :: "tsu_adjustment \<Rightarrow> u32" where
  "adj_reserved w = drop_bit 30 w AND 1"

definition adj_direction :: "tsu_adjustment \<Rightarrow> u32" where
  "adj_direction w = drop_bit 31 w AND 1"

definition set_adj_nanosec :: "u32 \<Rightarrow> tsu_adjustment \<Rightarrow> tsu_adjustment" where
  "set_adj_nanosec n w = (w AND NOT 0x3FFFFFFF) OR (n AND 0x3FFFFFFF)"

definition set_adj_direction :: "u32 \<Rightarrow> tsu_adjustment \<Rightarrow> tsu_adjustment" where
  "set_adj_direction d w = (w AND NOT 0x80000000) OR push_bit 31 (d AND 1)"

text \<open>The accesses to memory-mapped registers that the board support package provides.\<close>

record 'h bsp =
  xil_in32 :: "u64 \<Rightarrow> 'h \<Rightarrow> u32 \<times> 'h"
  xil_out32 :: "u64 \<Rightarrow> u32 \<Rightarrow> 'h \<Rightarrow> 'h"

text \<open>The statics of the file, with the hardware behind them.\<close>

record 'h tsu =
  hw :: 'h
  fine_tune_register :: tsu_adjustment
  sUptime_mS :: u32
  tsu_sec :: u32
  tsu_ns :: u32
  is_read :: u8

definition tsu_boot :: "'h \<Rightarrow> 'h tsu" where
  "tsu_boot h = \<lparr>hw = h, fine_tune_register = 0, sUptime_mS = 0, tsu_sec = 0, tsu_ns = 0,
     is_read = 0\<rparr>"

definition read_reg :: "'h bsp \<Rightarrow> u64 \<Rightarrow> ('h, 'z) tsu_scheme \<Rightarrow> u32 \<times> ('h, 'z) tsu_scheme" where
  "read_reg b a w = (let (v, h) = xil_in32 b a (hw w) in (v, w\<lparr>hw := h\<rparr>))"

definition write_reg :: "'h bsp \<Rightarrow> u64 \<Rightarrow> u32 \<Rightarrow> ('h, 'z) tsu_scheme \<Rightarrow> ('h, 'z) tsu_scheme" where
  "write_reg b a v w = w\<lparr>hw := xil_out32 b a v (hw w)\<rparr>"

section \<open>Operations\<close>

definition tsu_clock_fine_tune ::
  "i32 \<Rightarrow> i32 \<Rightarrow> i32 \<Rightarrow> ('h, 'z) tsu_scheme \<Rightarrow> ('h, 'z) tsu_scheme" where
  "tsu_clock_fine_tune error_ns sync_diff_integrated_ns boundary w =
     (let freq_adj = error_ns + c_div sync_diff_integrated_ns 20;
          error_ns_abs = c_abs freq_adj
      in if sint error_ns_abs < sint boundary \<and> sint error_ns > sint (- boundary) then w
         else w\<lparr>fine_tune_register :=
                  set_adj_nanosec error_ns_abs
                    (set_adj_direction (if sint freq_adj > 0 then ADJUST_ADD else ADJUST_SUBTRACT)
                      (fine_tune_register w))\<rparr>)"

definition tsu_get_uptime_ms :: "('h, 'z) tsu_scheme \<Rightarrow> u32" where
  "tsu_get_uptime_ms w = sUptime_mS w"

definition tsu_get_tick_cnt :: "('h, 'z) tsu_scheme \<Rightarrow> u64" where
  "tsu_get_tick_cnt w = ucast (sUptime_mS w)"

definition tsu_driver_adjust_time ::
  "'h bsp \<Rightarrow> tsu_adjustment \<Rightarrow> ('h, 'z) tsu_scheme \<Rightarrow> ('h, 'z) tsu_scheme" where
  "tsu_driver_adjust_time b adjust w = write_reg b TSU_TIMER_ADJUST adjust w"

definition tsu_systick_cb :: "'h bsp \<Rightarrow> ('h, 'z) tsu_scheme \<Rightarrow> ('h, 'z) tsu_scheme" where
  "tsu_systick_cb b w =
     (let w1 = w\<lparr>sUptime_mS := sUptime_mS w + 1\<rparr>
      in tsu_driver_adjust_time b (fine_tune_register w1) w1)"

definition print_tsu_local_time :: "'h bsp \<Rightarrow> ('h, 'z) tsu_scheme \<Rightarrow> ('h, 'z) tsu_scheme" where
  "print_tsu_local_time b w =
     (let (s, w1) = read_reg b TSU_TIMER_SEC_GEM0 w;
          w2 = w1\<lparr>tsu_sec := s\<rparr>;
          (n, w3) = read_reg b TSU_TIMER_NS_GEM0 w2
      in w3\<lparr>tsu_ns := n, is_read := 1\<rparr>)"

definition read_tsu_local_time :: "('h, 'z) tsu_scheme \<Rightarrow> ('h, 'z) tsu_scheme" where
  "read_tsu_local_time w = w\<lparr>is_read := 0\<rparr>"

definition is_readable :: "('h, 'z) tsu_scheme \<Rightarrow> u8" where
  "is_readable w = is_read w"

text \<open>
  \<open>ns_per_cycle\<close> is the double \<open>1e9 / TSU_CLK_FREQ\<close>; the frequency comes from the generated
  \<open>xparameters.h\<close>, so the value of the quotient is the parameter \<open>q\<close>. From there on the code's
  floating-point operations are exact (removing the integer part, multiplying by a power of two),
  and the model computes them on rationals.
\<close>

definition tsu_ns_int :: "rat \<Rightarrow> u32" where
  "tsu_ns_int q = word_of_int \<lfloor>q\<rfloor>"

definition tsu_sub_ns :: "rat \<Rightarrow> u32" where
  "tsu_sub_ns q = word_of_int \<lfloor>(q - of_int (uint (tsu_ns_int q))) * 2 ^ 24\<rfloor>"

definition init_tsu :: "'h bsp \<Rightarrow> rat \<Rightarrow> ('h, 'z) tsu_scheme \<Rightarrow> ('h, 'z) tsu_scheme" where
  "init_tsu b q w =
     (let w1 = write_reg b GEM_TSU_REF_CTRL 0x00010601 w;
          w2 = write_reg b GEM_TSU_REF_CTRL (0x00010601 OR 0x01000000) w1;
          w3 = write_reg b TSU_TIMER_INCR_GEM0 (tsu_ns_int q) w2;
          w4 = write_reg b TSU_TIMER_INCR_SUB_NS_GEM0 (tsu_sub_ns q) w3;
          w5 = write_reg b TSU_TIMER_NS_GEM0 0 w4;
          w6 = write_reg b TSU_TIMER_SEC_GEM0 0 w5;
          (_, w7) = read_reg b TSU_TIMER_NS_GEM0 w6;
          (_, w8) = read_reg b TSU_TIMER_SEC_GEM0 w7
      in w8)"

definition tsu_get_time ::
  "'h bsp \<Rightarrow> ('h, 'z) tsu_scheme \<Rightarrow> tsu_timestamp_t \<times> ('h, 'z) tsu_scheme" where
  "tsu_get_time b w =
     (let (v1, w1) = read_reg b TSU_TIMER_SEC_GEM0 w;
          first_sec = (ucast v1 :: u64);
          (v2, w2) = read_reg b TSU_TIMER_NS_GEM0 w1;
          (v3, w3) = read_reg b TSU_TIMER_SEC_GEM0 w2;
          second_sec = (ucast v3 :: u64);
          nsec = (if first_sec \<noteq> second_sec then 0 else v2)
      in (\<lparr>tsu_seconds = second_sec, tsu_nanosec = nsec\<rparr>, w3))"

definition tsu_set_time ::
  "'h bsp \<Rightarrow> tsu_timestamp_t \<Rightarrow> ('h, 'z) tsu_scheme \<Rightarrow> ('h, 'z) tsu_scheme" where
  "tsu_set_time b ts w =
     (let w1 = write_reg b TSU_TIMER_NS_GEM0 (tsu_nanosec ts) w
      in write_reg b TSU_TIMER_SEC_GEM0 (ucast (tsu_seconds ts)) w1)"

section \<open>The hardware the driver relies on\<close>

text \<open>
  \<open>now h\<close> is the clock of hardware state \<open>h\<close> in nanoseconds. A read may let time pass; it shows the
  seconds or the nanoseconds of the clock at the moment it completes. A write to one of the two
  counters replaces that part of the clock, and a write to the adjust register moves the clock by
  the signed amount the register encodes.
\<close>

definition tsu_hw :: "'h bsp \<Rightarrow> ('h \<Rightarrow> nat) \<Rightarrow> bool" where
  "tsu_hw b now \<longleftrightarrow>
     (\<forall>h. now h \<le> now (snd (xil_in32 b TSU_TIMER_SEC_GEM0 h)) \<and>
          unat (fst (xil_in32 b TSU_TIMER_SEC_GEM0 h)) =
            now (snd (xil_in32 b TSU_TIMER_SEC_GEM0 h)) div 10 ^ 9 mod 2 ^ 32) \<and>
     (\<forall>h. now h \<le> now (snd (xil_in32 b TSU_TIMER_NS_GEM0 h)) \<and>
          unat (fst (xil_in32 b TSU_TIMER_NS_GEM0 h)) =
            now (snd (xil_in32 b TSU_TIMER_NS_GEM0 h)) mod 10 ^ 9)"

definition adj_value :: "tsu_adjustment \<Rightarrow> int" where
  "adj_value w = (if adj_direction w = ADJUST_ADD then uint (adj_nanosec w)
                  else - uint (adj_nanosec w))"

definition tsu_hw_write :: "'h bsp \<Rightarrow> ('h \<Rightarrow> nat) \<Rightarrow> bool" where
  "tsu_hw_write b now \<longleftrightarrow>
     (\<forall>h v. now (xil_out32 b TSU_TIMER_SEC_GEM0 v h) = unat v * 10 ^ 9 + now h mod 10 ^ 9) \<and>
     (\<forall>h v. unat v < 10 ^ 9 \<longrightarrow>
        now (xil_out32 b TSU_TIMER_NS_GEM0 v h) = now h div 10 ^ 9 * 10 ^ 9 + unat v) \<and>
     (\<forall>h v. now (xil_out32 b TSU_TIMER_ADJUST v h) = nat (int (now h) + adj_value v))"

text \<open>A hardware that satisfies both, used to evaluate the driver: each read takes \<open>d\<close> nanoseconds.\<close>

definition tick_bsp :: "nat \<Rightarrow> nat bsp" where
  "tick_bsp d = \<lparr>xil_in32 = (\<lambda>a h.
       if a = TSU_TIMER_SEC_GEM0 then (word_of_nat ((h + d) div 10 ^ 9), h + d)
       else if a = TSU_TIMER_NS_GEM0 then (word_of_nat ((h + d) mod 10 ^ 9), h + d)
       else (0, h)),
     xil_out32 = (\<lambda>a v h.
       if a = TSU_TIMER_SEC_GEM0 then unat v * 10 ^ 9 + h mod 10 ^ 9
       else if a = TSU_TIMER_NS_GEM0 then h div 10 ^ 9 * 10 ^ 9 + unat v
       else if a = TSU_TIMER_ADJUST then nat (int h + adj_value v)
       else h)\<rparr>"

lemma tick_bsp_hw: "tsu_hw (tick_bsp d) id"
proof -
  have "x mod 10 ^ 9 < (2::nat) ^ 32" for x :: nat
    using mod_less_divisor [of "10 ^ 9" x] by (simp del: mod_less_divisor)
  then show ?thesis
    by (auto simp: tsu_hw_def tick_bsp_def unat_of_nat tsu_reg_defs)
qed

lemma tick_bsp_hw_write: "tsu_hw_write (tick_bsp d) id"
  by (simp add: tsu_hw_write_def tick_bsp_def tsu_reg_defs)

section \<open>Reading the clock\<close>

definition tsu_total :: "tsu_timestamp_t \<Rightarrow> nat" where
  "tsu_total ts = unat (tsu_seconds ts) * 10 ^ 9 + unat (tsu_nanosec ts)"

lemma unat_ucast_32_64 [simp]: "unat (ucast (v :: u32) :: u64) = unat v"
  by (simp add: unsigned_ucast_eq take_bit_nat_eq_self_iff unsigned_less [THEN order.strict_trans2])

lemma tsu_get_time_unfold:
  assumes r1: "xil_in32 b TSU_TIMER_SEC_GEM0 (hw w) = (v1, h1)"
    and r2: "xil_in32 b TSU_TIMER_NS_GEM0 h1 = (v2, h2)"
    and r3: "xil_in32 b TSU_TIMER_SEC_GEM0 h2 = (v3, h3)"
  shows "tsu_get_time b w =
    (\<lparr>tsu_seconds = ucast v3, tsu_nanosec = (if v1 = v3 then v2 else 0)\<rparr>, w\<lparr>hw := h3\<rparr>)"
proof -
  have "((ucast v1 :: u64) = ucast v3) = (v1 = v3)"
    by (metis unat_ucast_32_64 unsigned_word_eqI)
  with assms show ?thesis by (simp add: tsu_get_time_def read_reg_def)
qed

text \<open>
  C37: reading the clock is safe against a roll-over of the seconds counter between the three register
  reads: the timestamp returned is normalised and lies between the clock when the read began and the
  clock when it ended.
\<close>
theorem tsu_get_time_bracketed:
  assumes "tsu_hw b now"
    and "tsu_get_time b w = (ts, w')"
    and "now (hw w') < 2 ^ 32 * 10 ^ 9"
  shows "now (hw w) \<le> tsu_total ts \<and> tsu_total ts \<le> now (hw w') \<and> unat (tsu_nanosec ts) < 10 ^ 9"
proof -
  obtain v1 h1 where r1: "xil_in32 b TSU_TIMER_SEC_GEM0 (hw w) = (v1, h1)" by fastforce
  obtain v2 h2 where r2: "xil_in32 b TSU_TIMER_NS_GEM0 h1 = (v2, h2)" by fastforce
  obtain v3 h3 where r3: "xil_in32 b TSU_TIMER_SEC_GEM0 h2 = (v3, h3)" by fastforce
  have ts: "ts = \<lparr>tsu_seconds = ucast v3, tsu_nanosec = (if v1 = v3 then v2 else 0)\<rparr>"
    and w': "hw w' = h3"
    using assms(2) by (auto simp: tsu_get_time_unfold [OF r1 r2 r3])
  have c1: "now (hw w) \<le> now h1" and s1: "unat v1 = now h1 div 10 ^ 9 mod 2 ^ 32"
    using assms(1) r1 unfolding tsu_hw_def by (metis fst_conv snd_conv)+
  have c2: "now h1 \<le> now h2" and s2: "unat v2 = now h2 mod 10 ^ 9"
    using assms(1) r2 unfolding tsu_hw_def by (metis fst_conv snd_conv)+
  have c3: "now h2 \<le> now h3" and s3: "unat v3 = now h3 div 10 ^ 9 mod 2 ^ 32"
    using assms(1) r3 unfolding tsu_hw_def by (metis fst_conv snd_conv)+
  have top: "now h3 < 2 ^ 32 * 10 ^ 9" using assms(3) w' by simp
  have d1: "unat v1 = now h1 div 10 ^ 9" and d3: "unat v3 = now h3 div 10 ^ 9"
    using s1 s3 top c2 c3 by (simp_all add: less_mult_imp_div_less)
  have le: "now h1 div 10 ^ 9 \<le> now h2 div 10 ^ 9" "now h2 div 10 ^ 9 \<le> now h3 div 10 ^ 9"
    using c2 c3 by (simp_all add: div_le_mono)
  show ?thesis
  proof (cases "v1 = v3")
    case True
    then have "now h2 div 10 ^ 9 = unat v3" using d1 d3 le by simp
    then have "tsu_total ts = now h2"
      using True ts s2 div_mult_mod_eq [of "now h2" "10 ^ 9"] by (simp add: tsu_total_def)
    then show ?thesis using True c1 c2 c3 w' ts s2 by simp
  next
    case False
    then have "now h1 div 10 ^ 9 < now h3 div 10 ^ 9"
      using d1 d3 le by (metis le_neq_implies_less order.trans unsigned_word_eqI)
    then have "now h1 < now h3 div 10 ^ 9 * 10 ^ 9" by (simp add: div_less_iff_less_mult)
    moreover have "now h3 div 10 ^ 9 * 10 ^ 9 \<le> now h3" by simp
    ultimately show ?thesis using False ts d3 c1 w' by (simp add: tsu_total_def)
  qed
qed

theorem tsu_get_time_bracketed_witness:
  "\<exists>ts w'. tsu_get_time (tick_bsp 300000000) (tsu_boot 1500000000) = (ts, w') \<and>
      tsu_total ts = 2000000000 \<and> 1500000000 \<le> tsu_total ts \<and> tsu_total ts \<le> hw w'"
proof -
  let ?ts = "\<lparr>tsu_seconds = 2, tsu_nanosec = 0\<rparr>"
  let ?w' = "(tsu_boot 1500000000)\<lparr>hw := 2400000000 :: nat\<rparr>"
  have r: "tsu_get_time (tick_bsp 300000000) (tsu_boot 1500000000) = (?ts, ?w')"
    by (simp add: tsu_get_time_def read_reg_def tick_bsp_def tsu_reg_defs tsu_boot_def)
  have "hw (tsu_boot 1500000000) \<le> tsu_total ?ts \<and> tsu_total ?ts \<le> hw ?w'"
    using tsu_get_time_bracketed [OF tick_bsp_hw r] by simp
  with r show ?thesis by (simp add: tsu_total_def tsu_boot_def)
qed

text \<open>What a read shows depends on the hardware only.\<close>

lemma reading_of_hw:
  assumes "hw w = hw w'"
  shows "fst (tsu_get_time b w) = fst (tsu_get_time b w') \<and> hw (snd (tsu_get_time b w)) = hw (snd (tsu_get_time b w'))"
  using assms by (simp add: tsu_get_time_def read_reg_def Let_def split_beta)

section \<open>Setting the clock\<close>

text \<open>
  Setting the clock to a normalised timestamp whose seconds fit the 32-bit register leaves the
  hardware clock at exactly that timestamp, whatever it showed before.
\<close>
lemma tsu_set_time_exact:
  assumes "tsu_hw_write b now"
    and "unat (tsu_nanosec ts) < 10 ^ 9"
    and "unat (tsu_seconds ts) < 2 ^ 32"
  shows "now (hw (tsu_set_time b ts w)) = tsu_total ts"
proof -
  have "unat (ucast (tsu_seconds ts) :: u32) = unat (tsu_seconds ts)"
    using assms(3) by (simp add: unsigned_ucast_eq take_bit_nat_eq_self_iff)
  then show ?thesis
    using assms(1,2) by (simp add: tsu_set_time_def write_reg_def tsu_hw_write_def tsu_total_def)
qed

lemma tsu_set_time_exact_example:
  "hw (tsu_set_time (tick_bsp 0) \<lparr>tsu_seconds = 7, tsu_nanosec = 250\<rparr> (tsu_boot 99)) = 7000000250"
  using tsu_set_time_exact [OF tick_bsp_hw_write,
      of "\<lparr>tsu_seconds = 7, tsu_nanosec = 250\<rparr>" 0 "tsu_boot 99"]
  by (simp add: tsu_total_def)

section \<open>The fine tuning register\<close>

lemma adj_set_nanosec [simp]:
  "adj_nanosec (set_adj_nanosec n w) = n AND 0x3FFFFFFF"
  "adj_direction (set_adj_nanosec n w) = adj_direction w"
  "adj_reserved (set_adj_nanosec n w) = adj_reserved w"
  by (auto intro!: bit_word_eqI simp: adj_nanosec_def adj_direction_def adj_reserved_def
      set_adj_nanosec_def bit_simps)

lemma adj_set_direction [simp]:
  "adj_direction (set_adj_direction d w) = d AND 1"
  "adj_reserved (set_adj_direction d w) = adj_reserved w"
  by (auto intro!: bit_word_eqI simp: adj_direction_def adj_reserved_def
      set_adj_direction_def bit_simps)

lemma and_field_eq_mod: "uint (n AND 0x3FFFFFFF :: u32) = uint n mod 2 ^ 30"
proof -
  have m: "(0x3FFFFFFF :: u32) = mask 30" by (simp add: mask_eq_exp_minus_1)
  have "uint (n AND 0x3FFFFFFF) = take_bit 30 (uint n)"
    unfolding m take_bit_eq_mask [symmetric] by (rule unsigned_take_bit_eq)
  then show ?thesis by (simp only: take_bit_eq_mod)
qed

lemma fine_tune_frame [simp]:
  "hw (tsu_clock_fine_tune e i bd w) = hw w"
  "sUptime_mS (tsu_clock_fine_tune e i bd w) = sUptime_mS w"
  "is_read (tsu_clock_fine_tune e i bd w) = is_read w"
  by (simp_all add: tsu_clock_fine_tune_def Let_def)

lemma fine_tune_reserved [simp]:
  "adj_reserved (fine_tune_register (tsu_clock_fine_tune e i bd w)) = adj_reserved (fine_tune_register w)"
  by (simp add: tsu_clock_fine_tune_def Let_def)

text \<open>The value of the C expression \<open>error_ns + sync_diff_integrated_ns / 20\<close>, and the dead band.\<close>

definition freq_adj :: "i32 \<Rightarrow> i32 \<Rightarrow> int" where
  "freq_adj e i = sint e + sint i sdiv 20"

definition dead_band :: "i32 \<Rightarrow> i32 \<Rightarrow> int \<Rightarrow> bool" where
  "dead_band e i bd \<longleftrightarrow> \<bar>freq_adj e i\<bar> < bd \<and> - bd < sint e"

lemma sint_sum_div20:
  assumes "- (2 ^ 31) < freq_adj e i" and "freq_adj e i < 2 ^ 31"
  shows "sint (e + c_div i 20) = freq_adj e i"
proof -
  have "\<bar>sint i sdiv 20\<bar> < 2 ^ 31"
    using sint32_bounds [of i] by (auto simp: sdiv_pos)
  then have d: "sint (c_div i 20) = sint i sdiv 20"
    unfolding c_div_def by (simp add: sint_word_of_int_exact)
  with assms show ?thesis by (simp add: freq_adj_def sint32_add)
qed

text \<open>
  What the 30-bit nanoseconds field keeps of a correction: its sign, and its magnitude modulo \<open>2 ^ 30\<close>.
\<close>

definition adj30 :: "int \<Rightarrow> int" where
  "adj30 f = sgn f * (\<bar>f\<bar> mod 2 ^ 30)"

lemma adj30_fits: "\<bar>f\<bar> < 2 ^ 30 \<Longrightarrow> adj30 f = f"
  by (simp add: adj30_def mult_sgn_abs)

lemma adj30_cases:
  assumes "\<bar>f\<bar> < 2 ^ 31"
  shows "adj30 f = (if \<bar>f\<bar> < 2 ^ 30 then f else f - sgn f * 2 ^ 30)"
proof (cases "\<bar>f\<bar> < 2 ^ 30")
  case False
  have "\<bar>f\<bar> mod 2 ^ 30 = (\<bar>f\<bar> - 2 ^ 30) mod 2 ^ 30" by (rule minus_mod_self2 [symmetric])
  also have "\<dots> = \<bar>f\<bar> - 2 ^ 30" using assms False by (intro mod_pos_pos_trivial) auto
  finally show ?thesis using False by (simp add: adj30_def right_diff_distrib mult_sgn_abs)
qed (simp add: adj30_fits)

lemma freq_adj_bound:
  assumes "\<bar>sint e\<bar> < 10 ^ 9"
  shows "\<bar>freq_adj e i\<bar> < 2 ^ 31"
proof -
  have "\<bar>sint i sdiv 20\<bar> \<le> 107374183"
    using sint32_bounds [of i] by (auto simp: sdiv_pos)
  moreover have "\<bar>sint e\<bar> < 1000000000" using assms by simp
  ultimately have "\<bar>freq_adj e i\<bar> < 2147483648" unfolding freq_adj_def by linarith
  then show ?thesis by simp
qed

lemma fine_tune_register_field:
  assumes "\<bar>freq_adj e i\<bar> < 2 ^ 31"
    and "0 \<le> sint bd"
    and "\<not> dead_band e i (sint bd)"
  shows "adj_value (fine_tune_register (tsu_clock_fine_tune e i bd w)) = adj30 (freq_adj e i) \<and>
    adj_reserved (fine_tune_register (tsu_clock_fine_tune e i bd w)) =
      adj_reserved (fine_tune_register w)"
proof -
  let ?f = "e + c_div i 20"
  have f: "sint ?f = freq_adj e i" using assms(1) by (intro sint_sum_div20) auto
  have a: "sint (c_abs ?f) = \<bar>freq_adj e i\<bar>"
    using uint_c_abs [of ?f] f assms(1) by simp
  have bd: "sint (- bd) = - sint bd"
    using assms(2) by (intro sint32_minus) simp
  have "\<not> (sint (c_abs ?f) < sint bd \<and> sint (- bd) < sint e)"
    using assms(3) by (simp add: a bd dead_band_def)
  then have r: "fine_tune_register (tsu_clock_fine_tune e i bd w) =
      set_adj_nanosec (c_abs ?f)
        (set_adj_direction (if sint ?f > 0 then ADJUST_ADD else ADJUST_SUBTRACT)
          (fine_tune_register w))"
    by (auto simp: tsu_clock_fine_tune_def Let_def)
  have "uint (c_abs ?f) = \<bar>freq_adj e i\<bar>"
    using a by (simp add: uint_eq_sint)
  then have u: "uint (c_abs ?f AND 0x3FFFFFFF) = \<bar>freq_adj e i\<bar> mod 2 ^ 30"
    by (simp add: and_field_eq_mod)
  show ?thesis
    using u f by (auto simp: r adj_value_def ADJUST_ADD_def ADJUST_SUBTRACT_def adj30_def sgn_if)
qed

lemma fine_tune_register_correction:
  assumes "\<bar>freq_adj e i\<bar> < 2 ^ 30"
    and "0 \<le> sint bd"
    and "\<not> dead_band e i (sint bd)"
  shows "adj_value (fine_tune_register (tsu_clock_fine_tune e i bd w)) = freq_adj e i \<and>
    adj_reserved (fine_tune_register (tsu_clock_fine_tune e i bd w)) =
      adj_reserved (fine_tune_register w)"
  using fine_tune_register_field [OF _ assms(2,3), of w] assms(1) by (simp add: adj30_fits)

lemma fine_tune_register_correction_example:
  "adj_value (fine_tune_register (tsu_clock_fine_tune (- 4000) (- 60010) 500 (tsu_boot ()))) = - 7000"
proof -
  have f: "freq_adj (- 4000) (- 60010) = - 7000" by (simp add: freq_adj_def sdiv_pos)
  have "adj_value (fine_tune_register (tsu_clock_fine_tune (- 4000) (- 60010) 500 (tsu_boot ())))
      = freq_adj (- 4000) (- 60010)"
    using fine_tune_register_correction [of "- 4000" "- 60010" 500 "tsu_boot ()"]
    by (simp add: f dead_band_def)
  with f show ?thesis by simp
qed

lemma fine_tune_dead_band:
  assumes "dead_band e i (sint bd)" and "sint bd < 2 ^ 31"
    and "0 \<le> sint bd"
  shows "tsu_clock_fine_tune e i bd w = w"
proof -
  have lt: "\<bar>freq_adj e i\<bar> < 2 ^ 31" using assms by (simp add: dead_band_def)
  then have f: "sint (e + c_div i 20) = freq_adj e i" by (intro sint_sum_div20) auto
  have a: "sint (c_abs (e + c_div i 20)) = \<bar>freq_adj e i\<bar>"
    using uint_c_abs [of "e + c_div i 20"] f lt by simp
  have bd: "sint (- bd) = - sint bd"
    using assms(3) by (intro sint32_minus) simp
  show ?thesis
    using assms(1) by (simp add: tsu_clock_fine_tune_def Let_def a bd dead_band_def)
qed

lemma systick_writes_register:
  "hw (tsu_systick_cb b w) = xil_out32 b TSU_TIMER_ADJUST (fine_tune_register w) (hw w)"
  "fine_tune_register (tsu_systick_cb b w) = fine_tune_register w"
  "sUptime_mS (tsu_systick_cb b w) = sUptime_mS w + 1"
  by (simp_all add: tsu_systick_cb_def tsu_driver_adjust_time_def write_reg_def Let_def)

lemma tsu_time_frame [simp]:
  "fine_tune_register (tsu_set_time b ts w) = fine_tune_register w"
  "sUptime_mS (tsu_set_time b ts w) = sUptime_mS w"
  "fine_tune_register (snd (tsu_get_time b w)) = fine_tune_register w"
  "sUptime_mS (snd (tsu_get_time b w)) = sUptime_mS w"
  by (simp_all add: tsu_set_time_def write_reg_def tsu_get_time_def read_reg_def Let_def
      split: prod.splits)

section \<open>The clock increment\<close>

lemma increment_bounds:
  assumes "0 \<le> q" and "q < 2 ^ 32"
  shows "of_int (uint (tsu_ns_int q)) + of_int (uint (tsu_sub_ns q)) / 2 ^ 24 \<le> q"
    and "q < of_int (uint (tsu_ns_int q)) + of_int (uint (tsu_sub_ns q) + 1) / 2 ^ 24"
    and "uint (tsu_sub_ns q) < 2 ^ 24"
proof -
  have fl: "0 \<le> \<lfloor>q\<rfloor>" "\<lfloor>q\<rfloor> < 2 ^ 32" using assms by (simp_all add: floor_less_iff)
  have n: "uint (tsu_ns_int q) = \<lfloor>q\<rfloor>"
    using fl by (simp add: tsu_ns_int_def uint_word_of_int take_bit_int_eq_self)
  let ?x = "(q - of_int \<lfloor>q\<rfloor>) * 2 ^ 24"
  have fr: "0 \<le> q - of_int \<lfloor>q\<rfloor>" "q - of_int \<lfloor>q\<rfloor> < 1"
    using floor_correct [of q] by linarith+
  have x: "0 \<le> ?x" "?x < 2 ^ 24" using fr by simp_all
  then have xf: "0 \<le> \<lfloor>?x\<rfloor>" "\<lfloor>?x\<rfloor> < 2 ^ 24" by (simp_all add: floor_less_iff)
  then have s: "uint (tsu_sub_ns q) = \<lfloor>?x\<rfloor>"
    by (simp add: tsu_sub_ns_def n uint_word_of_int take_bit_int_eq_self)
  have fx: "of_int \<lfloor>?x\<rfloor> \<le> ?x" "?x < of_int \<lfloor>?x\<rfloor> + 1"
    using floor_correct [of ?x] by simp_all
  then show "of_int (uint (tsu_ns_int q)) + of_int (uint (tsu_sub_ns q)) / 2 ^ 24 \<le> q"
    "q < of_int (uint (tsu_ns_int q)) + of_int (uint (tsu_sub_ns q) + 1) / 2 ^ 24"
    by (simp_all add: n s field_simps)
  show "uint (tsu_sub_ns q) < 2 ^ 24" using xf(2) by (simp add: s)
qed

text \<open>
  The three set-up registers hold what was last written to them: \<open>reg h a\<close> is the content of register
  \<open>a\<close> in hardware state \<open>h\<close>.
\<close>

definition setup_regs :: "u64 set" where
  "setup_regs = {GEM_TSU_REF_CTRL, TSU_TIMER_INCR_GEM0, TSU_TIMER_INCR_SUB_NS_GEM0}"

definition tsu_regs :: "'h bsp \<Rightarrow> ('h \<Rightarrow> u64 \<Rightarrow> u32) \<Rightarrow> bool" where
  "tsu_regs b reg \<longleftrightarrow> (\<forall>r \<in> setup_regs.
     (\<forall>a v h. reg (xil_out32 b a v h) r = (if a = r then v else reg h r)) \<and>
     (\<forall>a h. reg (snd (xil_in32 b a h)) r = reg h r))"

lemma tsu_regsD:
  assumes "tsu_regs b reg" and "r \<in> setup_regs"
  shows "reg (xil_out32 b a v h) r = (if a = r then v else reg h r)" "reg (snd (xil_in32 b a h)) r = reg h r"
  using assms by (simp_all add: tsu_regs_def)

lemma init_tsu_writes:
  "hw (init_tsu b q w) =
     (let h = xil_out32 b TSU_TIMER_SEC_GEM0 0 (xil_out32 b TSU_TIMER_NS_GEM0 0
           (xil_out32 b TSU_TIMER_INCR_SUB_NS_GEM0 (tsu_sub_ns q) (xil_out32 b TSU_TIMER_INCR_GEM0 (tsu_ns_int q)
             (xil_out32 b GEM_TSU_REF_CTRL 0x01010601 (xil_out32 b GEM_TSU_REF_CTRL 0x00010601 (hw w))))))
      in snd (xil_in32 b TSU_TIMER_SEC_GEM0 (snd (xil_in32 b TSU_TIMER_NS_GEM0 h))))"
  by (simp add: init_tsu_def write_reg_def read_reg_def Let_def split_beta)

text \<open>
  C38: on a hardware whose set-up registers hold what was last written to them, start-up leaves the
  reference clock enabled, and the two increment registers holding whole nanoseconds and a 24-bit
  fraction that together are the clock period \<open>q\<close> truncated: never above it, short of it by less than one unit
  of the fraction, and the fraction within its 24 bits. The clock has been restarted from zero: it
  shows no more than the time the two reads that close the start-up took.
\<close>
theorem init_tsu_programs_increment:
  assumes "tsu_regs b reg" and "tsu_hw_write b now" and "\<And>a h. now (snd (xil_in32 b a h)) \<le> now h + d"
    and "0 \<le> q" and "q < 2 ^ 32" and "h = hw (init_tsu b q w)"
  shows "of_int (uint (reg h TSU_TIMER_INCR_GEM0)) + of_int (uint (reg h TSU_TIMER_INCR_SUB_NS_GEM0)) / 2 ^ 24 \<le> q \<and>
    q < of_int (uint (reg h TSU_TIMER_INCR_GEM0)) + of_int (uint (reg h TSU_TIMER_INCR_SUB_NS_GEM0) + 1) / 2 ^ 24 \<and>
    uint (reg h TSU_TIMER_INCR_SUB_NS_GEM0) < 2 ^ 24 \<and>
    reg h GEM_TSU_REF_CTRL = 0x01010601 \<and> now h \<le> 2 * d"
proof -
  have regs: "reg h TSU_TIMER_INCR_GEM0 = tsu_ns_int q" "reg h TSU_TIMER_INCR_SUB_NS_GEM0 = tsu_sub_ns q"
    "reg h GEM_TSU_REF_CTRL = 0x01010601"
    unfolding assms(6) init_tsu_writes Let_def
    by (simp_all add: tsu_regsD [OF assms(1)] setup_regs_def) (simp_all add: tsu_reg_defs)
  have zero: "now (xil_out32 b TSU_TIMER_SEC_GEM0 0 (xil_out32 b TSU_TIMER_NS_GEM0 0 k)) = 0" for k
    using assms(2) by (simp add: tsu_hw_write_def)
  have "now h \<le> 2 * d"
    unfolding assms(6) init_tsu_writes Let_def
    by (rule order.trans [OF assms(3)], rule order.trans [OF add_right_mono [OF assms(3)]]) (simp add: zero)
  then show ?thesis using increment_bounds [OF assms(4,5)] by (simp add: regs)
qed

text \<open>A hardware with both a clock and registers, to evaluate the start-up on.\<close>

definition reg_bsp :: "nat \<Rightarrow> (nat \<times> (u64 \<Rightarrow> u32)) bsp" where
  "reg_bsp d = \<lparr>xil_in32 = (\<lambda>a (t, m). (if a \<in> setup_regs then m a else fst (xil_in32 (tick_bsp d) a t),
        snd (xil_in32 (tick_bsp d) a t), m)),
     xil_out32 = (\<lambda>a v (t, m). (xil_out32 (tick_bsp d) a v t, m(a := v)))\<rparr>"

lemma reg_bsp_laws:
  "tsu_regs (reg_bsp d) snd" "tsu_hw_write (reg_bsp d) fst" "fst (snd (xil_in32 (reg_bsp d) a h)) \<le> fst h + d"
  by (auto simp: tsu_regs_def reg_bsp_def split_beta tsu_hw_write_def tick_bsp_def tsu_reg_defs)

theorem init_tsu_programs_increment_witness:
  "snd (hw (init_tsu (reg_bsp 20) (10 / 3) (tsu_boot (777, \<lambda>_. 0)))) TSU_TIMER_INCR_GEM0 = 3 \<and>
   snd (hw (init_tsu (reg_bsp 20) (10 / 3) (tsu_boot (777, \<lambda>_. 0)))) TSU_TIMER_INCR_SUB_NS_GEM0 = 5592405 \<and>
   fst (hw (init_tsu (reg_bsp 20) (10 / 3) (tsu_boot (777, \<lambda>_. 0)))) \<le> 40 \<and>
   3 + 5592405 / 2 ^ 24 \<le> (10 / 3 :: rat)"
proof -
  let ?h = "hw (init_tsu (reg_bsp 20) (10 / 3) (tsu_boot (777, \<lambda>_. 0)))"
  have "\<lfloor>10 / 3 :: rat\<rfloor> = 3" by (rule floor_unique) simp_all
  then have n: "tsu_ns_int (10 / 3) = 3" by (simp add: tsu_ns_int_def)
  have "\<lfloor>(10 / 3 - 3 :: rat) * 2 ^ 24\<rfloor> = 5592405" by (rule floor_unique) simp_all
  then have s: "tsu_sub_ns (10 / 3) = 5592405" by (simp add: tsu_sub_ns_def n)
  have r: "snd ?h TSU_TIMER_INCR_GEM0 = 3" "snd ?h TSU_TIMER_INCR_SUB_NS_GEM0 = 5592405"
    unfolding init_tsu_writes Let_def n s by (simp_all add: reg_bsp_def split_beta tsu_reg_defs)
  show ?thesis
    using init_tsu_programs_increment [OF reg_bsp_laws(1-3) _ _ refl, of "10 / 3" 20 "tsu_boot (777, \<lambda>_. 0)"]
    by (simp add: r)
qed

end
