(* ===== verification/Lwip.thy ===== *)
theory Lwip
  imports PtpSync TsuTime
begin

text \<open>
  The interface to the lwIP stack that \<open>ptp.c\<close>, \<open>gptp.c\<close>, \<open>gptp_hook.c\<close> and \<open>netif/ethernet.c\<close> use. The stack
  is not part of the repository: its functions are the fields of the parameter \<open>lwip\<close>, over the
  same abstract environment \<open>'h\<close> as the register accesses. What the code relies on where it hands
  buffers around is the predicate \<open>net_pool\<close>: an account of the buffer references and of the protocol
  control blocks that the application holds.
\<close>

datatype pbuf_layer = PBUF_TRANSPORT | PBUF_RAW

text \<open>
  A \<open>struct pbuf *\<close> or \<open>struct udp_pcb *\<close> is a number, a null pointer \<open>None\<close>. \<open>lw_pbuf_msg\<close> is the view
  of \<open>p->payload\<close>: its address and the \<open>p->len\<close> bytes there; \<open>lw_pbuf_set_len\<close> is the pair of
  assignments to \<open>p->len\<close> and \<open>p->tot_len\<close>, \<open>lw_pbuf_store\<close> the copy into the payload.
\<close>

record 'h lwip =
  lw_udp_new :: "'h \<Rightarrow> nat option \<times> 'h"
  lw_udp_bind :: "nat \<Rightarrow> u16 \<Rightarrow> 'h \<Rightarrow> 'h"
  lw_udp_recv :: "nat \<Rightarrow> 'h \<Rightarrow> 'h"
  lw_udp_sendto :: "nat option \<Rightarrow> nat \<Rightarrow> u32 \<Rightarrow> u16 \<Rightarrow> 'h \<Rightarrow> 'h"
  lw_udp_remove :: "nat option \<Rightarrow> 'h \<Rightarrow> 'h"
  lw_pbuf_alloc :: "pbuf_layer \<Rightarrow> nat \<Rightarrow> 'h \<Rightarrow> nat option \<times> 'h"
  lw_pbuf_set_len :: "nat \<Rightarrow> nat \<Rightarrow> 'h \<Rightarrow> 'h"
  lw_pbuf_store :: "nat \<Rightarrow> u8 list \<Rightarrow> 'h \<Rightarrow> 'h"
  lw_pbuf_free :: "nat \<Rightarrow> 'h \<Rightarrow> 'h"
  lw_pbuf_msg :: "nat \<Rightarrow> 'h \<Rightarrow> ptp_msg"
  lw_igmp_joingroup_netif :: "u32 \<Rightarrow> 'h \<Rightarrow> 'h"
  lw_linkoutput :: "nat \<Rightarrow> 'h \<Rightarrow> 'h"

text \<open>
  \<open>refs\<close> counts the buffer references and \<open>pcbs\<close> the control blocks the application owns. An allocation
  that succeeds adds one, a free gives one back; sending a buffer takes no reference away from the
  caller (lwIP takes its own when it queues the buffer). \<open>lw_udp_new\<close> may fail, and removing a null
  control block does nothing.
\<close>

definition held :: "nat option \<Rightarrow> int" where
  "held p = (case p of None \<Rightarrow> 0 | Some _ \<Rightarrow> 1)"

lemma held_simps [simp]: "held None = 0" "held (Some p) = 1"
  by (simp_all add: held_def)

definition net_pool :: "'h bsp \<Rightarrow> 'h lwip \<Rightarrow> ('h \<Rightarrow> int) \<Rightarrow> ('h \<Rightarrow> int) \<Rightarrow> bool" where
  "net_pool b l refs pcbs \<longleftrightarrow>
     (\<forall>h. refs (snd (lw_udp_new l h)) = refs h \<and>
          pcbs (snd (lw_udp_new l h)) = pcbs h + held (fst (lw_udp_new l h))) \<and>
     (\<forall>h p port. refs (lw_udp_bind l p port h) = refs h \<and> pcbs (lw_udp_bind l p port h) = pcbs h) \<and>
     (\<forall>h p. refs (lw_udp_recv l p h) = refs h \<and> pcbs (lw_udp_recv l p h) = pcbs h) \<and>
     (\<forall>h c p a port. refs (lw_udp_sendto l c p a port h) = refs h \<and>
          pcbs (lw_udp_sendto l c p a port h) = pcbs h) \<and>
     (\<forall>h c. refs (lw_udp_remove l c h) = refs h \<and> pcbs (lw_udp_remove l c h) = pcbs h - held c) \<and>
     (\<forall>h y n. refs (snd (lw_pbuf_alloc l y n h)) = refs h + held (fst (lw_pbuf_alloc l y n h)) \<and>
          pcbs (snd (lw_pbuf_alloc l y n h)) = pcbs h) \<and>
     (\<forall>h p n. refs (lw_pbuf_set_len l p n h) = refs h \<and> pcbs (lw_pbuf_set_len l p n h) = pcbs h) \<and>
     (\<forall>h p bs. refs (lw_pbuf_store l p bs h) = refs h \<and> pcbs (lw_pbuf_store l p bs h) = pcbs h) \<and>
     (\<forall>h p. refs (lw_pbuf_free l p h) = refs h - 1 \<and> pcbs (lw_pbuf_free l p h) = pcbs h) \<and>
     (\<forall>h a. refs (lw_igmp_joingroup_netif l a h) = refs h \<and>
          pcbs (lw_igmp_joingroup_netif l a h) = pcbs h) \<and>
     (\<forall>h p. refs (lw_linkoutput l p h) = refs h \<and> pcbs (lw_linkoutput l p h) = pcbs h) \<and>
     (\<forall>h a. refs (snd (xil_in32 b a h)) = refs h \<and> pcbs (snd (xil_in32 b a h)) = pcbs h) \<and>
     (\<forall>h a v. refs (xil_out32 b a v h) = refs h \<and> pcbs (xil_out32 b a v h) = pcbs h)"

text \<open>
  A stack that satisfies the account, used to evaluate the senders and receivers: a counter of buffers
  left, the counts, the frames handed to the network, newest first, and the buffers the driver has
  queued for the interface. Buffer number \<open>p\<close> that was
  received holds the message \<open>rx ! p\<close>.
\<close>

record sim =
  sim_clock :: nat
  sim_left :: nat
  sim_refs :: int
  sim_pcbs :: int
  sim_store :: "u8 list"
  sim_sent :: "u8 list list"
  sim_queue :: "nat list"

definition sim_bsp :: "'z sim_scheme bsp" where
  "sim_bsp = \<lparr>xil_in32 = (\<lambda>a h. (fst (xil_in32 (tick_bsp 0) a (sim_clock h)), h)),
     xil_out32 = (\<lambda>a v h. h\<lparr>sim_clock := xil_out32 (tick_bsp 0) a v (sim_clock h)\<rparr>)\<rparr>"

definition sim_lwip :: "ptp_msg list \<Rightarrow> 'z sim_scheme lwip" where
  "sim_lwip rx =
     \<lparr>lw_udp_new = (\<lambda>h. (Some 0, h\<lparr>sim_pcbs := sim_pcbs h + 1\<rparr>)),
      lw_udp_bind = (\<lambda>p port h. h), lw_udp_recv = (\<lambda>p h. h),
      lw_udp_sendto = (\<lambda>c p a port h. h\<lparr>sim_sent := sim_store h # sim_sent h\<rparr>),
      lw_udp_remove = (\<lambda>c h. h\<lparr>sim_pcbs := sim_pcbs h - held c\<rparr>),
      lw_pbuf_alloc = (\<lambda>y n h. if sim_left h = 0 then (None, h)
         else (Some 0, h\<lparr>sim_left := sim_left h - 1, sim_refs := sim_refs h + 1\<rparr>)),
      lw_pbuf_set_len = (\<lambda>p n h. h),
      lw_pbuf_store = (\<lambda>p bs h. h\<lparr>sim_store := bs\<rparr>),
      lw_pbuf_free = (\<lambda>p h. h\<lparr>sim_left := sim_left h + 1, sim_refs := sim_refs h - 1\<rparr>),
      lw_pbuf_msg = (\<lambda>p h. if p < length rx then rx ! p else \<lparr>msg_addr = 0, msg_bytes = []\<rparr>),
      lw_igmp_joingroup_netif = (\<lambda>a h. h),
      lw_linkoutput = (\<lambda>p h. h\<lparr>sim_sent := sim_store h # sim_sent h\<rparr>)\<rparr>"

definition sim0 :: sim where
  "sim0 = \<lparr>sim_clock = 0, sim_left = 4, sim_refs = 0, sim_pcbs = 0, sim_store = [], sim_sent = [],
     sim_queue = []\<rparr>"

lemma sim_net_pool: "net_pool sim_bsp (sim_lwip rx) sim_refs sim_pcbs"
  by (simp add: net_pool_def sim_bsp_def sim_lwip_def)

lemma sim_hw: "tsu_hw sim_bsp sim_clock"
  using tick_bsp_hw [of 0]
  by (auto simp: tsu_hw_def sim_bsp_def tick_bsp_def)

lemma sim_hw_write: "tsu_hw_write sim_bsp sim_clock"
  using tick_bsp_hw_write [of 0]
  by (auto simp: tsu_hw_write_def sim_bsp_def)

end
