(* ===== verification/Timesync.thy ===== *)
theory Timesync
  imports TsuTime
begin

text \<open>
  The synchronisation state machine, \<open>IEEE1588/timesync.c\<close> with \<open>timesync.h\<close> and
  \<open>timesync_private.h\<close>: the handlers for coarse and fine time, the pulse-per-second discipline, the
  service time-outs and housekeeping. The statics of the file extend the record of the clock driver.
  An abstract automaton over status, coarse-service flag and resync counter is given at the end of
  the theory, with the proof that the handlers implement it.
\<close>

section \<open>Constants and state\<close>

definition RESYNC_COARSE_TIME :: int where "RESYNC_COARSE_TIME = 60"
definition PPS_PERIOD_HIGH :: int where "PPS_PERIOD_HIGH = 1050"
definition PPS_PERIOD_LOW :: int where "PPS_PERIOD_LOW = 950"
definition PPS_LATENCY_CORRECTION_NS :: u32 where "PPS_LATENCY_CORRECTION_NS = 1200"
definition COARSE_TIME_AGE_MAX :: int where "COARSE_TIME_AGE_MAX = 1000"
definition SYNC_DIFF_BOUNDARY_NS :: int where "SYNC_DIFF_BOUNDARY_NS = 10000"
definition PPS_CORRECTION_BOUNDARY :: i32 where "PPS_CORRECTION_BOUNDARY = 50"

lemmas pps_consts = PPS_PERIOD_HIGH_def PPS_PERIOD_LOW_def PPS_LATENCY_CORRECTION_NS_def
  COARSE_TIME_AGE_MAX_def SYNC_DIFF_BOUNDARY_NS_def PPS_CORRECTION_BOUNDARY_def

datatype clock_type =
    CLOCK_TYPE_NONE
  | CLOCK_TYPE_GENERAL_NMEA_GPS
  | CLOCK_TYPE_PTP
  | CLOCK_TYPE_GPTP

datatype timesync_state_e = TS_NEVER | TS_COARSE | TS_FINE | TS_LOST

text \<open>What housekeeping prints: the state on a change, the error pair when monitoring is on.\<close>

datatype console_line = State_line timesync_state_e | Diff_line i32 i32

text \<open>
  \<open>receive_counter\<close> and \<open>status_prev\<close> are the function statics of \<open>coarse_time_received\<close> and
  \<open>housekeeping\<close>; \<open>console\<close> collects the lines printed, newest first.
\<close>

record 'h timesync = "'h tsu" +
  isInitialized :: bool
  status :: timesync_state_e
  coarse_service_ok :: bool
  last_coarse_time_value :: i64
  last_coarse_time_stamp :: u32
  last_pps_time_stamp :: u32
  sMonitor :: bool
  sync_diff_ns :: i32
  sync_diff_integrated_ns :: i32
  clock_source :: clock_type
  receive_counter :: i32
  status_prev :: timesync_state_e
  console :: "console_line list"

definition timesync_boot :: "'h \<Rightarrow> 'h timesync" where
  "timesync_boot h = tsu.extend (tsu_boot h)
     \<lparr>isInitialized = False, status = TS_NEVER, coarse_service_ok = False,
      last_coarse_time_value = 0, last_coarse_time_stamp = 0, last_pps_time_stamp = 0,
      sMonitor = False, sync_diff_ns = 0, sync_diff_integrated_ns = 0,
      clock_source = CLOCK_TYPE_NONE, receive_counter = 0, status_prev = TS_NEVER, console = []\<rparr>"

section \<open>Handlers\<close>

text \<open>
  The condition of \<open>coarse_time_received\<close>: the counter is incremented only when the left operands
  of the disjunction are false and the status is coarse.
\<close>

definition coarse_set_due :: "('h, 'z) timesync_scheme \<Rightarrow> bool \<times> ('h, 'z) timesync_scheme" where
  "coarse_set_due w =
     (if status w = TS_NEVER \<or> status w = TS_LOST then (True, w)
      else if status w = TS_COARSE then
        (let w' = w\<lparr>receive_counter := receive_counter w + 1\<rparr>
         in (sint (receive_counter w') > RESYNC_COARSE_TIME, w'))
      else (False, w))"

definition coarse_time_received ::
  "'h bsp \<Rightarrow> i64 \<Rightarrow> u32 \<Rightarrow> ('h, 'z) timesync_scheme \<Rightarrow> ('h, 'z) timesync_scheme" where
  "coarse_time_received b timestamp nanoseconds w =
     (let w1 = w\<lparr>coarse_service_ok := True,
                 last_coarse_time_value := timestamp,
                 last_coarse_time_stamp := tsu_get_uptime_ms w\<rparr>;
          (due, w2) = coarse_set_due w1
      in if due then
           (let w3 = (if sint timestamp > 0 then
                        (let (ts, w2') =
                               (if nanoseconds > 0
                                then (\<lparr>tsu_seconds = 0, tsu_nanosec = nanoseconds\<rparr>, w2)
                                else tsu_get_time b w2)
                         in tsu_set_time b (ts\<lparr>tsu_seconds := timestamp\<rparr>) w2')
                      else w2);
                w4 = w3\<lparr>receive_counter := 0\<rparr>
            in if status w4 \<noteq> TS_FINE then w4\<lparr>status := TS_COARSE\<rparr> else w4)
         else w2)"

definition fine_time_received ::
  "'h bsp \<Rightarrow> i64 \<Rightarrow> u32 \<Rightarrow> ('h, 'z) timesync_scheme \<Rightarrow> ('h, 'z) timesync_scheme" where
  "fine_time_received b timestamp nanoseconds w =
     (let w1 = (if sint timestamp > 0
                then tsu_set_time b \<lparr>tsu_seconds = timestamp, tsu_nanosec = nanoseconds\<rparr> w
                else w)
      in w1\<lparr>status := TS_FINE\<rparr>)"

text \<open>The phase error of the pulse, folded into half a second either way.\<close>

definition pps_phase :: "u32 \<Rightarrow> i32" where
  "pps_phase ns =
     (let d = ns - PPS_LATENCY_CORRECTION_NS
      in if sint d > 500000000 then d - 1000000000 else d)"

definition pps_received :: "'h bsp \<Rightarrow> ('h, 'z) timesync_scheme \<Rightarrow> ('h, 'z) timesync_scheme" where
  "pps_received b w =
     (let current_stamp = tsu_get_uptime_ms w;
          prev_pps_age = sint (current_stamp - last_pps_time_stamp w);
          w1 = w\<lparr>last_pps_time_stamp := current_stamp\<rparr>
      in if prev_pps_age < PPS_PERIOD_LOW \<or> prev_pps_age > PPS_PERIOD_HIGH then w1
         else if status w1 = TS_FINE then
           (let (t, w2) = tsu_get_time b w1;
                w3 = w2\<lparr>sync_diff_ns := pps_phase (tsu_nanosec t)\<rparr>
            in if sint (sync_diff_ns w3) < - SYNC_DIFF_BOUNDARY_NS \<or>
                  sint (sync_diff_ns w3) > SYNC_DIFF_BOUNDARY_NS
               then
                 (if sint (current_stamp - last_coarse_time_stamp w3) \<ge> COARSE_TIME_AGE_MAX then w3
                  else (tsu_set_time b
                          \<lparr>tsu_seconds = ucast (ucast (last_coarse_time_value w3 + 1) :: u32),
                           tsu_nanosec = PPS_LATENCY_CORRECTION_NS\<rparr> w3)
                         \<lparr>sync_diff_integrated_ns := 0\<rparr>)
               else
                 (let corr = c_div (sync_diff_integrated_ns w3 - sync_diff_ns w3) 10;
                      w4 = w3\<lparr>sync_diff_integrated_ns := sync_diff_integrated_ns w3 - corr\<rparr>
                  in tsu_clock_fine_tune (sync_diff_integrated_ns w4) 0 PPS_CORRECTION_BOUNDARY w4))
         else if status w1 = TS_COARSE then w1\<lparr>status := TS_FINE\<rparr>
         else w1)"

definition coarse_timeout :: "('h, 'z) timesync_scheme \<Rightarrow> ('h, 'z) timesync_scheme" where
  "coarse_timeout w =
     (let w1 = (if status w = TS_COARSE then w\<lparr>status := TS_LOST\<rparr> else w)
      in w1\<lparr>coarse_service_ok := False\<rparr>)"

definition fine_timeout :: "('h, 'z) timesync_scheme \<Rightarrow> ('h, 'z) timesync_scheme" where
  "fine_timeout w =
     (if status w = TS_FINE then
        (if coarse_service_ok w then w\<lparr>status := TS_COARSE\<rparr> else w\<lparr>status := TS_LOST\<rparr>)
      else w)"

definition log_state :: "('h, 'z) timesync_scheme \<Rightarrow> ('h, 'z) timesync_scheme" where
  "log_state w = w\<lparr>console := State_line (status w) # console w\<rparr>"

definition housekeeping :: "('h, 'z) timesync_scheme \<Rightarrow> ('h, 'z) timesync_scheme" where
  "housekeeping w =
     (let w1 = (if status w \<noteq> status_prev w then log_state (w\<lparr>status_prev := status w\<rparr>) else w)
      in if sMonitor w1 \<and> sync_diff_ns w1 \<noteq> 0
         then w1\<lparr>console := Diff_line (sync_diff_ns w1) (sync_diff_integrated_ns w1) # console w1,
                 sync_diff_ns := 0\<rparr>
         else w1)"

definition update_error :: "i32 \<Rightarrow> i32 \<Rightarrow> ('h, 'z) timesync_scheme \<Rightarrow> ('h, 'z) timesync_scheme" where
  "update_error error_ns avg_error_ns w =
     w\<lparr>sync_diff_ns := error_ns, sync_diff_integrated_ns := avg_error_ns\<rparr>"

text \<open>The parameter block handed to the time sources; a null function pointer is \<open>None\<close>.\<close>

record 'w timesync_init_param =
  ip_task_priority :: i32
  ip_coarse_timeout_sec :: i32
  ip_fine_timeout_sec :: i32
  ip_pps_irq_priority :: i32
  ip_coarse_time_received :: "(i64 \<Rightarrow> u32 \<Rightarrow> 'w \<Rightarrow> 'w) option"
  ip_fine_time_received :: "(i64 \<Rightarrow> u32 \<Rightarrow> 'w \<Rightarrow> 'w) option"
  ip_pps_received :: "('w \<Rightarrow> 'w) option"
  ip_coarse_timeout :: "('w \<Rightarrow> 'w) option"
  ip_fine_timeout :: "('w \<Rightarrow> 'w) option"
  ip_housekeeping :: "('w \<Rightarrow> 'w) option"
  ip_cleanup_function :: "('w \<Rightarrow> 'w) option"
  ip_error_report :: "(i32 \<Rightarrow> i32 \<Rightarrow> 'w \<Rightarrow> 'w) option"

definition init_param :: "'h bsp \<Rightarrow> ('h, 'z) timesync_scheme timesync_init_param" where
  "init_param b =
     \<lparr>ip_task_priority = 0, ip_coarse_timeout_sec = 300, ip_fine_timeout_sec = 20,
      ip_pps_irq_priority = 0,
      ip_coarse_time_received = Some (coarse_time_received b),
      ip_fine_time_received = Some (fine_time_received b),
      ip_pps_received = Some (pps_received b),
      ip_coarse_timeout = Some coarse_timeout,
      ip_fine_timeout = Some fine_timeout,
      ip_housekeeping = Some housekeeping,
      ip_cleanup_function = None,
      ip_error_report = Some update_error\<rparr>"

section \<open>Frame: the clock driver leaves the state machine alone\<close>

lemma set_time_frame [simp]:
  "isInitialized (tsu_set_time b ts w) = isInitialized w"
  "status (tsu_set_time b ts w) = status w"
  "coarse_service_ok (tsu_set_time b ts w) = coarse_service_ok w"
  "last_coarse_time_value (tsu_set_time b ts w) = last_coarse_time_value w"
  "last_coarse_time_stamp (tsu_set_time b ts w) = last_coarse_time_stamp w"
  "last_pps_time_stamp (tsu_set_time b ts w) = last_pps_time_stamp w"
  "sMonitor (tsu_set_time b ts w) = sMonitor w"
  "sync_diff_ns (tsu_set_time b ts w) = sync_diff_ns w"
  "sync_diff_integrated_ns (tsu_set_time b ts w) = sync_diff_integrated_ns w"
  "clock_source (tsu_set_time b ts w) = clock_source w"
  "receive_counter (tsu_set_time b ts w) = receive_counter w"
  "status_prev (tsu_set_time b ts w) = status_prev w"
  "console (tsu_set_time b ts w) = console w"
  "timesync.more (tsu_set_time b ts w) = timesync.more w"
  by (simp_all add: tsu_set_time_def write_reg_def Let_def split: prod.splits)

lemma get_time_frame [simp]:
  "isInitialized (snd (tsu_get_time b w)) = isInitialized w"
  "status (snd (tsu_get_time b w)) = status w"
  "coarse_service_ok (snd (tsu_get_time b w)) = coarse_service_ok w"
  "last_coarse_time_value (snd (tsu_get_time b w)) = last_coarse_time_value w"
  "last_coarse_time_stamp (snd (tsu_get_time b w)) = last_coarse_time_stamp w"
  "last_pps_time_stamp (snd (tsu_get_time b w)) = last_pps_time_stamp w"
  "sMonitor (snd (tsu_get_time b w)) = sMonitor w"
  "sync_diff_ns (snd (tsu_get_time b w)) = sync_diff_ns w"
  "sync_diff_integrated_ns (snd (tsu_get_time b w)) = sync_diff_integrated_ns w"
  "clock_source (snd (tsu_get_time b w)) = clock_source w"
  "receive_counter (snd (tsu_get_time b w)) = receive_counter w"
  "status_prev (snd (tsu_get_time b w)) = status_prev w"
  "console (snd (tsu_get_time b w)) = console w"
  "timesync.more (snd (tsu_get_time b w)) = timesync.more w"
  by (simp_all add: tsu_get_time_def read_reg_def Let_def split: prod.splits)

lemma fine_tune_ts_frame [simp]:
  "isInitialized (tsu_clock_fine_tune e i bd w) = isInitialized w"
  "status (tsu_clock_fine_tune e i bd w) = status w"
  "coarse_service_ok (tsu_clock_fine_tune e i bd w) = coarse_service_ok w"
  "last_coarse_time_value (tsu_clock_fine_tune e i bd w) = last_coarse_time_value w"
  "last_coarse_time_stamp (tsu_clock_fine_tune e i bd w) = last_coarse_time_stamp w"
  "last_pps_time_stamp (tsu_clock_fine_tune e i bd w) = last_pps_time_stamp w"
  "sMonitor (tsu_clock_fine_tune e i bd w) = sMonitor w"
  "sync_diff_ns (tsu_clock_fine_tune e i bd w) = sync_diff_ns w"
  "sync_diff_integrated_ns (tsu_clock_fine_tune e i bd w) = sync_diff_integrated_ns w"
  "clock_source (tsu_clock_fine_tune e i bd w) = clock_source w"
  "receive_counter (tsu_clock_fine_tune e i bd w) = receive_counter w"
  "status_prev (tsu_clock_fine_tune e i bd w) = status_prev w"
  "console (tsu_clock_fine_tune e i bd w) = console w"
  "timesync.more (tsu_clock_fine_tune e i bd w) = timesync.more w"
  by (simp_all add: tsu_clock_fine_tune_def Let_def split: prod.splits)

lemma systick_frame [simp]:
  "isInitialized (tsu_systick_cb b w) = isInitialized w"
  "status (tsu_systick_cb b w) = status w"
  "coarse_service_ok (tsu_systick_cb b w) = coarse_service_ok w"
  "last_coarse_time_value (tsu_systick_cb b w) = last_coarse_time_value w"
  "last_coarse_time_stamp (tsu_systick_cb b w) = last_coarse_time_stamp w"
  "last_pps_time_stamp (tsu_systick_cb b w) = last_pps_time_stamp w"
  "sMonitor (tsu_systick_cb b w) = sMonitor w"
  "sync_diff_ns (tsu_systick_cb b w) = sync_diff_ns w"
  "sync_diff_integrated_ns (tsu_systick_cb b w) = sync_diff_integrated_ns w"
  "clock_source (tsu_systick_cb b w) = clock_source w"
  "receive_counter (tsu_systick_cb b w) = receive_counter w"
  "status_prev (tsu_systick_cb b w) = status_prev w"
  "console (tsu_systick_cb b w) = console w"
  "timesync.more (tsu_systick_cb b w) = timesync.more w"
  by (simp_all add: tsu_systick_cb_def tsu_driver_adjust_time_def write_reg_def Let_def split: prod.splits)

section \<open>Events and runs\<close>

datatype ts_event =
    Coarse_rx i64 u32
  | Fine_rx i64 u32
  | Pulse
  | Coarse_timeout
  | Fine_timeout
  | Housekeep
  | Error_rx i32 i32
  | Systick

fun ts_step :: "'h bsp \<Rightarrow> ts_event \<Rightarrow> ('h, 'z) timesync_scheme \<Rightarrow> ('h, 'z) timesync_scheme" where
  "ts_step b (Coarse_rx s ns) w = coarse_time_received b s ns w"
| "ts_step b (Fine_rx s ns) w = fine_time_received b s ns w"
| "ts_step b Pulse w = pps_received b w"
| "ts_step b Coarse_timeout w = coarse_timeout w"
| "ts_step b Fine_timeout w = fine_timeout w"
| "ts_step b Housekeep w = housekeeping w"
| "ts_step b (Error_rx e a) w = update_error e a w"
| "ts_step b Systick w = tsu_systick_cb b w"

definition ts_run :: "'h bsp \<Rightarrow> ts_event list \<Rightarrow> ('h, 'z) timesync_scheme \<Rightarrow> ('h, 'z) timesync_scheme" where
  "ts_run b es w = fold (ts_step b) es w"

lemma ts_run_simps [simp]:
  "ts_run b [] w = w"
  "ts_run b (e # es) w = ts_run b es (ts_step b e w)"
  by (simp_all add: ts_run_def)

lemma ts_run_append: "ts_run b (es @ fs) w = ts_run b fs (ts_run b es w)"
  by (simp add: ts_run_def)

inductive ts_reach :: "'h bsp \<Rightarrow> 'h timesync \<Rightarrow> bool" for b :: "'h bsp" where
  boot: "ts_reach b (timesync_boot h)"
| step: "ts_reach b w \<Longrightarrow> ts_reach b (ts_step b e w)"

section \<open>The counter of coarse messages\<close>

definition counter_ok :: "('h, 'z) timesync_scheme \<Rightarrow> bool" where
  "counter_ok w \<longleftrightarrow> 0 \<le> sint (receive_counter w) \<and> sint (receive_counter w) \<le> RESYNC_COARSE_TIME"

lemma sint_counter_succ:
  "counter_ok w \<Longrightarrow> sint (receive_counter w + 1) = sint (receive_counter w) + 1"
  by (simp add: counter_ok_def RESYNC_COARSE_TIME_def sint32_add)

text \<open>What \<open>coarse_time_received\<close> does to the state machine, branch by branch.\<close>

lemma coarse_cases:
  "status (coarse_time_received b s ns w) =
     (if status w = TS_FINE then TS_FINE else TS_COARSE)"
  "coarse_service_ok (coarse_time_received b s ns w)"
  "receive_counter (coarse_time_received b s ns w) =
     (if status w = TS_FINE then receive_counter w
      else if status w = TS_COARSE \<and> \<not> sint (receive_counter w + 1) > RESYNC_COARSE_TIME
      then receive_counter w + 1 else 0)"
  by (cases "status w"; simp add: coarse_time_received_def coarse_set_due_def Let_def split_beta)+

lemma pps_cases:
  "status (pps_received b w) =
     (if status w = TS_COARSE \<and>
         PPS_PERIOD_LOW \<le> sint (sUptime_mS w - last_pps_time_stamp w) \<and>
         sint (sUptime_mS w - last_pps_time_stamp w) \<le> PPS_PERIOD_HIGH
      then TS_FINE else status w)"
  "coarse_service_ok (pps_received b w) = coarse_service_ok w"
  "receive_counter (pps_received b w) = receive_counter w"
  by (cases "status w"; simp add: pps_received_def Let_def split_beta tsu_get_uptime_ms_def)+

lemma fine_cases:
  "status (fine_time_received b s ns w) = TS_FINE"
  "coarse_service_ok (fine_time_received b s ns w) = coarse_service_ok w"
  "receive_counter (fine_time_received b s ns w) = receive_counter w"
  by (simp_all add: fine_time_received_def Let_def)

lemma timeout_cases:
  "status (coarse_timeout w) = (if status w = TS_COARSE then TS_LOST else status w)"
  "coarse_service_ok (coarse_timeout w) = False"
  "receive_counter (coarse_timeout w) = receive_counter w"
  "status (fine_timeout w) =
     (if status w = TS_FINE then (if coarse_service_ok w then TS_COARSE else TS_LOST) else status w)"
  "coarse_service_ok (fine_timeout w) = coarse_service_ok w"
  "receive_counter (fine_timeout w) = receive_counter w"
  by (simp_all add: coarse_timeout_def fine_timeout_def Let_def)

lemma quiet_cases:
  "status (housekeeping w) = status w"
  "coarse_service_ok (housekeeping w) = coarse_service_ok w"
  "receive_counter (housekeeping w) = receive_counter w"
  "status (update_error e a w) = status w"
  "coarse_service_ok (update_error e a w) = coarse_service_ok w"
  "receive_counter (update_error e a w) = receive_counter w"
  by (simp_all add: housekeeping_def log_state_def update_error_def Let_def)

lemmas handler_cases = coarse_cases pps_cases fine_cases timeout_cases quiet_cases

section \<open>The abstract automaton and the refinement\<close>

text \<open>
  What the component promises: a status, whether the coarse service is alive, and how many coarse
  messages have come in since the clock was last set from one.
\<close>

record sync_spec =
  sp_status :: timesync_state_e
  sp_service :: bool
  sp_count :: nat

datatype spec_event = SCoarse | SFine | SPulse | SCoarseTimeout | SFineTimeout | SOther

fun spec_step :: "spec_event \<Rightarrow> sync_spec \<Rightarrow> sync_spec" where
  "spec_step SCoarse s =
     (case sp_status s of
        TS_FINE \<Rightarrow> s\<lparr>sp_service := True\<rparr>
      | TS_COARSE \<Rightarrow> s\<lparr>sp_service := True, sp_count := (if sp_count s < 60 then Suc (sp_count s) else 0)\<rparr>
      | _ \<Rightarrow> s\<lparr>sp_status := TS_COARSE, sp_service := True, sp_count := 0\<rparr>)"
| "spec_step SFine s = s\<lparr>sp_status := TS_FINE\<rparr>"
| "spec_step SPulse s = (if sp_status s = TS_COARSE then s\<lparr>sp_status := TS_FINE\<rparr> else s)"
| "spec_step SCoarseTimeout s =
     s\<lparr>sp_status := (if sp_status s = TS_COARSE then TS_LOST else sp_status s), sp_service := False\<rparr>"
| "spec_step SFineTimeout s =
     (if sp_status s = TS_FINE then s\<lparr>sp_status := (if sp_service s then TS_COARSE else TS_LOST)\<rparr>
      else s)"
| "spec_step SOther s = s"

definition abs_sync :: "('h, 'z) timesync_scheme \<Rightarrow> sync_spec" where
  "abs_sync w = \<lparr>sp_status = status w, sp_service = coarse_service_ok w,
     sp_count = nat (sint (receive_counter w))\<rparr>"

text \<open>A pulse counts when it comes 950 to 1050 milliseconds after the one before.\<close>

fun abs_event :: "('h, 'z) timesync_scheme \<Rightarrow> ts_event \<Rightarrow> spec_event" where
  "abs_event w (Coarse_rx s ns) = SCoarse"
| "abs_event w (Fine_rx s ns) = SFine"
| "abs_event w Pulse =
     (if PPS_PERIOD_LOW \<le> sint (sUptime_mS w - last_pps_time_stamp w) \<and>
         sint (sUptime_mS w - last_pps_time_stamp w) \<le> PPS_PERIOD_HIGH then SPulse else SOther)"
| "abs_event w Coarse_timeout = SCoarseTimeout"
| "abs_event w Fine_timeout = SFineTimeout"
| "abs_event w _ = SOther"

lemma counter_ok_step: "counter_ok w \<Longrightarrow> counter_ok (ts_step b e w)"
  by (cases e)
     (auto simp: counter_ok_def handler_cases RESYNC_COARSE_TIME_def sint32_add)

lemma abs_sync_step:
  assumes "counter_ok w"
  shows "abs_sync (ts_step b e w) = spec_step (abs_event w e) (abs_sync w)"
proof (cases e)
  case (Coarse_rx s ns)
  have succ: "sint (receive_counter w + 1) = sint (receive_counter w) + 1"
    using assms by (rule sint_counter_succ)
  have "0 \<le> sint (receive_counter w)" using assms by (simp add: counter_ok_def)
  with Coarse_rx succ show ?thesis
    by (cases "status w")
       (auto simp: abs_sync_def handler_cases RESYNC_COARSE_TIME_def nat_add_distrib)
qed (auto simp: abs_sync_def handler_cases)

fun spec_run :: "spec_event list \<Rightarrow> sync_spec \<Rightarrow> sync_spec" where
  "spec_run [] s = s"
| "spec_run (e # es) s = spec_run es (spec_step e s)"

fun abs_trace :: "'h bsp \<Rightarrow> ('h, 'z) timesync_scheme \<Rightarrow> ts_event list \<Rightarrow> spec_event list" where
  "abs_trace b w [] = []"
| "abs_trace b w (e # es) = abs_event w e # abs_trace b (ts_step b e w) es"

text \<open>
  C9: the handlers refine the abstract automaton. From any state whose counter is in range, a run of
  any events ends, seen through the abstraction, where the automaton ends on the abstract events.
\<close>
theorem timesync_refines_spec:
  assumes "counter_ok w"
  shows "abs_sync (ts_run b es w) = spec_run (abs_trace b w es) (abs_sync w) \<and>
    counter_ok (ts_run b es w)"
  using assms
  by (induction es arbitrary: w) (auto simp: abs_sync_step counter_ok_step)

theorem timesync_refines_spec_witness:
  "sp_status (abs_sync (ts_run (tick_bsp 1) [Coarse_rx 5 0, Fine_rx 0 0, Fine_timeout, Coarse_timeout]
     (timesync_boot 0))) = TS_LOST"
proof -
  have ok: "counter_ok (timesync_boot (0::nat))"
    by (simp add: counter_ok_def timesync_boot_def tsu.defs tsu_boot_def RESYNC_COARSE_TIME_def)
  show ?thesis
    using timesync_refines_spec [OF ok, of "tick_bsp 1"
        "[Coarse_rx 5 0, Fine_rx 0 0, Fine_timeout, Coarse_timeout]"]
    by (simp add: abs_sync_def timesync_boot_def tsu.defs tsu_boot_def)
qed

section \<open>Transitions and reachable states\<close>

inductive ts_trans :: "timesync_state_e \<Rightarrow> timesync_state_e \<Rightarrow> bool" where
  first_coarse: "ts_trans TS_NEVER TS_COARSE"
| again_coarse: "ts_trans TS_LOST TS_COARSE"
| to_fine: "ts_trans s TS_FINE"
| coarse_lost: "ts_trans TS_COARSE TS_LOST"
| fine_coarse: "ts_trans TS_FINE TS_COARSE"
| fine_lost: "ts_trans TS_FINE TS_LOST"

inductive_simps ts_trans_simps [simp]:
  "ts_trans s TS_NEVER" "ts_trans s TS_COARSE" "ts_trans s TS_LOST" "ts_trans s TS_FINE"

text \<open>
  Every handler moves the status along the automaton's edges or leaves it; in particular no
  event ever takes the machine back to \<open>TS_NEVER\<close>, and fine synchronisation is never lost without
  passing the fine time-out.
\<close>
lemma timesync_transitions:
  "(status (ts_step b e w) = status w \<or> ts_trans (status w) (status (ts_step b e w))) \<and>
   (status (ts_step b e w) = TS_NEVER \<longleftrightarrow> status w = TS_NEVER \<and> status (ts_step b e w) = status w) \<and>
   (status w = TS_FINE \<and> status (ts_step b e w) \<noteq> TS_FINE \<longleftrightarrow> status w = TS_FINE \<and> e = Fine_timeout)"
  by (cases e; cases "status w"; simp add: handler_cases)

lemma timesync_boot_simps [simp]:
  "status (timesync_boot h) = TS_NEVER" "coarse_service_ok (timesync_boot h) = False"
  "receive_counter (timesync_boot h) = 0" "sync_diff_integrated_ns (timesync_boot h) = 0"
  "fine_tune_register (timesync_boot h) = 0" "hw (timesync_boot h) = h"
  "sUptime_mS (timesync_boot h) = 0" "last_pps_time_stamp (timesync_boot h) = 0"
  "sMonitor (timesync_boot h) = False" "isInitialized (timesync_boot h) = False"
  by (simp_all add: timesync_boot_def tsu.defs tsu_boot_def)

definition service_inv :: "('h, 'z) timesync_scheme \<Rightarrow> bool" where
  "service_inv w \<longleftrightarrow>
     (case status w of
        TS_NEVER \<Rightarrow> \<not> coarse_service_ok w \<and> receive_counter w = 0
      | TS_COARSE \<Rightarrow> coarse_service_ok w
      | TS_FINE \<Rightarrow> True
      | TS_LOST \<Rightarrow> \<not> coarse_service_ok w)"

lemma service_inv_step: "service_inv w \<Longrightarrow> service_inv (ts_step b e w)"
  by (cases e; cases "status w"; simp add: service_inv_def handler_cases)

text \<open>
  C23: in every reachable state the status and the coarse-service flag agree: coarse synchronisation
  means the coarse service is alive, lost or never synchronised means it is not, and the counter of
  coarse messages stays within the resync period.
\<close>
theorem timesync_reachable_invariant:
  assumes "ts_reach b w"
  shows "service_inv w \<and> counter_ok w"
  using assms
proof (induction rule: ts_reach.induct)
  case (boot h)
  show ?case by (simp add: service_inv_def counter_ok_def RESYNC_COARSE_TIME_def)
next
  case (step w e)
  then show ?case by (simp add: service_inv_step counter_ok_step)
qed

theorem timesync_reachable_invariant_witness:
  "service_inv (ts_step (tick_bsp 1) (Coarse_rx 5 0) (timesync_boot 0)) \<and>
   status (ts_step (tick_bsp 1) (Coarse_rx 5 0) (timesync_boot 0)) = TS_COARSE"
proof -
  have "ts_reach (tick_bsp 1) (ts_step (tick_bsp 1) (Coarse_rx 5 0) (timesync_boot 0))"
    by (rule ts_reach.step [OF ts_reach.boot])
  then show ?thesis
    using timesync_reachable_invariant [of "tick_bsp 1"
        "ts_step (tick_bsp 1) (Coarse_rx 5 0) (timesync_boot 0)"]
    by (simp add: handler_cases)
qed

section \<open>When the clock is set\<close>

text \<open>Events of a time source whose coarse messages are the only way it could correct the clock.\<close>

fun coarse_side :: "ts_event \<Rightarrow> bool" where
  "coarse_side (Coarse_rx s ns) = True"
| "coarse_side Coarse_timeout = True"
| "coarse_side Housekeep = True"
| "coarse_side (Error_rx e a) = True"
| "coarse_side _ = False"

lemma coarse_side_fine_step:
  assumes "status w = TS_FINE" and "coarse_side e"
  shows "hw (ts_step b e w) = hw w \<and> status (ts_step b e w) = TS_FINE"
  using assms
  by (cases e)
     (simp_all add: handler_cases coarse_time_received_def coarse_set_due_def coarse_timeout_def
       housekeeping_def log_state_def update_error_def Let_def)

text \<open>
  Once the status is fine, coarse time messages no longer reach the clock: whatever number of them
  arrives, with coarse time-outs, housekeeping and error reports between them, the hardware is not
  written and the status stays fine. Only the fine time-out opens the coarse path again.
\<close>
lemma fine_state_ignores_coarse:
  assumes "status w = TS_FINE" and "\<forall>e \<in> set es. coarse_side e"
  shows "hw (ts_run b es w) = hw w \<and> status (ts_run b es w) = TS_FINE"
  using assms
proof (induction es arbitrary: w)
  case Nil
  then show ?case by simp
next
  case (Cons e es)
  have "hw (ts_step b e w) = hw w \<and> status (ts_step b e w) = TS_FINE"
    using Cons.prems by (intro coarse_side_fine_step) auto
  with Cons show ?case by simp
qed

lemma fine_state_ignores_coarse_example:
  "hw (ts_run (tick_bsp 1) [Coarse_rx 1700000000 5, Coarse_rx 1700000001 5]
     ((timesync_boot 77)\<lparr>status := TS_FINE\<rparr>)) = 77"
  using fine_state_ignores_coarse [of "(timesync_boot 77)\<lparr>status := TS_FINE\<rparr>"
      "[Coarse_rx 1700000000 5, Coarse_rx 1700000001 5]" "tick_bsp 1"]
  by simp

lemma coarse_hw_cases:
  assumes "status w = TS_COARSE"
  shows "hw (coarse_time_received b s ns w) =
    (if sint (receive_counter w + 1) > RESYNC_COARSE_TIME \<and> sint s > 0
     then (if ns > 0 then hw (tsu_set_time b \<lparr>tsu_seconds = s, tsu_nanosec = ns\<rparr> w)
           else hw (tsu_set_time b ((fst (tsu_get_time b w))\<lparr>tsu_seconds := s\<rparr>) (snd (tsu_get_time b w))))
     else hw w)"
  using assms
  by (simp add: coarse_time_received_def coarse_set_due_def Let_def split_beta tsu_set_time_def
      write_reg_def tsu_get_time_def read_reg_def)

lemma coarse_step_counts:
  assumes "status w = TS_COARSE" and "counter_ok w" and "sint (receive_counter w) < RESYNC_COARSE_TIME"
  shows "hw (coarse_time_received b s ns w) = hw w"
    and "status (coarse_time_received b s ns w) = TS_COARSE"
    and "sint (receive_counter (coarse_time_received b s ns w)) = sint (receive_counter w) + 1"
  using assms sint_counter_succ [OF assms(2)]
  by (simp_all add: coarse_hw_cases handler_cases)

text \<open>
  C35: in coarse synchronisation the clock is re-set on every sixty-first coarse message, no earlier: from
  a counter of \<open>k\<close>, the next \<open>60 - k\<close> messages leave the hardware alone. The one after them starts the count
  again; when its seconds are positive it writes their low 32 bits, and its nanoseconds, or, when those are
  zero, the nanoseconds that the clock shows; when its seconds are not positive it writes nothing.
\<close>
theorem coarse_resync_period:
  assumes "status w = TS_COARSE" and "sint (receive_counter w) = int k"
    and "k + length ms = 60"
  shows "hw (ts_run b (map (\<lambda>(s, ns). Coarse_rx s ns) ms) w) = hw w \<and>
    (let w' = ts_run b (map (\<lambda>(s, ns). Coarse_rx s ns) ms @ [Coarse_rx s ns]) w in
      receive_counter w' = 0 \<and> status w' = TS_COARSE \<and>
      hw w' =
        (if sint s \<le> 0 then hw w
         else if ns > 0 then xil_out32 b TSU_TIMER_SEC_GEM0 (ucast s) (xil_out32 b TSU_TIMER_NS_GEM0 ns (hw w))
         else xil_out32 b TSU_TIMER_SEC_GEM0 (ucast s)
           (xil_out32 b TSU_TIMER_NS_GEM0 (tsu_nanosec (fst (tsu_get_time b w))) (hw (snd (tsu_get_time b w))))))"
  using assms
proof (induction ms arbitrary: w k)
  case Nil
  then have "sint (receive_counter w + 1) = 61"
    using sint_counter_succ [of w] by (simp add: counter_ok_def RESYNC_COARSE_TIME_def)
  then show ?case
    using Nil by (simp add: coarse_hw_cases handler_cases RESYNC_COARSE_TIME_def tsu_set_time_def write_reg_def Let_def not_le)
next
  case (Cons m ms)
  obtain s' ns' where m: "m = (s', ns')" by (cases m)
  have st: "hw (coarse_time_received b s' ns' w) = hw w"
      "status (coarse_time_received b s' ns' w) = TS_COARSE"
      "sint (receive_counter (coarse_time_received b s' ns' w)) = int (Suc k)"
    using coarse_step_counts [of w b s' ns'] Cons.prems
    by (simp_all add: counter_ok_def RESYNC_COARSE_TIME_def)
  show ?case
    using Cons.IH [OF st(2,3)] Cons.prems(3) reading_of_hw [OF st(1), of b]
    by (simp add: m st(1) Let_def)
qed

theorem coarse_resync_period_witness:
  "hw (ts_run (tick_bsp 1) [Coarse_rx 9 100, Coarse_rx 10 200]
     ((timesync_boot 77)\<lparr>status := TS_COARSE, receive_counter := 59\<rparr>)) = 10000000200"
proof -
  let ?w = "(timesync_boot (77::nat))\<lparr>status := TS_COARSE, receive_counter := 59\<rparr>"
  have "hw (ts_run (tick_bsp 1) (map (\<lambda>(s, ns). Coarse_rx s ns) [(9, 100)] @ [Coarse_rx 10 200]) ?w) =
      xil_out32 (tick_bsp 1) TSU_TIMER_SEC_GEM0 (ucast (10 :: i64))
        (xil_out32 (tick_bsp 1) TSU_TIMER_NS_GEM0 200 (hw ?w))"
    using coarse_resync_period [of ?w 59 "[(9, 100)]" "tick_bsp 1" 10 200] by (simp add: Let_def)
  then show ?thesis by (simp add: tick_bsp_def tsu_reg_defs)
qed

section \<open>The pulse discipline\<close>

text \<open>
  For a normalised nanosecond reading the phase error of the pulse lies within half a second either
  way, is congruent to the reading less the latency correction modulo one second, and no step of its
  computation overflows.
\<close>
lemma pps_phase_range:
  assumes "uint ns < 10 ^ 9"
  shows "- 500000000 < sint (pps_phase ns) \<and> sint (pps_phase ns) \<le> 500000000 \<and>
    sint (pps_phase ns) mod 10 ^ 9 = (uint ns - 1200) mod 10 ^ 9"
proof -
  have n: "sint ns = uint ns" "0 \<le> uint ns"
    using assms by (simp_all add: sint_of_uint_small)
  have d: "sint (ns - PPS_LATENCY_CORRECTION_NS) = uint ns - 1200"
    using assms n by (simp add: PPS_LATENCY_CORRECTION_NS_def sint32_diff)
  have e: "sint (ns - PPS_LATENCY_CORRECTION_NS - 1000000000) = uint ns - 1200 - 10 ^ 9"
    using assms d n(2) by (subst sint32_diff) simp_all
  have "(uint ns - 1200 - 10 ^ 9) mod 10 ^ 9 = (uint ns - 1200) mod 10 ^ 9"
    by (rule minus_mod_self2)
  moreover have "0 < 499998800 + uint ns" using n(2) by linarith
  ultimately show ?thesis using assms d e by (simp add: pps_phase_def Let_def)
qed

lemma pps_phase_range_example:
  "sint (pps_phase 999999000) = - 2200 \<and> sint (pps_phase 999999000) \<le> 500000000"
  using pps_phase_range [of 999999000] by (simp add: pps_phase_def PPS_LATENCY_CORRECTION_NS_def)

text \<open>
  The low-pass filter of the pulse error: the integrated value moves a tenth of the way towards the
  new error, so it never leaves the band of the errors it is fed.
\<close>

lemma pps_filter_band:
  fixes x y B :: int
  assumes "\<bar>x\<bar> \<le> B" and "\<bar>y\<bar> \<le> B"
  shows "\<bar>x - (x - y) sdiv 10\<bar> \<le> B"
proof (cases "0 \<le> x - y")
  case True
  then have "0 \<le> (x - y) sdiv 10" "(x - y) sdiv 10 \<le> x - y"
    by (simp_all add: sdiv_pos; arith)+
  with assms show ?thesis by linarith
next
  case False
  then have "(x - y) sdiv 10 \<le> 0" "x - y \<le> (x - y) sdiv 10"
    by (simp_all add: sdiv_pos; arith)+
  with assms show ?thesis by linarith
qed

definition filter_ok :: "('h, 'z) timesync_scheme \<Rightarrow> bool" where
  "filter_ok w \<longleftrightarrow> \<bar>sint (sync_diff_integrated_ns w)\<bar> \<le> SYNC_DIFF_BOUNDARY_NS"

lemma sint_pps_filter:
  assumes "\<bar>sint x\<bar> \<le> 10000" and "\<bar>sint y\<bar> \<le> 10000"
  shows "sint (x - c_div (x - y) 10 :: i32) = sint x - (sint x - sint y) sdiv 10"
proof -
  have xy: "sint (x - y) = sint x - sint y" using assms by (intro sint32_diff) auto
  have c: "sint (c_div (x - y) 10) = (sint x - sint y) sdiv 10"
    using xy assms by (subst sint32_c_div) auto
  have "\<bar>sint x - (sint x - sint y) sdiv 10\<bar> \<le> 10000" using assms by (rule pps_filter_band)
  then show ?thesis unfolding c [symmetric] by (intro sint32_diff) auto
qed

lemma filter_ok_pps: "filter_ok w \<Longrightarrow> filter_ok (pps_received b w)"
  using sint_pps_filter [of "sync_diff_integrated_ns w"
      "pps_phase (tsu_nanosec (fst (tsu_get_time b (w\<lparr>last_pps_time_stamp := sUptime_mS w\<rparr>))))"]
    pps_filter_band [of "sint (sync_diff_integrated_ns w)" SYNC_DIFF_BOUNDARY_NS
      "sint (pps_phase (tsu_nanosec (fst (tsu_get_time b (w\<lparr>last_pps_time_stamp := sUptime_mS w\<rparr>)))))"]
  by (auto simp: filter_ok_def pps_received_def Let_def split_beta tsu_get_uptime_ms_def
      SYNC_DIFF_BOUNDARY_NS_def)

fun is_error_rx :: "ts_event \<Rightarrow> bool" where
  "is_error_rx (Error_rx e a) = True"
| "is_error_rx _ = False"

lemma filter_ok_step: "filter_ok w \<Longrightarrow> \<not> is_error_rx e \<Longrightarrow> filter_ok (ts_step b e w)"
proof (cases e)
  case Pulse
  assume "filter_ok w"
  then show ?thesis using Pulse by (simp add: filter_ok_pps)
qed (simp_all add: filter_ok_def coarse_time_received_def coarse_set_due_def fine_time_received_def
    coarse_timeout_def fine_timeout_def housekeeping_def log_state_def Let_def split_beta)

text \<open>
  C36: the pulse filter never winds up: over any run of events in which no other time source overwrites
  the error pair, the integrated pulse error stays within the ten microseconds that select fine tuning.
\<close>
theorem pps_filter_bounded:
  assumes "filter_ok w" and "\<forall>e \<in> set es. \<not> is_error_rx e"
  shows "\<bar>sint (sync_diff_integrated_ns (ts_run b es w))\<bar> \<le> 10000"
proof -
  have "filter_ok (ts_run b es w)"
    using assms by (induction es arbitrary: w) (auto intro: filter_ok_step)
  then show ?thesis by (simp add: filter_ok_def SYNC_DIFF_BOUNDARY_NS_def)
qed

theorem pps_filter_bounded_witness:
  "\<bar>sint (sync_diff_integrated_ns (ts_run (tick_bsp 1) [Fine_rx 0 0, Systick, Pulse] (timesync_boot 77)))\<bar>
    \<le> 10000"
  by (rule pps_filter_bounded) (simp_all add: filter_ok_def SYNC_DIFF_BOUNDARY_NS_def)

text \<open>
  A pulse in fine synchronisation whose phase error exceeds ten microseconds while the last coarse
  message is less than a second old re-sets the clock to the second after that message plus the
  latency correction, and clears the integrated error; with an older coarse message nothing is set.
\<close>
lemma pps_hard_set:
  assumes fine: "status w = TS_FINE"
    and age: "PPS_PERIOD_LOW \<le> sint (sUptime_mS w - last_pps_time_stamp w)"
      "sint (sUptime_mS w - last_pps_time_stamp w) \<le> PPS_PERIOD_HIGH"
    and off: "\<bar>sint (pps_phase (tsu_nanosec (fst (tsu_get_time b w))))\<bar> > SYNC_DIFF_BOUNDARY_NS"
  shows "hw (pps_received b w) =
      (if sint (sUptime_mS w - last_coarse_time_stamp w) < COARSE_TIME_AGE_MAX
       then xil_out32 b TSU_TIMER_SEC_GEM0 (ucast (last_coarse_time_value w + 1))
              (xil_out32 b TSU_TIMER_NS_GEM0 1200 (hw (snd (tsu_get_time b w))))
       else hw (snd (tsu_get_time b w))) \<and>
    sync_diff_integrated_ns (pps_received b w) =
      (if sint (sUptime_mS w - last_coarse_time_stamp w) < COARSE_TIME_AGE_MAX then 0
       else sync_diff_integrated_ns w)"
proof -
  have g: "tsu_get_time b (w\<lparr>last_pps_time_stamp := x\<rparr>) =
      (fst (tsu_get_time b w), (snd (tsu_get_time b w))\<lparr>last_pps_time_stamp := x\<rparr>)" for x
    by (simp add: tsu_get_time_def read_reg_def Let_def split_beta)
  have "(ucast (ucast (ucast (x :: i64) :: u32) :: u64) :: u32) = ucast x" for x
    by (simp add: ucast_down_ucast_id is_down)
  with fine age off show ?thesis
    by (auto simp: pps_received_def Let_def split_beta tsu_get_uptime_ms_def tsu_set_time_def
        write_reg_def PPS_LATENCY_CORRECTION_NS_def g)
qed

lemma pps_hard_set_example:
  "hw (pps_received (tick_bsp 0)
     ((timesync_boot 3500000000)\<lparr>status := TS_FINE, sUptime_mS := 1000, last_coarse_time_stamp := 500,
        last_coarse_time_value := 3\<rparr>)) = 4000001200"
proof -
  let ?w = "(timesync_boot 3500000000)\<lparr>status := TS_FINE, sUptime_mS := 1000,
      last_coarse_time_stamp := 500, last_coarse_time_value := 3\<rparr> :: nat timesync"
  have t: "tsu_get_time (tick_bsp 0) ?w = (\<lparr>tsu_seconds = 3, tsu_nanosec = 500000000\<rparr>, ?w)"
    by (simp add: tsu_get_time_def read_reg_def tick_bsp_def tsu_reg_defs)
  have "hw (pps_received (tick_bsp 0) ?w) =
      (if sint (sUptime_mS ?w - last_coarse_time_stamp ?w) < COARSE_TIME_AGE_MAX
       then xil_out32 (tick_bsp 0) TSU_TIMER_SEC_GEM0 (ucast (last_coarse_time_value ?w + 1))
              (xil_out32 (tick_bsp 0) TSU_TIMER_NS_GEM0 1200 (hw (snd (tsu_get_time (tick_bsp 0) ?w))))
       else hw (snd (tsu_get_time (tick_bsp 0) ?w)))"
    by (rule pps_hard_set [THEN conjunct1])
       (simp_all add: t pps_phase_def pps_consts Let_def)
  then show ?thesis
    by (simp add: t COARSE_TIME_AGE_MAX_def tick_bsp_def tsu_reg_defs)
qed

end
