(* ===== verification/Ptp.thy ===== *)
theory Ptp
  imports Lwip Timesync
begin

text \<open>
  The PTP client over UDP, \<open>IEEE1588/ptp.c\<close> and \<open>ptp.h\<close>: the clock controller that the interpreter reports
  time differences to, the sender of delay requests, the UDP receiver and the start-up. The statics
  of the file that are not function pointers extend the record of the state machine; the pointer
  \<open>init_params\<close>, whose target holds functions over that record, is a field of the node record that
  wraps it together with the registered call-backs and the interpreter's statics.
\<close>

section \<open>Constants and state\<close>

definition PTP_EVENT_MSG_PORT :: u16 where "PTP_EVENT_MSG_PORT = 319"
definition PTP_GEN_MSG_PORT :: u16 where "PTP_GEN_MSG_PORT = 320"
definition PTP_MAX_ERR_NS :: i32 where "PTP_MAX_ERR_NS = 500"
definition PTP_MULTICAST_IPV4_ADDR32 :: u32 where "PTP_MULTICAST_IPV4_ADDR32 = 0x810100E0"

text \<open>\<open>ptp_integrated_ns\<close> is the function static of \<open>ptp_process_time_diff\<close>.\<close>

record 'h ptp = "'h timesync" +
  ptp_stop :: bool
  ptp_integrated_ns :: i32
  group_addr :: u32
  udp_bound :: bool

record 'h ptp_node =
  nd_params :: "'h ptp timesync_init_param option"
  nd_cbs :: "'h ptp ptp_sync_cbs"
  nd_sync :: ptp_sync_state
  nd_world :: "'h ptp"

definition ptp_boot :: "'h \<Rightarrow> 'h ptp" where
  "ptp_boot h = timesync.extend (timesync_boot h)
     \<lparr>ptp_stop = False, ptp_integrated_ns = 0, group_addr = 0, udp_bound = False\<rparr>"

definition node_boot :: "'h \<Rightarrow> 'h ptp_node" where
  "node_boot h = \<lparr>nd_params = None, nd_cbs = no_cbs, nd_sync = ptp_sync_boot, nd_world = ptp_boot h\<rparr>"

section \<open>Operations\<close>

definition get_systime :: "'h bsp \<Rightarrow> 'h ptp \<Rightarrow> ptp_timestamp_t \<times> 'h ptp" where
  "get_systime b w =
     (let (tsu, w1) = tsu_get_time b w
      in (\<lparr>seconds = tsu_seconds tsu, nanosec = tsu_nanosec tsu\<rparr>, w1))"

definition lw :: "('h \<Rightarrow> 'h) \<Rightarrow> 'h ptp \<Rightarrow> 'h ptp" where
  "lw f w = w\<lparr>hw := f (hw w)\<rparr>"

definition ptp_start_sync :: "'h lwip \<Rightarrow> 'h ptp \<Rightarrow> 'h ptp" where
  "ptp_start_sync l w = lw (lw_igmp_joingroup_netif l (group_addr w)) w"

definition set_gptp_param :: "'h ptp timesync_init_param \<Rightarrow> 'h ptp_node \<Rightarrow> 'h ptp_node" where
  "set_gptp_param ip nd = nd\<lparr>nd_params := Some ip\<rparr>"

definition ptp_process_time_diff ::
  "'h bsp \<Rightarrow> 'h ptp timesync_init_param option \<Rightarrow> i32 \<Rightarrow> ptp_timestamp_t \<Rightarrow> ptp_timestamp_t \<Rightarrow>
   'h ptp \<Rightarrow> fault + 'h ptp" where
  "ptp_process_time_diff b params offset sync_ts diff_ts w =
     (case params of None \<Rightarrow> Inl Null_deref
      | Some ip \<Rightarrow> Inr (
          if seconds diff_ts \<noteq> 0 then
            (case ip_coarse_time_received ip of None \<Rightarrow> w
             | Some f \<Rightarrow> (f (seconds sync_ts) (nanosec sync_ts) w)\<lparr>ptp_integrated_ns := 0\<rparr>)
          else
            (let w1 = w\<lparr>ptp_integrated_ns := ptp_integrated_ns w + nanosec diff_ts\<rparr>;
                 w2 = tsu_clock_fine_tune (nanosec diff_ts) (ptp_integrated_ns w1) PTP_MAX_ERR_NS w1;
                 w3 = tsu_systick_cb b w2;
                 w4 = (case ip_fine_time_received ip of None \<Rightarrow> w3 | Some f \<Rightarrow> f 0 0 w3)
             in (case ip_error_report ip of None \<Rightarrow> w4
                 | Some f \<Rightarrow> f (nanosec diff_ts) (ptp_integrated_ns w4) w4))))"

text \<open>The buffer returned by \<open>pbuf_alloc\<close> is used without a check for null.\<close>

definition ptp_send_delay_request :: "'h lwip \<Rightarrow> u8 list \<Rightarrow> 'h ptp \<Rightarrow> fault + 'h ptp" where
  "ptp_send_delay_request l msg w =
     (let (pcb, h1) = lw_udp_new l (hw w);
          (p, h2) = lw_pbuf_alloc l PBUF_TRANSPORT (length msg) h1
      in (case p of None \<Rightarrow> Inl Null_deref
          | Some p \<Rightarrow>
              (let h3 = lw_pbuf_set_len l p (length msg) h2;
                   h4 = lw_pbuf_store l p msg h3;
                   h5 = lw_udp_sendto l pcb p (group_addr w) PTP_EVENT_MSG_PORT h4;
                   h6 = lw_pbuf_free l p h5;
                   h7 = lw_udp_remove l pcb h6
               in Inr (w\<lparr>hw := h7\<rparr>))))"

definition ptp_msg_interpreter :: "'h lwip \<Rightarrow> nat \<Rightarrow> 'h ptp_node \<Rightarrow> fault + 'h ptp_node" where
  "ptp_msg_interpreter l p nd =
     bind_sum (ptp_sync_interpreter (nd_cbs nd) (lw_pbuf_msg l p (hw (nd_world nd))) (nd_sync nd) (nd_world nd))
       (\<lambda>(stat, s, w). Inr (nd\<lparr>nd_sync := s, nd_world := lw (lw_pbuf_free l p) w\<rparr>))"

definition bind_port :: "'h lwip \<Rightarrow> u16 \<Rightarrow> 'h ptp \<Rightarrow> 'h ptp" where
  "bind_port l port w =
     (let (pcb, h1) = lw_udp_new l (hw w)
      in (case pcb of None \<Rightarrow> w\<lparr>hw := h1\<rparr>
          | Some pcb \<Rightarrow> w\<lparr>hw := lw_udp_recv l pcb (lw_udp_bind l pcb port h1)\<rparr>))"

definition bind_udp_receiver :: "'h lwip \<Rightarrow> 'h ptp \<Rightarrow> 'h ptp" where
  "bind_udp_receiver l w =
     (if udp_bound w then w
      else bind_port l PTP_GEN_MSG_PORT (bind_port l PTP_EVENT_MSG_PORT (w\<lparr>udp_bound := True\<rparr>)))"

definition handle_ptp :: "'h ptp_node \<Rightarrow> fault + 'h ptp_node" where
  "handle_ptp nd =
     (case nd_params nd of None \<Rightarrow> Inl Null_deref
      | Some ip \<Rightarrow> Inr (case ip_housekeeping ip of None \<Rightarrow> nd | Some f \<Rightarrow> nd\<lparr>nd_world := f (nd_world nd)\<rparr>))"

definition ptp_cleanup :: "'h ptp \<Rightarrow> 'h ptp" where
  "ptp_cleanup w = w\<lparr>ptp_stop := True\<rparr>"

text \<open>\<open>IP4_ADDR\<close> stores the four octets in network order, the first in the lowest byte of the word.\<close>

definition IP4_ADDR :: "u32 \<Rightarrow> u32 \<Rightarrow> u32 \<Rightarrow> u32 \<Rightarrow> u32" where
  "IP4_ADDR a c d e = a OR push_bit 8 c OR push_bit 16 d OR push_bit 24 e"

text \<open>
  The function registered as report call-back reads \<open>init_params\<close> when it is called; nothing changes
  the pointer after start-up, so the registration fixes its value.
\<close>

definition init_ptp_task :: "'h bsp \<Rightarrow> 'h lwip \<Rightarrow> rat \<Rightarrow> 'h ptp_node \<Rightarrow> i32 \<times> 'h ptp_node" where
  "init_ptp_task b l q nd =
     (let w1 = init_tsu b q (nd_world nd);
          c1 = ptp_sync_register_gettime_cb (get_systime b) (nd_cbs nd);
          c2 = ptp_sync_register_report_diff_cb (ptp_process_time_diff b (nd_params nd)) c1;
          c3 = ptp_sync_register_delay_req_cb (ptp_send_delay_request l) c2;
          w2 = bind_udp_receiver l w1;
          w3 = w2\<lparr>group_addr := IP4_ADDR 224 0 1 129\<rparr>;
          w4 = ptp_start_sync l w3
      in (0, nd\<lparr>nd_cbs := c3, nd_world := w4\<rparr>))"

definition ptp_init ::
  "'h bsp \<Rightarrow> 'h lwip \<Rightarrow> rat \<Rightarrow> 'h ptp timesync_init_param \<Rightarrow> 'h ptp_node \<Rightarrow> 'h ptp_node" where
  "ptp_init b l q ip nd = snd (init_ptp_task b l q (nd\<lparr>nd_params := Some ip\<rparr>))"

section \<open>The contract of a time service\<close>

text \<open>
  What a time source relies on in the parameter block it is given: an invariant of the world that the
  registered handlers keep, and that the clock driver's own operations keep. The client's lemmas are
  that a reported difference and housekeeping keep it.
\<close>

locale time_service =
  fixes b :: "'h bsp" and ip :: "'h ptp timesync_init_param" and inv :: "'h ptp \<Rightarrow> bool"
  assumes tick: "inv w \<Longrightarrow> inv (tsu_systick_cb b w)"
    and tune: "inv w \<Longrightarrow> inv (tsu_clock_fine_tune e i bd w)"
    and clock_read: "inv w \<Longrightarrow> inv (snd (tsu_get_time b w))"
    and own: "inv w \<Longrightarrow> inv (w\<lparr>ptp_integrated_ns := x\<rparr>)"
    and coarse: "ip_coarse_time_received ip = Some f \<Longrightarrow> inv w \<Longrightarrow> inv (f s ns w)"
    and fine: "ip_fine_time_received ip = Some g \<Longrightarrow> inv w \<Longrightarrow> inv (g 0 0 w)"
    and error_report: "ip_error_report ip = Some r \<Longrightarrow> inv w \<Longrightarrow> inv (r e a w)"
    and housekeep: "ip_housekeeping ip = Some k \<Longrightarrow> inv w \<Longrightarrow> inv (k w)"
begin

lemma process_keeps:
  assumes "inv w"
  shows "\<exists>w'. ptp_process_time_diff b (Some ip) off a d w = Inr w' \<and> inv w'"
proof -
  let ?w1 = "w\<lparr>ptp_integrated_ns := ptp_integrated_ns w + nanosec d\<rparr>"
  let ?w3 = "tsu_systick_cb b (tsu_clock_fine_tune (nanosec d) (ptp_integrated_ns ?w1) PTP_MAX_ERR_NS ?w1)"
  let ?w4 = "case ip_fine_time_received ip of None \<Rightarrow> ?w3 | Some f \<Rightarrow> f 0 0 ?w3"
  have w3: "inv ?w3" by (rule tick [OF tune [OF own [OF assms]]])
  then have w4: "inv ?w4" by (cases "ip_fine_time_received ip") (simp_all add: fine)
  show ?thesis
  proof (cases "seconds d = 0")
    case True
    then show ?thesis using w4
      by (cases "ip_error_report ip") (simp_all add: ptp_process_time_diff_def Let_def error_report)
  next
    case False
    then show ?thesis using assms
      by (cases "ip_coarse_time_received ip") (simp_all add: ptp_process_time_diff_def own coarse)
  qed
qed

lemma systime_keeps: "inv w \<Longrightarrow> inv (snd (get_systime b w))"
  by (simp add: get_systime_def split_beta clock_read)

lemma housekeeping_keeps:
  assumes "nd_params nd = Some ip" and "inv (nd_world nd)"
  shows "\<exists>nd'. handle_ptp nd = Inr nd' \<and> inv (nd_world nd')"
  using assms by (auto simp: handle_ptp_def housekeep split: option.splits)

end

text \<open>
  A time source that sends its requests over the stack: sending keeps the invariant, and can only stop
  on a null buffer, which needs a stack whose supply of buffers may end.
\<close>

definition pbuf_supply :: "'h lwip \<Rightarrow> bool" where
  "pbuf_supply l \<longleftrightarrow> (\<forall>y n h. fst (lw_pbuf_alloc l y n h) \<noteq> None)"

locale udp_time_source = time_service b ip inv
  for b :: "'h bsp" and ip :: "'h ptp timesync_init_param" and inv :: "'h ptp \<Rightarrow> bool" +
  fixes l :: "'h lwip"
  assumes sent: "inv w \<Longrightarrow> ptp_send_delay_request l bs w = Inr w' \<Longrightarrow> inv w'"
begin

lemma send_outcome:
  "ptp_send_delay_request l bs w = Inl f \<Longrightarrow> f = Null_deref \<and> \<not> pbuf_supply l"
  by (auto simp: ptp_send_delay_request_def pbuf_supply_def Let_def split_beta split: option.splits)

end

sublocale udp_time_source \<subseteq> callbacks: sync_callbacks "get_systime b" "ptp_process_time_diff b (Some ip)"
  "ptp_send_delay_request l" inv "\<lambda>f. f = Null_deref \<and> \<not> pbuf_supply l"
proof
  show "inv w \<Longrightarrow> inv (snd (get_systime b w))" for w by (rule systime_keeps)
  show "inv w \<Longrightarrow> \<exists>w'. ptp_process_time_diff b (Some ip) off a d w = Inr w' \<and> inv w'" for w off a d
    by (rule process_keeps)
  show "(\<exists>f. ptp_send_delay_request l bs w = Inl f \<and> f = Null_deref \<and> \<not> pbuf_supply l) \<or>
      (\<exists>w'. ptp_send_delay_request l bs w = Inr w' \<and> inv w')" if "inv w" "length bs = 44" for w bs
    using sent [OF that(1), of bs] send_outcome [of bs w]
    by (cases "ptp_send_delay_request l bs w") auto
qed

section \<open>The invariant of a node\<close>

text \<open>A predicate of the environment that register accesses keep is kept by every handler.\<close>

definition hw_quiet :: "'h bsp \<Rightarrow> ('h \<Rightarrow> bool) \<Rightarrow> bool" where
  "hw_quiet b P \<longleftrightarrow> (\<forall>h a. P h \<longrightarrow> P (snd (xil_in32 b a h))) \<and> (\<forall>h a v. P h \<longrightarrow> P (xil_out32 b a v h))"

lemma hw_quiet_io:
  assumes "hw_quiet b P" and "P (hw w)"
  shows "P (hw (snd (tsu_get_time b w)))" "P (hw (tsu_set_time b ts w))" "P (hw (tsu_systick_cb b w))"
    "P (hw (init_tsu b q w))"
  using assms
  by (simp_all add: hw_quiet_def tsu_get_time_def tsu_set_time_def tsu_systick_cb_def init_tsu_def
      tsu_driver_adjust_time_def read_reg_def write_reg_def Let_def split_beta)

lemma hw_quiet_step:
  assumes q: "hw_quiet b P" and p: "P (hw w)"
  shows "P (hw (ts_step b e w))"
proof -
  note io = hw_quiet_io [OF q]
  have c: "P (hw (snd (coarse_set_due w')))" if "P (hw w')" for w' :: "('a, 'b) timesync_scheme"
    using that by (simp add: coarse_set_due_def Let_def)
  show ?thesis
    using p
    by (cases e)
       (auto simp: coarse_time_received_def fine_time_received_def pps_received_def coarse_timeout_def
         fine_timeout_def housekeeping_def log_state_def update_error_def Let_def split_beta
         intro!: io c)
qed

definition node_inv ::
  "'h bsp \<Rightarrow> 'h lwip \<Rightarrow> ('h \<Rightarrow> int) \<Rightarrow> ('h \<Rightarrow> int) \<Rightarrow> int \<Rightarrow> int \<Rightarrow> 'h ptp \<Rightarrow> bool" where
  "node_inv b l refs pcbs n k w \<longleftrightarrow>
     service_inv w \<and> counter_ok w \<and> adj_reserved (fine_tune_register w) = 0 \<and>
     (net_pool b l refs pcbs \<longrightarrow> refs (hw w) = n \<and> pcbs (hw w) = k)"

lemma pool_quiet: "hw_quiet b (\<lambda>h. net_pool b l refs pcbs \<longrightarrow> refs h = n \<and> pcbs h = k)"
  by (auto simp: hw_quiet_def net_pool_def)

lemma reserved_step: "adj_reserved (fine_tune_register (ts_step b e w)) = adj_reserved (fine_tune_register w)"
  by (cases e)
     (simp_all add: coarse_time_received_def coarse_set_due_def fine_time_received_def pps_received_def
       coarse_timeout_def fine_timeout_def housekeeping_def log_state_def update_error_def Let_def
       split_beta systick_writes_register)

lemma node_inv_step: "node_inv b l refs pcbs n k w \<Longrightarrow> node_inv b l refs pcbs n k (ts_step b e w)"
  using hw_quiet_step [OF pool_quiet [of b l refs pcbs n k], where w = w and e = e]
  by (simp add: node_inv_def service_inv_step counter_ok_step reserved_step)

lemma node_inv_hw:
  assumes "node_inv b l refs pcbs n k w"
    and "net_pool b l refs pcbs \<Longrightarrow> refs h = m \<and> pcbs h = j"
  shows "node_inv b l refs pcbs m j (w\<lparr>hw := h\<rparr>)"
  using assms by (cases "status w"; simp add: node_inv_def service_inv_def counter_ok_def)

lemma node_inv_own: "node_inv b l refs pcbs n k w \<Longrightarrow> node_inv b l refs pcbs n k (w\<lparr>ptp_integrated_ns := x\<rparr>)"
  by (cases "status w"; simp add: node_inv_def service_inv_def counter_ok_def)

lemma node_inv_handlers:
  assumes "node_inv b l refs pcbs n k w"
  shows "node_inv b l refs pcbs n k (tsu_systick_cb b w)"
    "node_inv b l refs pcbs n k (coarse_time_received b s ns w)"
    "node_inv b l refs pcbs n k (fine_time_received b s ns w)"
    "node_inv b l refs pcbs n k (update_error e a w)"
    "node_inv b l refs pcbs n k (housekeeping w)"
  using node_inv_step [OF assms, of Systick] node_inv_step [OF assms, of "Coarse_rx s ns"]
    node_inv_step [OF assms, of "Fine_rx s ns"] node_inv_step [OF assms, of "Error_rx e a"]
    node_inv_step [OF assms, of Housekeep]
  by simp_all

lemma node_inv_tune:
  assumes "node_inv b l refs pcbs n k w"
  shows "node_inv b l refs pcbs n k (tsu_clock_fine_tune e i bd w)"
  using assms
  by (cases "status w"; simp add: node_inv_def service_inv_def counter_ok_def)

lemma node_inv_read:
  assumes "node_inv b l refs pcbs n k w"
  shows "node_inv b l refs pcbs n k (snd (tsu_get_time b w))"
  using assms hw_quiet_io(1) [OF pool_quiet [of b l refs pcbs n k], of w]
  by (cases "status w"; simp add: node_inv_def service_inv_def counter_ok_def)

lemma send_hw:
  assumes "ptp_send_delay_request l bs w = Inr w'"
  shows "\<exists>h. w' = w\<lparr>hw := h\<rparr> \<and>
    (net_pool b l refs pcbs \<longrightarrow> refs h = refs (hw w) \<and> pcbs h = pcbs (hw w))"
proof -
  obtain pcb h1 where n: "lw_udp_new l (hw w) = (pcb, h1)" by fastforce
  obtain q h2 where a: "lw_pbuf_alloc l PBUF_TRANSPORT (length bs) h1 = (q, h2)" by fastforce
  obtain p where q: "q = Some p" using assms by (cases q) (simp_all add: ptp_send_delay_request_def n a)
  have n': "refs h1 = refs (hw w)" "pcbs h1 = pcbs (hw w) + held pcb" if "net_pool b l refs pcbs"
    using that n unfolding net_pool_def by (metis fst_conv snd_conv)+
  have a': "refs h2 = refs h1 + 1" "pcbs h2 = pcbs h1" if "net_pool b l refs pcbs"
    using that a q unfolding net_pool_def by (metis fst_conv snd_conv held_simps(2))+
  show ?thesis
    using assms n' a' by (auto simp: ptp_send_delay_request_def n a q net_pool_def)
qed

interpretation ptp_source: udp_time_source b "init_param b" "node_inv b l refs pcbs n k" l
  for b :: "'h bsp" and l refs pcbs n k
proof
  fix w :: "'h ptp" and w' :: "'h ptp" and e i bd x s ns a bs
  assume w: "node_inv b l refs pcbs n k w"
  show "node_inv b l refs pcbs n k (tsu_systick_cb b w)" using w by (rule node_inv_handlers)
  show "node_inv b l refs pcbs n k (tsu_clock_fine_tune e i bd w)" using w by (rule node_inv_tune)
  show "node_inv b l refs pcbs n k (snd (tsu_get_time b w))" using w by (rule node_inv_read)
  show "node_inv b l refs pcbs n k (w\<lparr>ptp_integrated_ns := x\<rparr>)" using w by (rule node_inv_own)
  show "node_inv b l refs pcbs n k (f s ns w)" if "ip_coarse_time_received (init_param b) = Some f" for f
    using that w by (auto simp: init_param_def intro: node_inv_handlers)
  show "node_inv b l refs pcbs n k (g 0 0 w)" if "ip_fine_time_received (init_param b) = Some g" for g
    using that w by (auto simp: init_param_def intro: node_inv_handlers)
  show "node_inv b l refs pcbs n k (r e a w)" if "ip_error_report (init_param b) = Some r" for r
    using that w by (auto simp: init_param_def intro: node_inv_handlers)
  show "node_inv b l refs pcbs n k (h w)" if "ip_housekeeping (init_param b) = Some h" for h
    using that w by (auto simp: init_param_def intro: node_inv_handlers)
  show "node_inv b l refs pcbs n k w'" if "ptp_send_delay_request l bs w = Inr w'"
    using send_hw [OF that, of b refs pcbs] w node_inv_hw [OF w]
    by (auto simp: node_inv_def)
qed

section \<open>The receiver after start-up\<close>

lemma init_task_effects:
  "nd_cbs (ptp_init b l q ip nd) =
     \<lparr>sSyscTimeCb = Some (get_systime b), sReportDiffCb = Some (ptp_process_time_diff b (Some ip)),
      sSendDlyReqCb = Some (ptp_send_delay_request l)\<rparr>"
  "nd_sync (ptp_init b l q ip nd) = nd_sync nd"
  "nd_params (ptp_init b l q ip nd) = Some ip"
  "group_addr (nd_world (ptp_init b l q ip nd)) = PTP_MULTICAST_IPV4_ADDR32"
  "udp_bound (nd_world (ptp_init b l q ip nd))"
  by (simp_all add: ptp_init_def init_ptp_task_def Let_def ptp_sync_register_gettime_cb_def
      ptp_sync_register_report_diff_cb_def ptp_sync_register_delay_req_cb_def ptp_start_sync_def
      lw_def IP4_ADDR_def PTP_MULTICAST_IPV4_ADDR32_def bind_udp_receiver_def bind_port_def split_beta
      split: option.splits)

fun ptp_rx_run :: "'h lwip \<Rightarrow> nat list \<Rightarrow> 'h ptp_node \<Rightarrow> fault + 'h ptp_node" where
  "ptp_rx_run l [] nd = Inr nd"
| "ptp_rx_run l (p # ps) nd = bind_sum (ptp_msg_interpreter l p nd) (ptp_rx_run l ps)"

lemma bind_port_effects:
  "\<exists>h. bind_port l port w = w\<lparr>hw := h\<rparr> \<and> (net_pool b l refs pcbs \<longrightarrow> refs h = refs (hw w))"
proof -
  obtain pcb h1 where n: "lw_udp_new l (hw w) = (pcb, h1)" by fastforce
  have n': "refs h1 = refs (hw w)" if "net_pool b l refs pcbs"
    using that n unfolding net_pool_def by (metis snd_conv)
  show ?thesis
    using n' by (cases pcb) (auto simp: bind_port_def n net_pool_def)
qed

lemma init_tsu_hw: "init_tsu b q w = w\<lparr>hw := hw (init_tsu b q w)\<rparr>"
  by (simp add: init_tsu_def write_reg_def read_reg_def Let_def split_beta)

lemma ptp_update_order:
  "(w :: 'h ptp)\<lparr>hw := h, udp_bound := x\<rparr> = w\<lparr>udp_bound := x, hw := h\<rparr>"
  by simp

lemma ptp_init_world:
  "\<exists>h. nd_world (ptp_init b l q ip nd) =
      (nd_world nd)\<lparr>hw := h, udp_bound := True, group_addr := PTP_MULTICAST_IPV4_ADDR32\<rparr> \<and>
    (net_pool b l refs pcbs \<longrightarrow> refs h = refs (hw (nd_world nd)))"
proof -
  let ?w = "nd_world nd"
  let ?w1 = "init_tsu b q ?w"
  have r1: "net_pool b l refs pcbs \<longrightarrow> refs (hw ?w1) = refs (hw ?w)"
    using hw_quiet_io(4) [OF pool_quiet [of b l refs pcbs "refs (hw ?w)" "pcbs (hw ?w)"], of ?w q] by simp
  obtain h1 where w1: "?w1 = ?w\<lparr>hw := h1\<rparr>" and h1: "net_pool b l refs pcbs \<longrightarrow> refs h1 = refs (hw ?w)"
    using init_tsu_hw [of b q ?w] r1 by blast
  have g: "IP4_ADDR 224 0 1 129 = PTP_MULTICAST_IPV4_ADDR32"
    by (simp add: IP4_ADDR_def PTP_MULTICAST_IPV4_ADDR32_def)
  have j: "net_pool b l refs pcbs \<longrightarrow> refs (lw_igmp_joingroup_netif l a h) = refs h" for a h
    by (simp add: net_pool_def)
  show ?thesis
  proof (cases "udp_bound ?w")
    case True
    then have u: "?w\<lparr>udp_bound := True\<rparr> = ?w" by simp
    have "?w\<lparr>hw := h, udp_bound := True, group_addr := a\<rparr> = ?w\<lparr>udp_bound := True\<rparr>\<lparr>hw := h, group_addr := a\<rparr>"
      for h a by simp
    then have e: "?w\<lparr>hw := h, udp_bound := True, group_addr := a\<rparr> = ?w\<lparr>hw := h, group_addr := a\<rparr>" for h a
      unfolding u .
    show ?thesis unfolding e
      using True h1 j
      by (intro exI [of _ "lw_igmp_joingroup_netif l PTP_MULTICAST_IPV4_ADDR32 h1"])
         (simp add: ptp_init_def init_ptp_task_def Let_def w1 bind_udp_receiver_def ptp_start_sync_def
           lw_def g)
  next
    case False
    obtain h2 where b2: "bind_port l PTP_EVENT_MSG_PORT (?w\<lparr>udp_bound := True, hw := h1\<rparr>) =
          ?w\<lparr>udp_bound := True, hw := h2\<rparr>"
        and h2: "net_pool b l refs pcbs \<longrightarrow> refs h2 = refs h1"
      using bind_port_effects [of l PTP_EVENT_MSG_PORT "?w\<lparr>udp_bound := True, hw := h1\<rparr>" b refs pcbs] by auto
    obtain h3 where b3: "bind_port l PTP_GEN_MSG_PORT (?w\<lparr>udp_bound := True, hw := h2\<rparr>) =
          ?w\<lparr>udp_bound := True, hw := h3\<rparr>"
        and h3: "net_pool b l refs pcbs \<longrightarrow> refs h3 = refs h2"
      using bind_port_effects [of l PTP_GEN_MSG_PORT "?w\<lparr>udp_bound := True, hw := h2\<rparr>" b refs pcbs] by auto
    show ?thesis
      using False h1 h2 h3 j by (simp add: ptp_init_def init_ptp_task_def Let_def w1 bind_udp_receiver_def
          ptp_start_sync_def lw_def g b2 b3 ptp_update_order)
        (intro exI [of _ "lw_igmp_joingroup_netif l PTP_MULTICAST_IPV4_ADDR32 h3"]; simp)
  qed
qed

definition full_messages :: "'h lwip \<Rightarrow> nat list \<Rightarrow> bool" where
  "full_messages l ps \<longleftrightarrow> (\<forall>p \<in> set ps. \<forall>h. 44 \<le> length (msg_bytes (lw_pbuf_msg l p h)))"

lemma node_inv_free:
  assumes "node_inv b l refs pcbs n k w"
  shows "node_inv b l refs pcbs (n - 1) k (lw (lw_pbuf_free l p) w)"
proof -
  have "refs (lw_pbuf_free l p (hw w)) = n - 1 \<and> pcbs (lw_pbuf_free l p (hw w)) = k"
    if "net_pool b l refs pcbs"
    using that assms by (auto simp: node_inv_def net_pool_def)
  then show ?thesis unfolding lw_def by (rule node_inv_hw [OF assms])
qed

text \<open>One received message, for any sender whose call-backs meet the contract with this invariant.\<close>

lemma rx_step:
  assumes cbs: "sync_callbacks rt rp sd (node_inv b l refs pcbs n k) sf"
      "nd_cbs nd = \<lparr>sSyscTimeCb = Some rt, sReportDiffCb = Some rp, sSendDlyReqCb = Some sd\<rparr>"
    and inv: "node_inv b l refs pcbs n k (nd_world nd)" "dr_clean (delay_req_msg (nd_sync nd))"
    and len: "44 \<le> length (msg_bytes (lw_pbuf_msg l p (hw (nd_world nd))))"
  shows "(\<exists>f. ptp_msg_interpreter l p nd = Inl f \<and> sf f) \<or>
    (\<exists>nd'. ptp_msg_interpreter l p nd = Inr nd' \<and> nd_cbs nd' = nd_cbs nd \<and>
       node_inv b l refs pcbs (n - 1) k (nd_world nd') \<and> dr_clean (delay_req_msg (nd_sync nd')))"
  using sync_callbacks.interpreter_step [OF cbs(1), of "nd_cbs nd" "nd_world nd" "nd_sync nd", OF _ _ _ inv len] cbs(2)
  by (auto simp: ptp_msg_interpreter_def intro: node_inv_free)

lemma rx_run_safe:
  assumes cbs: "\<And>n. sync_callbacks rt rp sd (node_inv b l refs pcbs n k) sf"
    and "nd_cbs nd = \<lparr>sSyscTimeCb = Some rt, sReportDiffCb = Some rp, sSendDlyReqCb = Some sd\<rparr>"
    and "node_inv b l refs pcbs n k (nd_world nd)" and "dr_clean (delay_req_msg (nd_sync nd))"
    and "full_messages l ps"
  shows "(\<exists>f. ptp_rx_run l ps nd = Inl f \<and> sf f) \<or>
    (\<exists>nd'. ptp_rx_run l ps nd = Inr nd' \<and>
       node_inv b l refs pcbs (n - int (length ps)) k (nd_world nd') \<and> dr_clean (delay_req_msg (nd_sync nd')))"
  using assms(2-)
proof (induction ps arbitrary: nd n)
  case Nil
  then show ?case by simp
next
  case (Cons p ps)
  from Cons.prems(4) have len: "44 \<le> length (msg_bytes (lw_pbuf_msg l p (hw (nd_world nd))))"
    and rest: "full_messages l ps" by (simp_all add: full_messages_def)
  from rx_step [OF cbs Cons.prems(1-3) len] show ?case
  proof (elim disjE exE conjE)
    fix f assume "ptp_msg_interpreter l p nd = Inl f" "sf f"
    then show ?thesis by simp
  next
    fix nd' assume s: "ptp_msg_interpreter l p nd = Inr nd'" "nd_cbs nd' = nd_cbs nd"
      "node_inv b l refs pcbs (n - 1) k (nd_world nd')" "dr_clean (delay_req_msg (nd_sync nd'))"
    from Cons.IH [OF _ s(3,4) rest] s(1,2) Cons.prems(1) show ?thesis
      by (simp add: algebra_simps)
  qed
qed

lemma ptp_init_inv:
  defines "nd0 \<equiv> \<lambda>b l q h. ptp_init b l q (init_param b) (node_boot h)"
  shows "node_inv b l refs pcbs (refs h) (pcbs (hw (nd_world (nd0 b l q h)))) (nd_world (nd0 b l q h))"
proof -
  obtain h' where w: "nd_world (nd0 b l q h) =
      (ptp_boot h)\<lparr>hw := h', udp_bound := True, group_addr := PTP_MULTICAST_IPV4_ADDR32\<rparr>"
    and r: "net_pool b l refs pcbs \<longrightarrow> refs h' = refs h"
    using ptp_init_world [of b l q "init_param b" "node_boot h" refs pcbs]
    by (auto simp: nd0_def node_boot_def ptp_boot_def timesync.defs timesync_boot_def tsu.defs tsu_boot_def)
  show ?thesis
    unfolding w using r
    by (simp add: node_inv_def service_inv_def counter_ok_def ptp_boot_def timesync.defs timesync_boot_def
        tsu.defs tsu_boot_def RESYNC_COARSE_TIME_def adj_reserved_def)
qed

text \<open>
  C2: after start-up with the handlers of the state machine, the receiver is safe on every sequence of
  received buffers that hold complete messages: it handles all of them, keeps the invariant of the state
  machine and frees every buffer it was given, with no buffer and no control block kept back; the only
  way it can stop is the unchecked null pointer of a send when the stack has run out of buffers.
\<close>
theorem ptp_receiver_safe:
  assumes "full_messages l ps" and "net_pool b l refs pcbs"
    and "nd0 = ptp_init b l q (init_param b) (node_boot h)"
  shows "ptp_rx_run l ps nd0 = Inl Null_deref \<and> \<not> pbuf_supply l \<or>
    (\<exists>nd. ptp_rx_run l ps nd0 = Inr nd \<and> service_inv (nd_world nd) \<and> counter_ok (nd_world nd) \<and>
       refs (hw (nd_world nd)) = refs h - int (length ps) \<and>
       pcbs (hw (nd_world nd)) = pcbs (hw (nd_world nd0)))"
proof -
  have cbs: "sync_callbacks (get_systime b) (ptp_process_time_diff b (Some (init_param b)))
      (ptp_send_delay_request l) (node_inv b l refs pcbs n (pcbs (hw (nd_world nd0))))
      (\<lambda>f. f = Null_deref \<and> \<not> pbuf_supply l)" for n
    by (rule ptp_source.callbacks.sync_callbacks_axioms)
  have "dr_clean (delay_req_msg (nd_sync nd0))"
    by (simp add: assms(3) init_task_effects node_boot_def ptp_sync_boot_def)
  then show ?thesis
    using rx_run_safe [OF cbs _ _ _ assms(1), where n = "refs h" and nd = nd0]
      ptp_init_inv [of b l refs pcbs h q] assms(2)
    by (auto simp: assms(3) init_task_effects node_inv_def)
qed

definition demo_sync :: ptp_msg where
  "demo_sync = \<lparr>msg_addr = 1, msg_bytes = 0x10 # replicate 43 0\<rparr>"

definition demo_lwip :: "sim lwip" where
  "demo_lwip = sim_lwip [demo_sync, demo_sync]"

lemma demo_lwip_msg: "p = 0 \<or> p = 1 \<Longrightarrow> lw_pbuf_msg demo_lwip p h = demo_sync"
  by (auto simp: demo_lwip_def sim_lwip_def)

lemma demo_net_pool: "net_pool sim_bsp demo_lwip sim_refs sim_pcbs"
  unfolding demo_lwip_def by (rule sim_net_pool)

lemma demo_sync_handled:
  "sSyscTimeCb c = Some rt \<Longrightarrow>
     ptp_sync_interpreter c demo_sync s w = Inr (PTP_MSG_OK, s\<lparr>pSync := Some 1, st_t2 := fst (rt w)\<rparr>, snd (rt w))"
  by (subst interpreter_sync [of demo_sync c rt]) (simp_all add: msg_ty_def demo_sync_def)

theorem ptp_receiver_safe_witness:
  "\<exists>nd. ptp_rx_run demo_lwip [0, 1] (ptp_init sim_bsp demo_lwip 4 (init_param sim_bsp) (node_boot sim0)) =
      Inr nd \<and> sim_refs (hw (nd_world nd)) = - 2"
proof -
  let ?nd0 = "ptp_init sim_bsp demo_lwip 4 (init_param sim_bsp) (node_boot sim0)"
  have "\<exists>nd. ptp_rx_run demo_lwip [0, 1] ?nd0 = Inr nd"
    by (simp add: ptp_msg_interpreter_def demo_lwip_msg demo_sync_handled [of _ "get_systime sim_bsp"]
        init_task_effects)
  moreover have "full_messages demo_lwip [0, 1]"
    by (simp add: full_messages_def demo_lwip_msg demo_sync_def)
  ultimately show ?thesis
    using ptp_receiver_safe [OF _ demo_net_pool refl,
        of "[0, 1]" 4 sim0]
    by (auto simp: sim0_def)
qed

end
