(* ===== verification/Controller.thy ===== *)
theory Controller
  imports Ptp
begin

text \<open>
  The clock controller, \<open>ptp_process_time_diff\<close> of \<open>IEEE1588/ptp.c\<close> together with the handlers of the state
  machine and the fine tuning register: what one report does to the hardware clock, what a sequence
  of reports does, and the closed loop in which the reported difference is the true distance between
  the clock and a master.
\<close>

section \<open>One report\<close>

lemma ptp_more_frame [simp]:
  "timesync.more (update_error e a w) = timesync.more w"
  "timesync.more (fine_time_received b 0 0 w) = timesync.more w"
  by (simp_all add: update_error_def fine_time_received_def)

lemma integrated_frame [simp]:
  "ptp_integrated_ns (tsu_clock_fine_tune e i bd w) = ptp_integrated_ns w"
  "ptp_integrated_ns (tsu_systick_cb b w) = ptp_integrated_ns w"
  "ptp_integrated_ns (fine_time_received b 0 0 w) = ptp_integrated_ns w"
  "ptp_integrated_ns (update_error e a w) = ptp_integrated_ns w"
  by (simp_all add: tsu_clock_fine_tune_def tsu_systick_cb_def tsu_driver_adjust_time_def write_reg_def
      fine_time_received_def update_error_def Let_def)

text \<open>The report of a difference below a second, as the code's handlers act on it.\<close>

definition fine_report :: "'h bsp \<Rightarrow> i32 \<Rightarrow> 'h ptp \<Rightarrow> 'h ptp" where
  "fine_report b e w = projr (ptp_process_time_diff b (Some (init_param b)) 0 zero_ts
     \<lparr>seconds = 0, nanosec = e\<rparr> w)"

lemma process_fine:
  "seconds d = 0 \<Longrightarrow>
    ptp_process_time_diff b (Some (init_param b)) off a d w = Inr (fine_report b (nanosec d) w)"
  by (simp add: ptp_process_time_diff_def fine_report_def init_param_def Let_def)

lemma fine_report_effects:
  "ptp_integrated_ns (fine_report b e w) = ptp_integrated_ns w + e"
  "fine_tune_register (fine_report b e w) =
     fine_tune_register (tsu_clock_fine_tune e (ptp_integrated_ns w + e) PTP_MAX_ERR_NS w)"
  "hw (fine_report b e w) = xil_out32 b TSU_TIMER_ADJUST (fine_tune_register (fine_report b e w)) (hw w)"
  "status (fine_report b e w) = TS_FINE"
  "sUptime_mS (fine_report b e w) = sUptime_mS w + 1"
  by (simp_all add: fine_report_def ptp_process_time_diff_def init_param_def Let_def update_error_def
      fine_time_received_def systick_writes_register tsu_clock_fine_tune_def)

lemma process_coarse:
  "seconds d \<noteq> 0 \<Longrightarrow> ptp_process_time_diff b (Some (init_param b)) off a d w =
    Inr ((coarse_time_received b (seconds a) (nanosec a) w)\<lparr>ptp_integrated_ns := 0\<rparr>)"
  by (simp add: ptp_process_time_diff_def init_param_def)

lemma sint_500 [simp]: "sint (PTP_MAX_ERR_NS) = 500"
  by (simp add: PTP_MAX_ERR_NS_def)

lemma fine_report_field:
  assumes hwm: "tsu_hw_write b now"
    and f: "\<bar>sint e\<bar> < 10 ^ 9" "\<not> dead_band e (ptp_integrated_ns w + e) 500"
  shows "now (hw (fine_report b e w)) = nat (int (now (hw w)) + adj30 (freq_adj e (ptp_integrated_ns w + e)))"
proof -
  have "adj_value (fine_tune_register (fine_report b e w)) = adj30 (freq_adj e (ptp_integrated_ns w + e))"
    using fine_tune_register_field [OF freq_adj_bound [OF f(1)], of PTP_MAX_ERR_NS "ptp_integrated_ns w + e" w] f(2)
    by (simp add: fine_report_effects)
  then show ?thesis using hwm by (simp add: fine_report_effects(3) tsu_hw_write_def)
qed

lemma fine_report_moves:
  assumes hwm: "tsu_hw_write b now"
    and f: "\<bar>freq_adj e (ptp_integrated_ns w + e)\<bar> < 2 ^ 30" "\<not> dead_band e (ptp_integrated_ns w + e) 500"
  shows "now (hw (fine_report b e w)) = nat (int (now (hw w)) + freq_adj e (ptp_integrated_ns w + e))"
    and "adj_value (fine_tune_register (fine_report b e w)) = freq_adj e (ptp_integrated_ns w + e)"
proof -
  show a: "adj_value (fine_tune_register (fine_report b e w)) = freq_adj e (ptp_integrated_ns w + e)"
    using fine_tune_register_correction [of e "ptp_integrated_ns w + e" PTP_MAX_ERR_NS w] f
    by (simp add: fine_report_effects)
  show "now (hw (fine_report b e w)) = nat (int (now (hw w)) + freq_adj e (ptp_integrated_ns w + e))"
    using hwm a by (simp add: fine_report_effects(3) tsu_hw_write_def)
qed

text \<open>
  C29: one reported difference below a second, outside the dead band, adds \<open>e\<close> to the integral, puts the
  state machine into fine synchronisation and moves the hardware clock by \<open>f = e + (I + e) / 20\<close>
  nanoseconds (\<open>e\<close> the difference, \<open>I\<close> the integral before it, division truncating) as far as the
  adjustment register holds it: by exactly \<open>f\<close> when the magnitude of \<open>f\<close> is below \<open>2 ^ 30\<close>, and otherwise, which a
  difference of more than 0.96 seconds with a large integral of the same sign reaches, only by what exceeds
  \<open>2 ^ 30\<close>. \<open>e\<close> is the nanoseconds of a difference of normalised time stamps, so less than a second.
\<close>
theorem report_applies_correction:
  assumes "tsu_hw_write b now" and "seconds d = 0" and "\<bar>sint (nanosec d)\<bar> < 10 ^ 9"
    and "\<not> dead_band (nanosec d) (ptp_integrated_ns w + nanosec d) 500"
  shows "\<exists>w'. ptp_process_time_diff b (Some (init_param b)) off a d w = Inr w' \<and>
    (let f = freq_adj (nanosec d) (ptp_integrated_ns w + nanosec d) in
       \<bar>f\<bar> < 2 ^ 31 \<and>
       now (hw w') = nat (int (now (hw w)) + (if \<bar>f\<bar> < 2 ^ 30 then f else f - sgn f * 2 ^ 30))) \<and>
    ptp_integrated_ns w' = ptp_integrated_ns w + nanosec d \<and> status w' = TS_FINE"
  using fine_report_field [OF assms(1,3,4)] freq_adj_bound [OF assms(3)]
  by (intro exI [of _ "fine_report b (nanosec d) w"])
     (simp add: process_fine [OF assms(2)] fine_report_effects(1,4) adj30_cases Let_def)

theorem report_applies_correction_witness:
  "\<exists>w'. ptp_process_time_diff (tick_bsp 0) (Some (init_param (tick_bsp 0))) 0 zero_ts
      \<lparr>seconds = 0, nanosec = 100000\<rparr> (ptp_boot 1000000) = Inr w' \<and> hw w' = 1105000"
proof -
  have w: "ptp_integrated_ns (ptp_boot (1000000::nat)) = 0" "hw (ptp_boot (1000000::nat)) = 1000000"
    by (simp_all add: ptp_boot_def timesync.defs timesync_boot_def tsu.defs tsu_boot_def)
  have f: "freq_adj 100000 100000 = 105000" by (simp add: freq_adj_def sdiv_pos)
  show ?thesis
    using report_applies_correction [OF tick_bsp_hw_write [of 0],
        of "\<lparr>seconds = 0, nanosec = 100000\<rparr>" "ptp_boot 1000000" 0 zero_ts]
    by (auto simp: w f dead_band_def)
qed

section \<open>Sequences of reports\<close>

fun report_run ::
  "'h bsp \<Rightarrow> (ptp_timestamp_t \<times> ptp_timestamp_t) list \<Rightarrow> 'h ptp \<Rightarrow> fault + 'h ptp" where
  "report_run b [] w = Inr w"
| "report_run b ((a, d) # rs) w =
     bind_sum (ptp_process_time_diff b (Some (init_param b)) 0 a d w) (report_run b rs)"

fun dead_run :: "i32 \<Rightarrow> i32 list \<Rightarrow> bool" where
  "dead_run i [] = True"
| "dead_run i (e # es) = (dead_band e (i + e) 500 \<and> dead_run (i + e) es)"

lemma fine_report_dead:
  assumes "dead_band e (ptp_integrated_ns w + e) 500"
  shows "fine_tune_register (fine_report b e w) = fine_tune_register w"
    and "hw (fine_report b e w) = xil_out32 b TSU_TIMER_ADJUST (fine_tune_register w) (hw w)"
  using assms fine_tune_dead_band [of e "ptp_integrated_ns w + e" PTP_MAX_ERR_NS w]
  by (simp_all add: fine_report_effects)

text \<open>
  C31: inside the dead band the controller does not leave the clock alone: every report writes the
  correction that is still in the register once more. After \<open>n\<close> such reports the clock has moved by
  \<open>n\<close> times the last correction, although each of the reported errors called for none.
\<close>
theorem dead_band_reapplies:
  assumes "tsu_hw_write b now"
    and "\<forall>(a, d) \<in> set rs. seconds d = 0"
    and "dead_run (ptp_integrated_ns w) (map (nanosec \<circ> snd) rs)"
    and "int (length rs) * \<bar>adj_value (fine_tune_register w)\<bar> \<le> int (now (hw w))"
  shows "\<exists>w'. report_run b rs w = Inr w' \<and> fine_tune_register w' = fine_tune_register w \<and>
    int (now (hw w')) = int (now (hw w)) + int (length rs) * adj_value (fine_tune_register w)"
  using assms(2-)
proof (induction rs arbitrary: w)
  case Nil
  then show ?case by simp
next
  case (Cons r rs)
  obtain a d where r: "r = (a, d)" by fastforce
  let ?A = "adj_value (fine_tune_register w)" and ?w1 = "fine_report b (nanosec d) w"
  have d: "seconds d = 0" "dead_band (nanosec d) (ptp_integrated_ns w + nanosec d) 500"
    using Cons.prems(1,2) r by auto
  have len: "int (length rs) * \<bar>?A\<bar> + \<bar>?A\<bar> \<le> int (now (hw w))"
    using Cons.prems(3) r by (simp add: algebra_simps)
  moreover have "0 \<le> int (length rs) * \<bar>?A\<bar>" by simp
  ultimately have pos: "\<bar>?A\<bar> \<le> int (now (hw w))" by linarith
  have n1: "int (now (hw ?w1)) = int (now (hw w)) + ?A"
    using assms(1) pos by (simp add: fine_report_dead [OF d(2)] tsu_hw_write_def)
  then have "int (length rs) * \<bar>?A\<bar> \<le> int (now (hw ?w1))" using len by linarith
  then obtain w' where "report_run b rs ?w1 = Inr w'" "fine_tune_register w' = fine_tune_register w"
      "int (now (hw w')) = int (now (hw ?w1)) + int (length rs) * ?A"
    using Cons.IH [of ?w1] Cons.prems(1,2) r
    by (auto simp: fine_report_dead [OF d(2)] fine_report_effects(1))
  then show ?case
    by (simp add: r process_fine [OF d(1)] n1 algebra_simps)
qed

theorem dead_band_reapplies_witness:
  "\<exists>w'. report_run (tick_bsp 0) (replicate 10 (zero_ts, zero_ts))
      ((ptp_boot 1000000)\<lparr>fine_tune_register := 105\<rparr>) = Inr w' \<and> hw w' = 1001050"
proof -
  let ?w = "(ptp_boot (1000000 :: nat))\<lparr>fine_tune_register := 105\<rparr>"
  have w: "ptp_integrated_ns ?w = 0" "hw ?w = 1000000"
    by (simp_all add: ptp_boot_def timesync.defs timesync_boot_def tsu.defs tsu_boot_def)
  have dr: "dead_run 0 (replicate n 0)" for n
    by (induction n) (simp_all add: dead_band_def freq_adj_def sdiv_pos)
  have v: "adj_value 105 = 105"
    by (simp add: adj_value_def adj_direction_def adj_nanosec_def ADJUST_ADD_def)
  have m: "map (nanosec \<circ> snd) (replicate 10 (zero_ts, zero_ts)) = replicate 10 0"
    by (simp add: zero_ts_def)
  have "\<exists>w'. report_run (tick_bsp 0) (replicate 10 (zero_ts, zero_ts)) ?w = Inr w' \<and>
      fine_tune_register w' = fine_tune_register ?w \<and>
      int (id (hw w')) = int (id (hw ?w)) + int (length (replicate 10 (zero_ts, zero_ts))) * adj_value (fine_tune_register ?w)"
    by (rule dead_band_reapplies [OF tick_bsp_hw_write])
       (simp_all only: w m dr, simp_all add: w v zero_ts_def)
  then show ?thesis by (auto simp: w v)
qed

text \<open>
  C30: after the first report below a second, differences of a second and more are never corrected: in
  fine synchronisation a run of such reports writes no register, keeps the status and only clears the
  integral, so a clock that is off by seconds stays off.
\<close>
theorem large_difference_never_corrected:
  assumes "status w = TS_FINE" and "\<forall>(a, d) \<in> set rs. seconds d \<noteq> 0" and "rs \<noteq> []"
  shows "\<exists>w'. report_run b rs w = Inr w' \<and> hw w' = hw w \<and> status w' = TS_FINE \<and>
    fine_tune_register w' = fine_tune_register w \<and> ptp_integrated_ns w' = 0"
proof -
  have "\<exists>w'. report_run b rs w = Inr w' \<and> hw w' = hw w \<and> status w' = TS_FINE \<and>
      fine_tune_register w' = fine_tune_register w \<and> (rs \<noteq> [] \<or> ptp_integrated_ns w = 0 \<longrightarrow> ptp_integrated_ns w' = 0)"
    using assms(1,2)
  proof (induction rs arbitrary: w)
    case Nil
    then show ?case by simp
  next
    case (Cons r rs)
    obtain a d where r: "r = (a, d)" by fastforce
    let ?w1 = "(coarse_time_received b (seconds a) (nanosec a) w)\<lparr>ptp_integrated_ns := 0\<rparr>"
    have d: "seconds d \<noteq> 0" using Cons.prems(2) r by simp
    have k: "hw ?w1 = hw w" "status ?w1 = TS_FINE" "fine_tune_register ?w1 = fine_tune_register w"
      using Cons.prems(1)
      by (simp_all add: coarse_time_received_def coarse_set_due_def Let_def)
    have "\<exists>w'. report_run b rs ?w1 = Inr w' \<and> hw w' = hw ?w1 \<and> status w' = TS_FINE \<and>
      fine_tune_register w' = fine_tune_register ?w1 \<and> (rs \<noteq> [] \<or> ptp_integrated_ns ?w1 = 0 \<longrightarrow> ptp_integrated_ns w' = 0)"
      by (rule Cons.IH) (use k(2) Cons.prems(2) in auto)
    then show ?case using k by (auto simp: r process_coarse [OF d])
  qed
  with assms(3) show ?thesis by auto
qed

theorem large_difference_never_corrected_witness:
  "\<exists>w'. report_run (tick_bsp 0) [(\<lparr>seconds = 1700000000, nanosec = 0\<rparr>, \<lparr>seconds = 1699999000, nanosec = 5\<rparr>)]
      (fine_report (tick_bsp 0) 0 (ptp_boot 1000000000000)) = Inr w' \<and>
    hw w' = hw (fine_report (tick_bsp 0) 0 (ptp_boot 1000000000000))"
  using large_difference_never_corrected [of "fine_report (tick_bsp 0) 0 (ptp_boot 1000000000000)"
      "[(\<lparr>seconds = 1700000000, nanosec = 0\<rparr>, \<lparr>seconds = 1699999000, nanosec = 5\<rparr>)]" "tick_bsp 0"]
  by (auto simp: fine_report_effects)

text \<open>
  The integral of the controller is the plain 32-bit sum of the differences reported since it was
  cleared: nothing limits it, so it wraps to the other sign once the true sum leaves the range of
  \<open>int\<close>, and equals the true sum exactly while that stays in range.
\<close>

lemma integral_is_unlimited_sum:
  assumes "\<forall>(a, d) \<in> set rs. seconds d = 0"
  shows "\<exists>w'. report_run b rs w = Inr w' \<and>
    ptp_integrated_ns w' = word_of_int (sint (ptp_integrated_ns w) + sum_list (map (sint \<circ> nanosec \<circ> snd) rs))"
  using assms
proof (induction rs arbitrary: w)
  case Nil
  then show ?case by simp
next
  case (Cons r rs)
  obtain a d where r: "r = (a, d)" by fastforce
  have d: "seconds d = 0" using Cons.prems r by simp
  let ?w1 = "fine_report b (nanosec d) w"
  have "(word_of_int (sint (ptp_integrated_ns w + nanosec d) + x) :: i32) =
      word_of_int (sint (ptp_integrated_ns w) + (sint (nanosec d) + x))" for x
    by (simp add: wi_hom_syms(1) algebra_simps)
  then show ?case
    using Cons.IH [of ?w1] Cons.prems
    by (auto simp: r process_fine [OF d] fine_report_effects(1))
qed

lemma integral_is_unlimited_sum_example:
  "\<exists>w'. report_run (tick_bsp 0) (replicate 3 (zero_ts, \<lparr>seconds = 0, nanosec = 999999999\<rparr>)) (ptp_boot 0) = Inr w' \<and>
    sint (ptp_integrated_ns w') = - 1294967299"
proof -
  have w: "ptp_integrated_ns (ptp_boot (0::nat)) = 0" by (simp add: ptp_boot_def timesync.defs)
  show ?thesis
    using integral_is_unlimited_sum [of "replicate 3 (zero_ts, \<lparr>seconds = 0, nanosec = 999999999\<rparr>)"
        "tick_bsp 0" "ptp_boot 0"]
    by (auto simp: w numeral_eq_Suc)
qed

section \<open>The closed loop\<close>

text \<open>
  The loop closed through the clock: master and clock run at the same rate, \<open>M\<close> is the value the clock
  should show, and each exchange reports the true distance \<open>M - now\<close>.
\<close>

fun closed_loop :: "'h bsp \<Rightarrow> ('h \<Rightarrow> nat) \<Rightarrow> int \<Rightarrow> nat \<Rightarrow> 'h ptp \<Rightarrow> fault + 'h ptp" where
  "closed_loop b now M 0 w = Inr w"
| "closed_loop b now M (Suc n) w =
     bind_sum (ptp_process_time_diff b (Some (init_param b)) 0 zero_ts
                 \<lparr>seconds = 0, nanosec = word_of_int (M - int (now (hw w)))\<rparr> w)
       (closed_loop b now M n)"

definition clock_error :: "('h \<Rightarrow> nat) \<Rightarrow> int \<Rightarrow> 'h ptp \<Rightarrow> int" where
  "clock_error now M w = M - int (now (hw w))"

lemma closed_loop_add:
  "closed_loop b now M (m + n) w = bind_sum (closed_loop b now M m w) (closed_loop b now M n)"
  by (induction m arbitrary: w) (simp_all add: bind_sum_def split: sum.splits)

lemma closed_loop_Suc:
  "closed_loop b now M (Suc n) w =
    closed_loop b now M n (fine_report b (word_of_int (clock_error now M w)) w)"
  by (simp add: process_fine clock_error_def)

text \<open>One turn of the loop on the integers: error \<open>E\<close>, integral \<open>I\<close>.\<close>

lemma closed_loop_step:
  assumes hwm: "tsu_hw_write b now"
    and E: "clock_error now M w = E" and I: "sint (ptp_integrated_ns w) = I"
    and range: "\<bar>E\<bar> < 2 ^ 29" "\<bar>I + E\<bar> < 2 ^ 29"
    and active: "\<bar>E + (I + E) sdiv 20\<bar> \<ge> 500 \<or> E \<le> - 500"
    and M: "(I + E) sdiv 20 + M \<ge> 0"
  defines "w' \<equiv> fine_report b (word_of_int E) w"
  shows "clock_error now M w' = - ((I + E) sdiv 20)" and "sint (ptp_integrated_ns w') = I + E"
    and "adj_value (fine_tune_register w') = E + (I + E) sdiv 20"
proof -
  let ?e = "word_of_int E :: i32"
  have e: "sint ?e = E" using range(1) by (intro sint_word_of_int_exact) auto
  have i: "sint (ptp_integrated_ns w + ?e) = I + E"
    using range(2) by (subst sint32_add) (auto simp: e I)
  have f: "freq_adj ?e (ptp_integrated_ns w + ?e) = E + (I + E) sdiv 20"
    by (simp add: freq_adj_def e i)
  have le: "\<bar>(I + E) sdiv 20\<bar> \<le> \<bar>I + E\<bar>" by (rule abs_sdiv_le) simp
  have small: "\<bar>freq_adj ?e (ptp_integrated_ns w + ?e)\<bar> < 2 ^ 30"
    using le range unfolding f by simp
  have nd: "\<not> dead_band ?e (ptp_integrated_ns w + ?e) 500"
    using active by (auto simp: dead_band_def f e)
  note m = fine_report_moves [OF hwm small nd]
  show "adj_value (fine_tune_register w') = E + (I + E) sdiv 20"
    using m(2) by (simp add: w'_def f)
  show "sint (ptp_integrated_ns w') = I + E" by (simp add: w'_def fine_report_effects(1) i)
  show "clock_error now M w' = - ((I + E) sdiv 20)"
    using m(1) M E by (simp add: w'_def clock_error_def f)
qed

lemma behind_steps:
  assumes hwm: "tsu_hw_write b now" and M: "0 \<le> M"
    and "clock_error now M w = - (I div 20)" and "sint (ptp_integrated_ns w) = I"
    and "0 < I" and "I < 2 ^ 29"
  shows "\<exists>n w' J. closed_loop b now M n w = Inr w' \<and> 0 < J \<and> J < 10000 \<and>
    clock_error now M w' = - (J div 20) \<and> sint (ptp_integrated_ns w') = J \<and>
    (\<forall>k \<le> n. \<exists>wk. closed_loop b now M k w = Inr wk \<and>
       - (I div 20) \<le> clock_error now M wk \<and> clock_error now M wk \<le> 0)"
  using assms(3-)
proof (induction "nat I" arbitrary: I w rule: less_induct)
  case less
  show ?case
  proof (cases "I < 10000")
    case True
    then have "I div 20 < 500" "0 \<le> I div 20" using less.prems(3) by auto
    then show ?thesis
      using less.prems True by (intro exI [of _ 0] exI [of _ w] exI [of _ I]) simp
  next
    case False
    define E where "E = - (I div 20)"
    define I' where "I' = I + E"
    let ?w1 = "fine_report b (word_of_int E) w"
    have d: "500 \<le> I div 20" "20 * (I div 20) \<le> I" using False by auto
    have I': "0 < I'" "I' < I" using d by (simp_all add: I'_def E_def)
    have s: "I' sdiv 20 = I' div 20" using I' by (simp add: sdiv_pos)
    have mono: "I' div 20 \<le> I div 20" using I' by (intro zdiv_mono1) auto
    have "0 \<le> I' div 20" using I' by (simp add: pos_imp_zdiv_nonneg_iff)
    then have M': "0 \<le> (I + E) sdiv 20 + M" using M s unfolding I'_def by linarith
    have lt: "I < 536870912" using less.prems(4) by simp
    have "\<bar>E\<bar> < 536870912" "\<bar>I'\<bar> < 536870912" "E \<le> - 500"
      using d I' lt unfolding E_def by linarith+
    then have r: "\<bar>E\<bar> < 2 ^ 29" "\<bar>I + E\<bar> < 2 ^ 29" "\<bar>E + (I + E) sdiv 20\<bar> \<ge> 500 \<or> E \<le> - 500"
      by (simp_all add: I'_def)
    have e: "clock_error now M w = E" using less.prems(1) by (simp only: E_def)
    have st: "clock_error now M ?w1 = - (I' div 20)" "sint (ptp_integrated_ns ?w1) = I'"
      using closed_loop_step(1,2) [OF hwm e less.prems(2) r M'] s by (simp_all only: I'_def)
    have "nat I' < nat I" "I' < 2 ^ 29" using I' less.prems(4) by auto
    from less.hyps [OF this(1) st I'(1) this(2)] obtain n w' J where
      ih: "closed_loop b now M n ?w1 = Inr w'" "0 < J \<and> J < 10000 \<and> clock_error now M w' = - (J div 20) \<and>
          sint (ptp_integrated_ns w') = J"
        "\<forall>k \<le> n. \<exists>wk. closed_loop b now M k ?w1 = Inr wk \<and>
           - (I' div 20) \<le> clock_error now M wk \<and> clock_error now M wk \<le> 0" by blast
    have "\<exists>wk. closed_loop b now M k w = Inr wk \<and> - (I div 20) \<le> clock_error now M wk \<and> clock_error now M wk \<le> 0"
      if "k \<le> Suc n" for k
    proof (cases k)
      case 0
      then show ?thesis using less.prems(1) d by simp
    next
      case (Suc j)
      then show ?thesis using ih(3) that mono by (fastforce simp: closed_loop_Suc e simp del: closed_loop.simps)
    qed
    then show ?thesis
      using ih(1,2) by (intro exI [of _ "Suc n"] exI [of _ w'] exI [of _ J]) (simp add: closed_loop_Suc e del: closed_loop.simps)
  qed
qed

text \<open>Once the error is below 500 nanoseconds, so is the correction that the next report asks for.\<close>

lemma behind_in_band:
  assumes "clock_error now M w = - (J div 20)" and "sint (ptp_integrated_ns w) = J" and "0 < J" and "J < 10000"
  shows "\<exists>w1. closed_loop b now M 1 w = Inr w1 \<and> fine_tune_register w1 = fine_tune_register w \<and>
    hw w1 = xil_out32 b TSU_TIMER_ADJUST (fine_tune_register w) (hw w)"
proof -
  define e :: i32 where "e = word_of_int (clock_error now M w)"
  have r: "0 \<le> J div 20" "J div 20 < 500" "0 \<le> (J - J div 20) div 20" "(J - J div 20) div 20 < 500"
    using assms(3,4) by linarith+
  have e: "sint e = - (J div 20)"
    unfolding e_def assms(1) using r by (intro sint_word_of_int_exact; simp)
  have i: "sint (ptp_integrated_ns w + e) = J - J div 20"
    using r assms(2-4) e by (subst sint32_add) auto
  have "0 \<le> J - J div 20" using assms(3) by linarith
  then have f: "freq_adj e (ptp_integrated_ns w + e) = (J - J div 20) div 20 - J div 20"
    unfolding freq_adj_def e i by (simp add: sdiv_pos)
  have "dead_band e (ptp_integrated_ns w + e) 500"
    unfolding dead_band_def f e using r by linarith
  from fine_report_dead [OF this, of b] show ?thesis
    by (simp add: closed_loop_Suc e_def One_nat_def del: closed_loop.simps(2))
qed

text \<open>
  C15: a clock behind the master is brought within 500 nanoseconds. From a cleared integral and an error \<open>E\<close> of 500
  nanoseconds up to half a second, an error of less than 500 nanoseconds is left after some number \<open>n\<close> of
  reports; the first report removes all but a twentieth of the error, and from there up to report \<open>n\<close> the
  clock is never behind and never ahead by more than that twentieth. It does not stay there: the next report falls into the
  dead band, keeps the register, and moves the clock once more by the correction that report \<open>n\<close> left in it.
\<close>
theorem behind_clock_reaches_band:
  assumes "tsu_hw_write b now" and "ptp_integrated_ns w = 0"
    and "clock_error now M w = E" and "500 \<le> E" and "E \<le> 500000000"
  shows "\<exists>n w' w''. closed_loop b now M n w = Inr w' \<and> 1 \<le> n \<and> \<bar>clock_error now M w'\<bar> < 500 \<and>
    (\<forall>k. 1 \<le> k \<and> k \<le> n \<longrightarrow> (\<exists>wk. closed_loop b now M k w = Inr wk \<and>
       - (E div 20) \<le> clock_error now M wk \<and> clock_error now M wk \<le> 0)) \<and>
    closed_loop b now M (Suc n) w = Inr w'' \<and> fine_tune_register w'' = fine_tune_register w' \<and>
    now (hw w'') = nat (int (now (hw w')) + adj_value (fine_tune_register w'))"
proof -
  let ?w1 = "fine_report b (word_of_int E) w"
  have s: "E sdiv 20 = E div 20" "0 \<le> E div 20" using assms(4) by (simp_all add: sdiv_pos)
  have M: "0 \<le> M" using assms(3,4) by (simp add: clock_error_def)
  have st: "clock_error now M ?w1 = - (E div 20)" "sint (ptp_integrated_ns ?w1) = E"
    using closed_loop_step(1,2) [OF assms(1,3), of 0] assms(2,4,5) s M by simp_all
  obtain n w' J where n: "closed_loop b now M n ?w1 = Inr w'" and J: "0 < J" "J < 10000"
      "clock_error now M w' = - (J div 20)" "sint (ptp_integrated_ns w') = J"
    and upto: "\<forall>k \<le> n. \<exists>wk. closed_loop b now M k ?w1 = Inr wk \<and>
         - (E div 20) \<le> clock_error now M wk \<and> clock_error now M wk \<le> 0"
    using behind_steps [OF assms(1) M st] assms(4,5) by auto
  have k: "\<exists>wk. closed_loop b now M k w = Inr wk \<and> - (E div 20) \<le> clock_error now M wk \<and> clock_error now M wk \<le> 0"
    if "1 \<le> k \<and> k \<le> Suc n" for k
    using that upto by (cases k) (auto simp: closed_loop_Suc assms(3) simp del: closed_loop.simps)
  have run: "closed_loop b now M (Suc n) w = Inr w'"
    using n by (simp add: closed_loop_Suc assms(3) del: closed_loop.simps)
  obtain w'' where w'': "closed_loop b now M 1 w' = Inr w''" "fine_tune_register w'' = fine_tune_register w'"
      "hw w'' = xil_out32 b TSU_TIMER_ADJUST (fine_tune_register w') (hw w')"
    using behind_in_band [OF J(3,4,1,2)] by blast
  have "now (hw w'') = nat (int (now (hw w')) + adj_value (fine_tune_register w'))"
    using assms(1) by (simp add: w''(3) tsu_hw_write_def)
  moreover have "closed_loop b now M (Suc n + 1) w = Inr w''"
    using run w''(1) by (subst closed_loop_add) simp
  moreover have "\<bar>clock_error now M w'\<bar> < 500" using J by linarith
  ultimately show ?thesis
    using run k w''(2) by (intro exI [of _ "Suc n"] exI [of _ w'] exI [of _ w'']) simp
qed

lemma ptp_boot_simps [simp]:
  "ptp_integrated_ns (ptp_boot h) = 0" "hw (ptp_boot h) = h" "status (ptp_boot h) = TS_NEVER"
  "fine_tune_register (ptp_boot h) = 0"
  by (simp_all add: ptp_boot_def timesync.defs timesync_boot_def tsu.defs tsu_boot_def)

theorem behind_clock_reaches_band_witness:
  "\<exists>n w'. closed_loop (tick_bsp 0) id 5000300000 n (ptp_boot 5000000000) = Inr w' \<and>
    \<bar>5000300000 - int (hw w')\<bar> < 500"
  using behind_clock_reaches_band [OF tick_bsp_hw_write [of 0], of "ptp_boot 5000000000" 5000300000 300000]
  by (auto simp: clock_error_def)

lemma half_band: "0 \<le> (a::int) \<Longrightarrow> a \<le> 190000 \<Longrightarrow> \<bar>a div 20 - (a - a div 20) div 20\<bar> < 500"
  by linarith

text \<open>
  C16: a clock ahead of the master is thrown behind it. From a cleared integral and an error between
  -190 microseconds and -500 nanoseconds, the first report corrects the clock to a small positive
  error, the second falls into the dead band and applies the first correction once more, and the clock
  ends up behind by more than it was ahead.
\<close>
theorem ahead_clock_thrown_back:
  assumes hwm: "tsu_hw_write b now" and "ptp_integrated_ns w = 0"
    and "clock_error now M w = - a" and "500 \<le> a" and "a \<le> 190000" and "300000 \<le> M"
  shows "\<exists>w1 w2. closed_loop b now M 1 w = Inr w1 \<and> clock_error now M w1 = a div 20 \<and>
    closed_loop b now M 2 w = Inr w2 \<and> clock_error now M w2 = a + 2 * (a div 20)"
proof -
  let ?w1 = "fine_report b (word_of_int (- a)) w"
  have s: "(0 + - a) sdiv 20 = - (a div 20)" using assms(4) by (simp add: sdiv_pos)
  have bnd: "0 \<le> a div 20" "a div 20 \<le> 9500" "500 \<le> \<bar>- a - a div 20\<bar>" using assms(4,5) by linarith+
  have st: "clock_error now M ?w1 = a div 20" "sint (ptp_integrated_ns ?w1) = - a"
      "adj_value (fine_tune_register ?w1) = - (a + a div 20)"
    using closed_loop_step [OF hwm assms(3), of 0] assms(2,4-6) bnd unfolding s by simp_all
  define e where "e = (word_of_int (a div 20) :: i32)"
  have e: "sint e = a div 20"
    unfolding e_def using bnd by (intro sint_word_of_int_exact; simp; linarith)
  have i: "sint (ptp_integrated_ns ?w1 + e) = - (a - a div 20)"
    using bnd assms(4,5) e st(2) by (subst sint32_add) linarith+
  have "(- (a - a div 20)) sdiv 20 = - ((a - a div 20) div 20)"
    using bnd assms(4) by (simp add: sdiv_pos)
  then have fa: "freq_adj e (ptp_integrated_ns ?w1 + e) = a div 20 - (a - a div 20) div 20"
    unfolding freq_adj_def e i by linarith
  have dead: "dead_band e (ptp_integrated_ns ?w1 + e) 500"
    unfolding dead_band_def fa e using half_band [of a] bnd assms(4,5) by linarith
  let ?w2 = "fine_report b e ?w1"
  have n1: "int (now (hw ?w1)) = M - a div 20" using st(1) by (simp add: clock_error_def)
  have "now (hw ?w2) = nat (int (now (hw ?w1)) + adj_value (fine_tune_register ?w1))"
    unfolding fine_report_dead(2) [OF dead] using hwm by (simp add: tsu_hw_write_def)
  also have "\<dots> = nat (M - a div 20 - (a + a div 20))" unfolding n1 st(3) by simp
  finally have n2: "int (now (hw ?w2)) = M - a div 20 - (a + a div 20)"
    using bnd assms(5,6) by simp
  have "closed_loop b now M 1 w = Inr ?w1" "closed_loop b now M 2 w = Inr ?w2"
    using st(1) by (simp_all add: closed_loop_Suc assms(3) e_def numeral_2_eq_2 del: closed_loop.simps(2))
  then show ?thesis
    using st(1) n2 by (intro exI [of _ ?w1] exI [of _ ?w2]) (simp add: clock_error_def)
qed

theorem ahead_clock_thrown_back_witness:
  "\<exists>w2. closed_loop (tick_bsp 0) id 5000000000 2 (ptp_boot 5000100000) = Inr w2 \<and> hw w2 = 4999890000"
  using ahead_clock_thrown_back [OF tick_bsp_hw_write [of 0], of "ptp_boot 5000100000" 5000000000 100000]
  by (auto simp: clock_error_def)

end
