(* ===== verification/Emac.thy ===== *)
theory Emac
  imports Lwip
begin

text \<open>
  The DMA side of the Ethernet driver, \<open>IEEE1588/netif/xemacpsif_dma.c\<close>: the arrays that remember which
  buffer each descriptor holds, sending a chain of buffers, releasing what was sent, refilling and
  draining the receive ring, and setting the rings up.

  The XEmacPs driver, the buffer pool, the packet queue and the caches are not part of the repository:
  their functions are the fields of the parameter \<open>xemacps\<close> over the environment \<open>'h\<close> that also holds
  the registers. The statics of the file and of the interface structure are the record \<open>emac\<close>.
  Memory barriers have no counterpart. The build options are fixed as in the repository's build:
  \<open>NO_SYS\<close>, no jumbo frames, no link statistics; here without \<open>LWIP_UDP_OPT_BLOCK_TX_TILL_COMPLETE\<close>, the
  build with it is in \<open>EmacBlocking\<close>.
\<close>

section \<open>Interfaces and state\<close>

text \<open>
  A descriptor is its address; the rings are named, as are the registers behind the
  \<open>XEMACPS_*_OFFSET\<close> macros of the driver's header. A null buffer pointer is \<open>None\<close>, a status other than
  \<open>XST_SUCCESS\<close> is \<open>False\<close>. \<open>xe_pbuf_chain\<close> is the chain of a buffer along \<open>next\<close>, itself first.
  \<open>xe_wait_tx_idle\<close> is what happens to the environment while the code spins on the count of descriptors
  that are with the transmitter; \<open>None\<close> when the count never reaches zero.
\<close>

datatype ring = TxRing | RxRing

datatype emac_reg = NWCTRL | TXSR | RXSR | RXCNT | DMACR | TXQBASE | RXQ1BASE

record 'h xemacps =
  xe_read_reg :: "u64 \<Rightarrow> emac_reg \<Rightarrow> 'h \<Rightarrow> u32 \<times> 'h"
  xe_write_reg :: "u64 \<Rightarrow> emac_reg \<Rightarrow> u32 \<Rightarrow> 'h \<Rightarrow> 'h"
  xe_free_cnt :: "ring \<Rightarrow> 'h \<Rightarrow> nat"
  xe_alloc :: "ring \<Rightarrow> nat \<Rightarrow> 'h \<Rightarrow> u64 option \<times> 'h"
  xe_unalloc :: "ring \<Rightarrow> nat \<Rightarrow> u64 \<Rightarrow> 'h \<Rightarrow> 'h"
  xe_to_hw :: "ring \<Rightarrow> nat \<Rightarrow> u64 \<Rightarrow> 'h \<Rightarrow> bool \<times> 'h"
  xe_from_hw :: "ring \<Rightarrow> nat \<Rightarrow> 'h \<Rightarrow> (nat \<times> u64) \<times> 'h"
  xe_free :: "ring \<Rightarrow> nat \<Rightarrow> u64 \<Rightarrow> 'h \<Rightarrow> bool \<times> 'h"
  xe_next :: "ring \<Rightarrow> u64 \<Rightarrow> 'h \<Rightarrow> u64"
  xe_base :: "ring \<Rightarrow> 'h \<Rightarrow> u64"
  xe_separation :: "ring \<Rightarrow> 'h \<Rightarrow> u64"
  xe_create :: "ring \<Rightarrow> u64 \<Rightarrow> nat \<Rightarrow> 'h \<Rightarrow> bool \<times> 'h"
  xe_clone :: "ring \<Rightarrow> u32 \<Rightarrow> 'h \<Rightarrow> bool \<times> 'h"
  xe_ptr_reset :: "ring \<Rightarrow> u64 \<Rightarrow> 'h \<Rightarrow> 'h"
  xe_set_queue_ptr :: "u64 \<Rightarrow> nat \<Rightarrow> ring \<Rightarrow> 'h \<Rightarrow> 'h"
  xe_bd_write :: "u64 \<Rightarrow> u64 \<Rightarrow> u32 \<Rightarrow> 'h \<Rightarrow> 'h"
  xe_bd_clear :: "u64 \<Rightarrow> 'h \<Rightarrow> 'h"
  xe_bd_set_status :: "u64 \<Rightarrow> u32 \<Rightarrow> 'h \<Rightarrow> 'h"
  xe_bd_set_address_tx :: "u64 \<Rightarrow> u64 \<Rightarrow> 'h \<Rightarrow> 'h"
  xe_bd_set_address_rx :: "u64 \<Rightarrow> u64 \<Rightarrow> 'h \<Rightarrow> 'h"
  xe_bd_set_length :: "u64 \<Rightarrow> u32 \<Rightarrow> 'h \<Rightarrow> 'h"
  xe_bd_get_length :: "u64 \<Rightarrow> 'h \<Rightarrow> nat"
  xe_bd_set_last :: "u64 \<Rightarrow> 'h \<Rightarrow> 'h"
  xe_bd_clear_last :: "u64 \<Rightarrow> 'h \<Rightarrow> 'h"
  xe_bd_clear_tx_used :: "u64 \<Rightarrow> 'h \<Rightarrow> 'h"
  xe_pool_alloc :: "nat \<Rightarrow> 'h \<Rightarrow> nat option \<times> 'h"
  xe_pbuf_free :: "nat option \<Rightarrow> 'h \<Rightarrow> 'h"
  xe_pbuf_ref :: "nat \<Rightarrow> 'h \<Rightarrow> 'h"
  xe_pbuf_chain :: "nat \<Rightarrow> 'h \<Rightarrow> nat list"
  xe_pbuf_payload :: "nat \<Rightarrow> 'h \<Rightarrow> u64"
  xe_pbuf_len :: "nat \<Rightarrow> 'h \<Rightarrow> u16"
  xe_pbuf_realloc :: "nat \<Rightarrow> nat \<Rightarrow> 'h \<Rightarrow> 'h"
  xe_dcache_flush :: "u64 \<Rightarrow> nat \<Rightarrow> 'h \<Rightarrow> 'h"
  xe_dcache_inval :: "u64 \<Rightarrow> nat \<Rightarrow> 'h \<Rightarrow> 'h"
  xe_pq_enqueue :: "nat \<Rightarrow> 'h \<Rightarrow> bool \<times> 'h"
  xe_pq_qlength :: "'h \<Rightarrow> nat"
  xe_pq_dequeue :: "'h \<Rightarrow> nat option \<times> 'h"
  xe_stop :: "'h \<Rightarrow> 'h"
  xe_start :: "'h \<Rightarrow> 'h"
  xe_set_options :: "u32 \<Rightarrow> 'h \<Rightarrow> i32 \<times> 'h"
  xe_clear_options :: "u32 \<Rightarrow> 'h \<Rightarrow> i32 \<times> 'h"
  xe_set_hash :: "u8 list \<Rightarrow> 'h \<Rightarrow> 'h"
  xe_delete_hash :: "u8 list \<Rightarrow> 'h \<Rightarrow> 'h"
  xe_wait_tx_idle :: "'h \<Rightarrow> 'h option"
  xe_cfg_initialize :: "u64 \<Rightarrow> 'h \<Rightarrow> bool \<times> 'h"
  xe_init_emacps :: "'h \<Rightarrow> 'h"
  xe_init_emacps_on_error :: "'h \<Rightarrow> 'h"
  xe_setup_isr :: "'h \<Rightarrow> 'h"
  xe_start_emacps :: "'h \<Rightarrow> 'h"
  xe_set_tlb :: "u64 \<Rightarrow> 'h \<Rightarrow> 'h"
  xe_gic_register :: "u32 \<Rightarrow> 'h \<Rightarrow> 'h"
  xe_gic_enable :: "u32 \<Rightarrow> 'h \<Rightarrow> 'h"
  xe_gic_disable :: "u32 \<Rightarrow> 'h \<Rightarrow> 'h"

text \<open>
  What the generated headers and the driver's headers fix: the number of descriptors, the base
  addresses of the interfaces the design has (\<open>None\<close> where the macro is not defined), the largest frame,
  where the linker puts \<open>bd_space\<close>, the interrupt number, and the bit masks.
\<close>

record emac_config =
  cfg_n_tx :: nat
  cfg_n_rx :: nat
  cfg_bases :: "u64 option list"
  cfg_max_frame :: nat
  cfg_bd_space :: u64
  cfg_emac_intr :: u32
  cfg_starttx_mask :: u32
  cfg_rxen_mask :: u32
  cfg_txen_mask :: u32
  cfg_txbuf_used :: u32
  cfg_txbuf_wrap :: u32
  cfg_rxbuf_wrap :: u64
  cfg_rxbuf_new :: u64
  cfg_bd_addr_hi :: u64
  cfg_multicast_option :: u32
  cfg_promisc_option :: u32

record emac =
  tx_pbufs_storage :: "nat option list"
  rx_pbufs_storage :: "nat option list"
  emac_intr_num :: u32
  bd_space_index :: u32
  bd_space_attr_set :: u32
  em_base :: u64
  em_coherent :: bool
  rx_bdspace :: u64
  tx_bdspace :: u64
  last_rx_frms_cntr :: u32

definition bd_space_size :: nat where "bd_space_size = 0x200000"

section \<open>Descriptors and their slots\<close>

definition XEMACPS_BD_TO_INDEX :: "'h xemacps \<Rightarrow> ring \<Rightarrow> u64 \<Rightarrow> 'h \<Rightarrow> nat" where
  "XEMACPS_BD_TO_INDEX x r bd h = unat (bd - xe_base x r h) div unat (xe_separation x r h)"

definition is_tx_space_available :: "'h xemacps \<Rightarrow> 'h \<Rightarrow> nat" where
  "is_tx_space_available x h = xe_free_cnt x TxRing h"

text \<open>
  The chain of conditionals over the interfaces that the design has; the variable stays unset when
  none of the base addresses matches.
\<close>

fun base_index :: "nat \<Rightarrow> nat \<Rightarrow> u64 option list \<Rightarrow> u64 \<Rightarrow> nat option \<Rightarrow> nat option" where
  "base_index n k [] a i = i"
| "base_index n k (c # cs) a i = base_index n (Suc k) cs a (if c = Some a then Some (k * n) else i)"

definition get_base_index_txpbufsstorage :: "emac_config \<Rightarrow> emac \<Rightarrow> fault + nat" where
  "get_base_index_txpbufsstorage cfg em =
     (case base_index (cfg_n_tx cfg) 0 (cfg_bases cfg) (em_base em) None of
        None \<Rightarrow> Inl Uninit_read | Some i \<Rightarrow> Inr i)"

definition get_base_index_rxpbufsstorage :: "emac_config \<Rightarrow> emac \<Rightarrow> fault + nat" where
  "get_base_index_rxpbufsstorage cfg em =
     (case base_index (cfg_n_rx cfg) 0 (cfg_bases cfg) (em_base em) None of
        None \<Rightarrow> Inl Uninit_read | Some i \<Rightarrow> Inr i)"

definition slot_get :: "'a list \<Rightarrow> nat \<Rightarrow> fault + 'a" where
  "slot_get xs i = (if i < length xs then Inr (xs ! i) else Inl Index_range)"

section \<open>Releasing what was sent\<close>

fun sent_loop ::
  "'h xemacps \<Rightarrow> emac_config \<Rightarrow> nat \<Rightarrow> nat \<Rightarrow> u64 \<Rightarrow> emac \<Rightarrow> 'h \<Rightarrow> fault + (emac \<times> 'h)" where
  "sent_loop x cfg index 0 bd em h = Inr (em, h)"
| "sent_loop x cfg index (Suc n) bd em h =
     (let bdindex = XEMACPS_BD_TO_INDEX x TxRing bd h;
          h1 = xe_bd_write x bd 0 0 h;
          h2 = xe_bd_write x bd 4 (if bdindex = cfg_n_tx cfg - 1 then 0xC0000000 else 0x80000000) h1
      in bind_sum (slot_get (tx_pbufs_storage em) (index + bdindex)) (\<lambda>p.
           let h3 = (if p \<noteq> None then xe_pbuf_free x p h2 else h2);
               em1 = em\<lparr>tx_pbufs_storage := (tx_pbufs_storage em)[index + bdindex := None]\<rparr>
           in sent_loop x cfg index n (xe_next x TxRing bd h3) em1 h3))"

text \<open>One turn of the outer loop; it returns when the ring hands back no descriptor.\<close>

definition sent_turn ::
  "'h xemacps \<Rightarrow> emac_config \<Rightarrow> nat \<Rightarrow> emac \<times> 'h \<Rightarrow> (fault + (emac \<times> 'h)) + (emac \<times> 'h)" where
  "sent_turn x cfg index s =
     (let (em, h) = s;
          ((n_bds, txbdset), h1) = xe_from_hw x TxRing (cfg_n_tx cfg) h
      in if n_bds = 0 then Inl (Inr (em, h1))
         else (case sent_loop x cfg index n_bds txbdset em h1 of
                 Inl f \<Rightarrow> Inl (Inl f)
               | Inr (em2, h2) \<Rightarrow> Inr (em2, snd (xe_free x TxRing n_bds txbdset h2))))"

definition process_sent_bds ::
  "'h xemacps \<Rightarrow> emac_config \<Rightarrow> emac \<Rightarrow> 'h \<Rightarrow> (fault + (emac \<times> 'h)) option" where
  "process_sent_bds x cfg em h =
     (case get_base_index_txpbufsstorage cfg em of
        Inl f \<Rightarrow> Some (Inl f) | Inr index \<Rightarrow> forever (sent_turn x cfg index) (em, h))"

definition emacps_send_handler ::
  "'h xemacps \<Rightarrow> emac_config \<Rightarrow> emac \<Rightarrow> 'h \<Rightarrow> (fault + (emac \<times> 'h)) option" where
  "emacps_send_handler x cfg em h =
     (let (regval, h1) = xe_read_reg x (em_base em) TXSR h;
          h2 = xe_write_reg x (em_base em) TXSR regval h1
      in process_sent_bds x cfg em h2)"

section \<open>Sending a chain\<close>

text \<open>\<open>Some last\<close> when every buffer of the chain found an empty slot, \<open>None\<close> on the early failure return.\<close>

fun sgsend_loop ::
  "'h xemacps \<Rightarrow> emac_config \<Rightarrow> nat \<Rightarrow> nat list \<Rightarrow> u64 \<Rightarrow> u64 option \<Rightarrow> emac \<Rightarrow> 'h \<Rightarrow>
   fault + (u64 option option \<times> emac \<times> 'h)" where
  "sgsend_loop x cfg index [] txbd last_txbd em h = Inr (Some last_txbd, em, h)"
| "sgsend_loop x cfg index (q # qs) txbd last_txbd em h =
     (let bdindex = XEMACPS_BD_TO_INDEX x TxRing txbd h
      in bind_sum (slot_get (tx_pbufs_storage em) (index + bdindex)) (\<lambda>old.
           if old \<noteq> None then Inr (None, em, h)
           else
             let h1 = (if \<not> em_coherent em
                       then xe_dcache_flush x (xe_pbuf_payload x q h) (unat (xe_pbuf_len x q h)) h else h);
                 h2 = xe_bd_set_address_tx x txbd (xe_pbuf_payload x q h1) h1;
                 max_fr_size = cfg_max_frame cfg - 18;
                 h3 = xe_bd_set_length x txbd
                        (if unat (xe_pbuf_len x q h2) > max_fr_size
                         then of_nat max_fr_size AND 0x3FFF
                         else ucast (xe_pbuf_len x q h2) AND 0x3FFF) h2;
                 em1 = em\<lparr>tx_pbufs_storage := (tx_pbufs_storage em)[index + bdindex := Some q]\<rparr>;
                 h4 = xe_pbuf_ref x q h3;
                 h5 = xe_bd_clear_last x txbd h4
             in sgsend_loop x cfg index qs (xe_next x TxRing txbd h5) (Some txbd) em1 h5))"

fun clear_used_loop :: "'h xemacps \<Rightarrow> nat list \<Rightarrow> u64 \<Rightarrow> 'h \<Rightarrow> 'h" where
  "clear_used_loop x [] txbd h = h"
| "clear_used_loop x (q # qs) txbd h =
     (let h1 = xe_bd_clear_tx_used x txbd h in clear_used_loop x qs (xe_next x TxRing txbd h1) h1)"

text \<open>
  The part after the slots are filled: mark the last descriptor, clear the used bits, the first
  descriptor's at the end, hand the set to the hardware and start the transmitter. \<open>True\<close> is
  \<open>XST_SUCCESS\<close>.
\<close>

definition sgsend_commit ::
  "'h xemacps \<Rightarrow> emac_config \<Rightarrow> nat list \<Rightarrow> u64 \<Rightarrow> u64 \<Rightarrow> u64 \<Rightarrow> 'h \<Rightarrow> bool \<times> 'h" where
  "sgsend_commit x cfg qs txbdset last_txbd base h =
     (let h1 = xe_bd_set_last x last_txbd h;
          h2 = clear_used_loop x (tl qs) (xe_next x TxRing txbdset h1) h1;
          h3 = xe_bd_clear_tx_used x txbdset h2;
          (ok, h4) = xe_to_hw x TxRing (length qs) txbdset h3
      in if \<not> ok then (False, h4)
         else (let (v, h5) = xe_read_reg x base NWCTRL h4
               in (True, xe_write_reg x base NWCTRL (v OR cfg_starttx_mask cfg) h5)))"

definition emacps_sgsend ::
  "'h xemacps \<Rightarrow> emac_config \<Rightarrow> nat \<Rightarrow> emac \<Rightarrow> 'h \<Rightarrow> fault + (bool \<times> emac \<times> 'h)" where
  "emacps_sgsend x cfg p em h =
     bind_sum (get_base_index_txpbufsstorage cfg em) (\<lambda>index.
       let qs = xe_pbuf_chain x p h;
           (bds, h1) = xe_alloc x TxRing (length qs) h
       in (case bds of
             None \<Rightarrow> Inr (False, em, h1)
           | Some txbdset \<Rightarrow>
               bind_sum (sgsend_loop x cfg index qs txbdset None em h1) (\<lambda>(filled, em2, h2).
                 case filled of
                   None \<Rightarrow> Inr (False, em2, h2)
                 | Some None \<Rightarrow> Inl Null_deref
                 | Some (Some last_txbd) \<Rightarrow>
                     (let (ok, h3) = sgsend_commit x cfg qs txbdset last_txbd (em_base em2) h2
                      in Inr (ok, em2, h3)))))"

section \<open>Receiving\<close>

definition inval_unless_coherent :: "'h xemacps \<Rightarrow> emac \<Rightarrow> u64 \<Rightarrow> nat \<Rightarrow> 'h \<Rightarrow> 'h" where
  "inval_unless_coherent x em a n h = (if \<not> em_coherent em then xe_dcache_inval x a n h else h)"

text \<open>The loop of \<open>setup_rx_bds\<close> over the free descriptors; every early return ends it.\<close>

fun setup_rx_loop ::
  "'h xemacps \<Rightarrow> emac_config \<Rightarrow> nat \<Rightarrow> nat \<Rightarrow> emac \<Rightarrow> 'h \<Rightarrow> fault + (emac \<times> 'h)" where
  "setup_rx_loop x cfg index 0 em h = Inr (em, h)"
| "setup_rx_loop x cfg index (Suc freebds) em h =
     (let (po, h1) = xe_pool_alloc x (cfg_max_frame cfg) h
      in (case po of
            None \<Rightarrow> Inr (em, h1)
          | Some p \<Rightarrow>
              (let (bdo, h2) = xe_alloc x RxRing 1 h1
               in (case bdo of
                     None \<Rightarrow> Inr (em, xe_pbuf_free x (Some p) h2)
                   | Some rxbd \<Rightarrow>
                       (let (ok, h3) = xe_to_hw x RxRing 1 rxbd h2
                        in if \<not> ok then Inr (em, xe_unalloc x RxRing 1 rxbd (xe_pbuf_free x (Some p) h3))
                           else
                             let pay = xe_pbuf_payload x p h3;
                                 h4 = inval_unless_coherent x em pay (cfg_max_frame cfg) h3;
                                 bdindex = XEMACPS_BD_TO_INDEX x RxRing rxbd h4;
                                 h5 = xe_bd_write x rxbd 4 0 h4;
                                 h6 = xe_bd_write x rxbd (cfg_bd_addr_hi cfg) (ucast (drop_bit 32 pay)) h5;
                                 h7 = xe_bd_write x rxbd 0
                                        (ucast (if bdindex = cfg_n_rx cfg - 1
                                                then pay OR cfg_rxbuf_wrap cfg else pay)) h6
                             in if index + bdindex < length (rx_pbufs_storage em)
                                then setup_rx_loop x cfg index freebds
                                       (em\<lparr>rx_pbufs_storage := (rx_pbufs_storage em)[index + bdindex := Some p]\<rparr>) h7
                                else Inl Index_range)))))"

definition setup_rx_bds :: "'h xemacps \<Rightarrow> emac_config \<Rightarrow> emac \<Rightarrow> 'h \<Rightarrow> fault + (emac \<times> 'h)" where
  "setup_rx_bds x cfg em h =
     bind_sum (get_base_index_rxpbufsstorage cfg em) (\<lambda>index.
       setup_rx_loop x cfg index (xe_free_cnt x RxRing h) em h)"

definition gigeversion :: "'h bsp \<Rightarrow> emac \<Rightarrow> 'h \<Rightarrow> u32 \<times> 'h" where
  "gigeversion b em h = (let (v, h1) = xil_in32 b (em_base em + 0xFC) h in (drop_bit 16 v AND 0xFFF, h1))"

definition resetrx_on_no_rxdata :: "'h bsp \<Rightarrow> 'h xemacps \<Rightarrow> emac_config \<Rightarrow> emac \<Rightarrow> 'h \<Rightarrow> emac \<times> 'h" where
  "resetrx_on_no_rxdata b x cfg em h =
     (let (gige, h1) = gigeversion b em h
      in if gige = 2 then
           (let (tempcntr, h2) = xe_read_reg x (em_base em) RXCNT h1;
                h5 = (if tempcntr = 0 \<and> last_rx_frms_cntr em = 0 then
                        (let (regctrl, h3) = xe_read_reg x (em_base em) NWCTRL h2;
                             h4 = xe_write_reg x (em_base em) NWCTRL (regctrl AND NOT (cfg_rxen_mask cfg)) h3;
                             (regctrl', h4') = xe_read_reg x (em_base em) NWCTRL h4
                         in xe_write_reg x (em_base em) NWCTRL (regctrl' OR cfg_rxen_mask cfg) h4')
                      else h2)
            in (em\<lparr>last_rx_frms_cntr := tempcntr\<rparr>, h5))
         else (em, h1))"

text \<open>
  The loop over the descriptors of one batch. A slot with no buffer makes the code pass a null pointer
  on and read its payload.
\<close>

fun recv_batch ::
  "'h xemacps \<Rightarrow> nat \<Rightarrow> nat \<Rightarrow> u64 \<Rightarrow> emac \<Rightarrow> 'h \<Rightarrow> fault + 'h" where
  "recv_batch x index 0 curbd em h = Inr h"
| "recv_batch x index (Suc k) curbd em h =
     (let bdindex = XEMACPS_BD_TO_INDEX x RxRing curbd h
      in bind_sum (slot_get (rx_pbufs_storage em) (index + bdindex)) (\<lambda>po.
           case po of None \<Rightarrow> Inl Null_deref
           | Some p \<Rightarrow>
               (let rx_bytes = xe_bd_get_length x curbd h;
                    h1 = xe_pbuf_realloc x p rx_bytes h;
                    h2 = inval_unless_coherent x em (xe_pbuf_payload x p h1) rx_bytes h1;
                    (queued, h3) = xe_pq_enqueue x p h2;
                    h4 = (if \<not> queued then xe_pbuf_free x (Some p) h3 else h3)
                in recv_batch x index k (xe_next x RxRing curbd h4) em h4)))"

definition recv_turn ::
  "'h xemacps \<Rightarrow> emac_config \<Rightarrow> nat \<Rightarrow> emac \<times> 'h \<Rightarrow> (fault + (emac \<times> 'h)) + (emac \<times> 'h)" where
  "recv_turn x cfg index s =
     (let (em, h) = s;
          ((bd_processed, rxbdset), h1) = xe_from_hw x RxRing (cfg_n_rx cfg) h
      in if bd_processed = 0 then Inl (Inr (em, h1))
         else (case bind_sum (recv_batch x index bd_processed rxbdset em h1) (\<lambda>h2.
                      setup_rx_bds x cfg em (snd (xe_free x RxRing bd_processed rxbdset h2))) of
                 Inl f \<Rightarrow> Inl (Inl f)
               | Inr s' \<Rightarrow> Inr s'))"

definition emacps_recv_handler ::
  "'h bsp \<Rightarrow> 'h xemacps \<Rightarrow> emac_config \<Rightarrow> emac \<Rightarrow> 'h \<Rightarrow> (fault + (emac \<times> 'h)) option" where
  "emacps_recv_handler b x cfg em h =
     (let (gige, h1) = gigeversion b em h
      in (case get_base_index_rxpbufsstorage cfg em of
            Inl f \<Rightarrow> Some (Inl f)
          | Inr index \<Rightarrow>
              (let (regval, h2) = xe_read_reg x (em_base em) RXSR h1;
                   h3 = xe_write_reg x (em_base em) RXSR regval h2;
                   (em1, h4) = (if gige \<le> 2 then resetrx_on_no_rxdata b x cfg em h3 else (em, h3))
               in forever (recv_turn x cfg index) (em1, h4))))"

section \<open>Setting up and resetting\<close>

definition clean_dma_txdescs :: "'h xemacps \<Rightarrow> emac_config \<Rightarrow> emac \<Rightarrow> 'h \<Rightarrow> 'h" where
  "clean_dma_txdescs x cfg em h =
     (let (_, h1) = xe_create x TxRing (tx_bdspace em) (cfg_n_tx cfg) h
      in snd (xe_clone x TxRing (cfg_txbuf_used cfg) h1))"

text \<open>
  \<open>&bd_space[i]\<close> is computed without a bound check; the four areas of 64 kB that one call takes are the
  address and the index after it.
\<close>

definition bd_area :: "emac_config \<Rightarrow> emac \<Rightarrow> u64 \<times> emac" where
  "bd_area cfg em = (cfg_bd_space cfg + ucast (bd_space_index em),
     em\<lparr>bd_space_index := bd_space_index em + 0x10000\<rparr>)"

fun init_rx_loop ::
  "'h xemacps \<Rightarrow> emac_config \<Rightarrow> nat \<Rightarrow> nat \<Rightarrow> emac \<Rightarrow> 'h \<Rightarrow> fault + (bool \<times> emac \<times> 'h)" where
  "init_rx_loop x cfg index 0 em h = Inr (True, em, h)"
| "init_rx_loop x cfg index (Suc n) em h =
     (let (po, h1) = xe_pool_alloc x (cfg_max_frame cfg) h
      in (case po of
            None \<Rightarrow> Inr (False, em, h1)
          | Some p \<Rightarrow>
              (let (bdo, h2) = xe_alloc x RxRing 1 h1
               in (case bdo of
                     None \<Rightarrow> Inr (False, em, xe_pbuf_free x (Some p) h2)
                   | Some rxbd \<Rightarrow>
                       (let (ok, h3) = xe_to_hw x RxRing 1 rxbd h2
                        in if \<not> ok
                           then Inr (False, em, xe_unalloc x RxRing 1 rxbd (xe_pbuf_free x (Some p) h3))
                           else
                             let bdindex = XEMACPS_BD_TO_INDEX x RxRing rxbd h3;
                                 h4 = xe_bd_write x rxbd 0 0 h3;
                                 h5 = (if bdindex = cfg_n_rx cfg - 1
                                       then xe_bd_write x rxbd 0 0x00000002 h4 else h4);
                                 h6 = xe_bd_write x rxbd 4 0 h5;
                                 pay = xe_pbuf_payload x p h6;
                                 h7 = inval_unless_coherent x em pay (cfg_max_frame cfg) h6;
                                 h8 = xe_bd_set_address_rx x rxbd pay h7
                             in if index + bdindex < length (rx_pbufs_storage em)
                                then init_rx_loop x cfg index n
                                       (em\<lparr>rx_pbufs_storage := (rx_pbufs_storage em)[index + bdindex := Some p]\<rparr>) h8
                                else Inl Index_range)))))"

text \<open>The register part after the receive ring is filled: queue pointers, parked queues, interrupt.\<close>

definition init_queues ::
  "'h xemacps \<Rightarrow> emac_config \<Rightarrow> u32 \<Rightarrow> u64 \<Rightarrow> u64 \<Rightarrow> emac \<Rightarrow> 'h \<Rightarrow> emac \<times> 'h" where
  "init_queues x cfg gige bdrxterminate bdtxterminate em h =
     (let h1 = xe_set_queue_ptr x (xe_base x RxRing h) 0 RxRing h;
          h2 = xe_set_queue_ptr x (xe_base x TxRing h1) (if gige > 2 then 1 else 0) TxRing h1;
          h3 = (if gige > 2 then
                  (let a = xe_bd_clear x bdrxterminate h2;
                       a1 = xe_bd_set_address_rx x bdrxterminate (cfg_rxbuf_new cfg OR cfg_rxbuf_wrap cfg) a;
                       a2 = xe_write_reg x (em_base em) RXQ1BASE (ucast bdrxterminate) a1;
                       a3 = xe_bd_clear x bdtxterminate a2;
                       a4 = xe_bd_set_status x bdtxterminate (cfg_txbuf_used cfg OR cfg_txbuf_wrap cfg) a3
                   in xe_write_reg x (em_base em) TXQBASE (ucast bdtxterminate) a4)
                else h2);
          h4 = xe_gic_register x (cfg_emac_intr cfg) h3;
          h5 = xe_gic_enable x (cfg_emac_intr cfg) h4
      in (em\<lparr>emac_intr_num := cfg_emac_intr cfg\<rparr>, h5))"

text \<open>
  The space for the rings and, on controllers with priority queues, for the two parked descriptors;
  the addresses of the parked descriptors and the interface state after it.
\<close>

definition claim_bd_space :: "emac_config \<Rightarrow> u32 \<Rightarrow> emac \<Rightarrow> u64 \<times> u64 \<times> emac" where
  "claim_bd_space cfg gige em =
     (let (rxs, em1) = bd_area cfg em;
          (txs, em2) = bd_area cfg (em1\<lparr>rx_bdspace := rxs\<rparr>);
          em3 = em2\<lparr>tx_bdspace := txs\<rparr>
      in if gige > 2 then
           (let (bdrxterminate, em4) = bd_area cfg em3;
                (bdtxterminate, em5) = bd_area cfg em4
            in (bdrxterminate, bdtxterminate, em5))
         else (0, 0, em3))"

text \<open>Creating both rings and filling the receive ring; \<open>True\<close> is success, \<open>False\<close> the return of \<open>ERR_IF\<close>.\<close>

definition init_rings ::
  "'h xemacps \<Rightarrow> emac_config \<Rightarrow> nat \<Rightarrow> emac \<Rightarrow> 'h \<Rightarrow> fault + (bool \<times> emac \<times> 'h)" where
  "init_rings x cfg index em h =
     (let (ok1, h1) = xe_create x RxRing (rx_bdspace em) (cfg_n_rx cfg) h
      in if \<not> ok1 then Inr (False, em, h1)
         else
           let (ok2, h2) = xe_clone x RxRing 0 h1
           in if \<not> ok2 then Inr (False, em, h2)
              else
                let (ok3, h3) = xe_create x TxRing (tx_bdspace em) (cfg_n_tx cfg) h2
                in if \<not> ok3 then Inr (False, em, h3)
                   else
                     let (ok4, h4) = xe_clone x TxRing (cfg_txbuf_used cfg) h3
                     in if \<not> ok4 then Inr (False, em, h4)
                        else init_rx_loop x cfg index (cfg_n_rx cfg) em h4)"

text \<open>\<open>True\<close> is the return value 0, \<open>False\<close> is \<open>ERR_IF\<close>.\<close>

definition init_dma ::
  "'h bsp \<Rightarrow> 'h xemacps \<Rightarrow> emac_config \<Rightarrow> emac \<Rightarrow> 'h \<Rightarrow> fault + (bool \<times> emac \<times> 'h)" where
  "init_dma b x cfg em h =
     bind_sum (get_base_index_rxpbufsstorage cfg em) (\<lambda>index.
       let (gige, h1) = gigeversion b em h;
           (em1, h2) = (if bd_space_attr_set em = 0
                        then (em\<lparr>bd_space_attr_set := 1\<rparr>, xe_set_tlb x (cfg_bd_space cfg) h1) else (em, h1));
           (bdrxterminate, bdtxterminate, em2) = claim_bd_space cfg gige em1
       in if rx_bdspace em2 = 0 \<or> tx_bdspace em2 = 0 then Inr (False, em2, h2)
          else
            bind_sum (init_rings x cfg index em2 h2) (\<lambda>(ok, em3, h3).
              if \<not> ok then Inr (False, em3, h3)
              else let (em4, h4) = init_queues x cfg gige bdrxterminate bdtxterminate em3 h3
                   in Inr (True, em4, h4)))"

text \<open>Both loops of the release functions run over the interface's part of the array.\<close>

fun free_tx_loop :: "'h xemacps \<Rightarrow> nat list \<Rightarrow> emac \<Rightarrow> 'h \<Rightarrow> fault + (emac \<times> 'h)" where
  "free_tx_loop x [] em h = Inr (em, h)"
| "free_tx_loop x (i # is) em h =
     bind_sum (slot_get (tx_pbufs_storage em) i) (\<lambda>p.
       if p \<noteq> None
       then free_tx_loop x is (em\<lparr>tx_pbufs_storage := (tx_pbufs_storage em)[i := None]\<rparr>) (xe_pbuf_free x p h)
       else free_tx_loop x is em h)"

fun free_rx_loop :: "'h xemacps \<Rightarrow> nat list \<Rightarrow> emac \<Rightarrow> 'h \<Rightarrow> fault + 'h" where
  "free_rx_loop x [] em h = Inr h"
| "free_rx_loop x (i # is) em h =
     bind_sum (slot_get (rx_pbufs_storage em) i) (\<lambda>p. free_rx_loop x is em (xe_pbuf_free x p h))"

definition free_onlytx_pbufs :: "'h xemacps \<Rightarrow> emac_config \<Rightarrow> emac \<Rightarrow> 'h \<Rightarrow> fault + (emac \<times> 'h)" where
  "free_onlytx_pbufs x cfg em h =
     bind_sum (get_base_index_txpbufsstorage cfg em) (\<lambda>i. free_tx_loop x [i ..< i + cfg_n_tx cfg] em h)"

definition free_txrx_pbufs :: "'h xemacps \<Rightarrow> emac_config \<Rightarrow> emac \<Rightarrow> 'h \<Rightarrow> fault + (emac \<times> 'h)" where
  "free_txrx_pbufs x cfg em h =
     bind_sum (get_base_index_txpbufsstorage cfg em) (\<lambda>i.
     bind_sum (free_tx_loop x [i ..< i + cfg_n_tx cfg] em h) (\<lambda>(em1, h1).
     bind_sum (get_base_index_rxpbufsstorage cfg em1) (\<lambda>j.
     bind_sum (free_rx_loop x [j ..< j + cfg_n_rx cfg] em1 h1) (\<lambda>h2. Inr (em1, h2)))))"

definition reset_dma :: "'h bsp \<Rightarrow> 'h xemacps \<Rightarrow> emac \<Rightarrow> 'h \<Rightarrow> 'h" where
  "reset_dma b x em h =
     (let h1 = xe_ptr_reset x TxRing (tx_bdspace em) h;
          h2 = xe_ptr_reset x RxRing (rx_bdspace em) h1;
          (gige, h3) = gigeversion b em h2;
          txqueuenum = (if gige > 2 then 1 else 0);
          h4 = xe_set_queue_ptr x (xe_base x RxRing h3) 0 RxRing h3
      in xe_set_queue_ptr x (xe_base x TxRing h4) txqueuenum TxRing h4)"

definition emac_disable_intr :: "'h xemacps \<Rightarrow> emac \<Rightarrow> 'h \<Rightarrow> 'h" where
  "emac_disable_intr x em h = xe_gic_disable x (emac_intr_num em) h"

definition emac_enable_intr :: "'h xemacps \<Rightarrow> emac \<Rightarrow> 'h \<Rightarrow> 'h" where
  "emac_enable_intr x em h = xe_gic_enable x (emac_intr_num em) h"

section \<open>The account of buffer references\<close>

text \<open>
  \<open>refs\<close> counts the references to buffers that the driver owns, \<open>rxhw\<close> the descriptors of the receive
  ring that are with the hardware. The operations of the driver below keep both, except: taking and
  giving back references, an allocation that succeeds, a buffer the queue accepts (the queue owns it
  from then on), and the receive descriptors handed to the hardware or taken back from it.
\<close>

definition emac_account :: "'h bsp \<Rightarrow> 'h xemacps \<Rightarrow> ('h \<Rightarrow> int) \<Rightarrow> ('h \<Rightarrow> int) \<Rightarrow> bool" where
  "emac_account b x refs rxhw \<longleftrightarrow>
     (\<forall>a r h. refs (snd (xe_read_reg x a r h)) = refs h \<and>
        rxhw (snd (xe_read_reg x a r h)) = rxhw h) \<and>
     (\<forall>a r v h. refs (xe_write_reg x a r v h) = refs h \<and>
        rxhw (xe_write_reg x a r v h) = rxhw h) \<and>
     (\<forall>g n h. refs (snd (xe_alloc x g n h)) = refs h \<and>
        rxhw (snd (xe_alloc x g n h)) = rxhw h) \<and>
     (\<forall>g n bd h. refs (xe_unalloc x g n bd h) = refs h \<and>
        rxhw (xe_unalloc x g n bd h) = rxhw h) \<and>
     (\<forall>g n bd h. refs (snd (xe_free x g n bd h)) = refs h \<and>
        rxhw (snd (xe_free x g n bd h)) = rxhw h) \<and>
     (\<forall>g a n h. refs (snd (xe_create x g a n h)) = refs h \<and>
        rxhw (snd (xe_create x g a n h)) = rxhw h) \<and>
     (\<forall>g t h. refs (snd (xe_clone x g t h)) = refs h \<and>
        rxhw (snd (xe_clone x g t h)) = rxhw h) \<and>
     (\<forall>g a h. refs (xe_ptr_reset x g a h) = refs h \<and>
        rxhw (xe_ptr_reset x g a h) = rxhw h) \<and>
     (\<forall>a n g h. refs (xe_set_queue_ptr x a n g h) = refs h \<and>
        rxhw (xe_set_queue_ptr x a n g h) = rxhw h) \<and>
     (\<forall>bd a v h. refs (xe_bd_write x bd a v h) = refs h \<and>
        rxhw (xe_bd_write x bd a v h) = rxhw h) \<and>
     (\<forall>bd h. refs (xe_bd_clear x bd h) = refs h \<and>
        rxhw (xe_bd_clear x bd h) = rxhw h) \<and>
     (\<forall>bd v h. refs (xe_bd_set_status x bd v h) = refs h \<and>
        rxhw (xe_bd_set_status x bd v h) = rxhw h) \<and>
     (\<forall>bd a h. refs (xe_bd_set_address_tx x bd a h) = refs h \<and>
        rxhw (xe_bd_set_address_tx x bd a h) = rxhw h) \<and>
     (\<forall>bd a h. refs (xe_bd_set_address_rx x bd a h) = refs h \<and>
        rxhw (xe_bd_set_address_rx x bd a h) = rxhw h) \<and>
     (\<forall>bd v h. refs (xe_bd_set_length x bd v h) = refs h \<and>
        rxhw (xe_bd_set_length x bd v h) = rxhw h) \<and>
     (\<forall>bd h. refs (xe_bd_set_last x bd h) = refs h \<and>
        rxhw (xe_bd_set_last x bd h) = rxhw h) \<and>
     (\<forall>bd h. refs (xe_bd_clear_last x bd h) = refs h \<and>
        rxhw (xe_bd_clear_last x bd h) = rxhw h) \<and>
     (\<forall>bd h. refs (xe_bd_clear_tx_used x bd h) = refs h \<and>
        rxhw (xe_bd_clear_tx_used x bd h) = rxhw h) \<and>
     (\<forall>p n h. refs (xe_pbuf_realloc x p n h) = refs h \<and>
        rxhw (xe_pbuf_realloc x p n h) = rxhw h) \<and>
     (\<forall>a n h. refs (xe_dcache_flush x a n h) = refs h \<and>
        rxhw (xe_dcache_flush x a n h) = rxhw h) \<and>
     (\<forall>a n h. refs (xe_dcache_inval x a n h) = refs h \<and>
        rxhw (xe_dcache_inval x a n h) = rxhw h) \<and>
     (\<forall>a h. refs (xe_set_tlb x a h) = refs h \<and>
        rxhw (xe_set_tlb x a h) = rxhw h) \<and>
     (\<forall>v h. refs (xe_gic_register x v h) = refs h \<and>
        rxhw (xe_gic_register x v h) = rxhw h) \<and>
     (\<forall>v h. refs (xe_gic_enable x v h) = refs h \<and>
        rxhw (xe_gic_enable x v h) = rxhw h) \<and>
     (\<forall>v h. refs (xe_gic_disable x v h) = refs h \<and>
        rxhw (xe_gic_disable x v h) = rxhw h) \<and>
     (\<forall>a h. refs (snd (xil_in32 b a h)) = refs h \<and>
        rxhw (snd (xil_in32 b a h)) = rxhw h) \<and>
     (\<forall>p h. refs (xe_pbuf_ref x p h) = refs h + 1 \<and>
        rxhw (xe_pbuf_ref x p h) = rxhw h) \<and>
     (\<forall>po h. refs (xe_pbuf_free x po h) = refs h - held po \<and>
        rxhw (xe_pbuf_free x po h) = rxhw h) \<and>
     (\<forall>n h. refs (snd (xe_pool_alloc x n h)) = refs h + held (fst (xe_pool_alloc x n h)) \<and>
        rxhw (snd (xe_pool_alloc x n h)) = rxhw h) \<and>
     (\<forall>p h. refs (snd (xe_pq_enqueue x p h)) = refs h - of_bool (fst (xe_pq_enqueue x p h)) \<and>
        rxhw (snd (xe_pq_enqueue x p h)) = rxhw h) \<and>
     (\<forall>g n bd h. refs (snd (xe_to_hw x g n bd h)) = refs h \<and>
        rxhw (snd (xe_to_hw x g n bd h)) = rxhw h + (if g = RxRing \<and> fst (xe_to_hw x g n bd h) then int n else 0)) \<and>
     (\<forall>g n h. refs (snd (xe_from_hw x g n h)) = refs h \<and>
        rxhw (snd (xe_from_hw x g n h)) = rxhw h - (if g = RxRing then int (fst (fst (xe_from_hw x g n h))) else 0))"

lemma emac_account_simps:
  assumes "emac_account b x refs rxhw"
  shows
    "refs (snd (xe_read_reg x a r h)) = refs h" "rxhw (snd (xe_read_reg x a r h)) = rxhw h"
    "refs (xe_write_reg x a r v h) = refs h" "rxhw (xe_write_reg x a r v h) = rxhw h"
    "refs (snd (xe_alloc x g n h)) = refs h" "rxhw (snd (xe_alloc x g n h)) = rxhw h"
    "refs (xe_unalloc x g n bd h) = refs h" "rxhw (xe_unalloc x g n bd h) = rxhw h"
    "refs (snd (xe_free x g n bd h)) = refs h" "rxhw (snd (xe_free x g n bd h)) = rxhw h"
    "refs (snd (xe_create x g a n h)) = refs h" "rxhw (snd (xe_create x g a n h)) = rxhw h"
    "refs (snd (xe_clone x g t h)) = refs h" "rxhw (snd (xe_clone x g t h)) = rxhw h"
    "refs (xe_ptr_reset x g a h) = refs h" "rxhw (xe_ptr_reset x g a h) = rxhw h"
    "refs (xe_set_queue_ptr x a n g h) = refs h" "rxhw (xe_set_queue_ptr x a n g h) = rxhw h"
    "refs (xe_bd_write x bd a v h) = refs h" "rxhw (xe_bd_write x bd a v h) = rxhw h"
    "refs (xe_bd_clear x bd h) = refs h" "rxhw (xe_bd_clear x bd h) = rxhw h"
    "refs (xe_bd_set_status x bd v h) = refs h" "rxhw (xe_bd_set_status x bd v h) = rxhw h"
    "refs (xe_bd_set_address_tx x bd a h) = refs h" "rxhw (xe_bd_set_address_tx x bd a h) = rxhw h"
    "refs (xe_bd_set_address_rx x bd a h) = refs h" "rxhw (xe_bd_set_address_rx x bd a h) = rxhw h"
    "refs (xe_bd_set_length x bd v h) = refs h" "rxhw (xe_bd_set_length x bd v h) = rxhw h"
    "refs (xe_bd_set_last x bd h) = refs h" "rxhw (xe_bd_set_last x bd h) = rxhw h"
    "refs (xe_bd_clear_last x bd h) = refs h" "rxhw (xe_bd_clear_last x bd h) = rxhw h"
    "refs (xe_bd_clear_tx_used x bd h) = refs h" "rxhw (xe_bd_clear_tx_used x bd h) = rxhw h"
    "refs (xe_pbuf_realloc x p n h) = refs h" "rxhw (xe_pbuf_realloc x p n h) = rxhw h"
    "refs (xe_dcache_flush x a n h) = refs h" "rxhw (xe_dcache_flush x a n h) = rxhw h"
    "refs (xe_dcache_inval x a n h) = refs h" "rxhw (xe_dcache_inval x a n h) = rxhw h"
    "refs (xe_set_tlb x a h) = refs h" "rxhw (xe_set_tlb x a h) = rxhw h"
    "refs (xe_gic_register x v h) = refs h" "rxhw (xe_gic_register x v h) = rxhw h"
    "refs (xe_gic_enable x v h) = refs h" "rxhw (xe_gic_enable x v h) = rxhw h"
    "refs (xe_gic_disable x v h) = refs h" "rxhw (xe_gic_disable x v h) = rxhw h"
    "refs (snd (xil_in32 b a h)) = refs h" "rxhw (snd (xil_in32 b a h)) = rxhw h"
    "refs (xe_pbuf_ref x p h) = refs h + 1" "rxhw (xe_pbuf_ref x p h) = rxhw h"
    "refs (xe_pbuf_free x po h) = refs h - held po" "rxhw (xe_pbuf_free x po h) = rxhw h"
    "refs (snd (xe_pool_alloc x n h)) = refs h + held (fst (xe_pool_alloc x n h))" "rxhw (snd (xe_pool_alloc x n h)) = rxhw h"
    "refs (snd (xe_pq_enqueue x p h)) = refs h - of_bool (fst (xe_pq_enqueue x p h))" "rxhw (snd (xe_pq_enqueue x p h)) = rxhw h"
    "refs (snd (xe_to_hw x g n bd h)) = refs h" "rxhw (snd (xe_to_hw x g n bd h)) = rxhw h + (if g = RxRing \<and> fst (xe_to_hw x g n bd h) then int n else 0)"
    "refs (snd (xe_from_hw x g n h)) = refs h" "rxhw (snd (xe_from_hw x g n h)) = rxhw h - (if g = RxRing then int (fst (fst (xe_from_hw x g n h))) else 0)"
  using assms by (simp_all only: emac_account_def)

end
