(* ===== verification/Gptp.thy ===== *)
theory Gptp
  imports Ptp Emac
begin

text \<open>
  The gPTP client over raw Ethernet, \<open>IEEE1588/gptp.c\<close> and \<open>gptp.h\<close>: the sender of delay requests, the
  start-up, the multicast and promiscuous modes of the controller, and the hash of a hardware address
  with its table-driven checksum. Clock and controller are those of \<open>ptp.c\<close>.
\<close>

section \<open>Operations\<close>

definition gptp_eth_header :: "u8 list" where
  "gptp_eth_header = [0x01, 0x1B, 0x19, 0x00, 0x00, 0x00, 0x00, 0x0a, 0x35, 0x00, 0x01, 0x02, 0x88, 0xF7]"

definition ETHERNET_HEADER_LEN :: nat where "ETHERNET_HEADER_LEN = 14"

definition handle_gptp :: "'h ptp \<Rightarrow> 'h ptp" where
  "handle_gptp w = w"

text \<open>The receiver for raw sockets; nothing registers it, since the body of \<open>bind_raw_sock\<close> is commented out.\<close>

definition gptp_msg_interpreter :: "'h lwip \<Rightarrow> nat \<Rightarrow> 'h ptp_node \<Rightarrow> fault + 'h ptp_node" where
  "gptp_msg_interpreter l p nd =
     bind_sum (ptp_sync_interpreter (nd_cbs nd) (lw_pbuf_msg l p (hw (nd_world nd))) (nd_sync nd) (nd_world nd))
       (\<lambda>(stat, s, w). Inr (nd\<lparr>nd_sync := s, nd_world := lw (lw_pbuf_free l p) w\<rparr>))"

definition bind_raw_sock :: "'h ptp \<Rightarrow> 'h ptp" where
  "bind_raw_sock w = w"

definition gptp_send_delay_request :: "'h lwip \<Rightarrow> u8 list \<Rightarrow> 'h ptp \<Rightarrow> fault + 'h ptp" where
  "gptp_send_delay_request l msg w =
     (let frame = gptp_eth_header @ msg;
          (p, h1) = lw_pbuf_alloc l PBUF_RAW (ETHERNET_HEADER_LEN + length msg) (hw w)
      in (case p of
            None \<Rightarrow> Inr (w\<lparr>hw := h1\<rparr>)
          | Some p \<Rightarrow>
              (let h2 = lw_pbuf_store l p frame h1;
                   h3 = lw_linkoutput l p h2;
                   h4 = lw_pbuf_free l p h3
               in Inr (w\<lparr>hw := h4\<rparr>))))"

definition init_gptp_task :: "'h bsp \<Rightarrow> 'h lwip \<Rightarrow> rat \<Rightarrow> 'h ptp_node \<Rightarrow> 'h ptp_node" where
  "init_gptp_task b l q nd =
     (let w1 = init_tsu b q (nd_world nd);
          c1 = ptp_sync_register_gettime_cb (get_systime b) (nd_cbs nd);
          c2 = ptp_sync_register_report_diff_cb (ptp_process_time_diff b (nd_params nd)) c1;
          c3 = ptp_sync_register_delay_req_cb (gptp_send_delay_request l) c2;
          w2 = w1\<lparr>group_addr := PTP_MULTICAST_IPV4_ADDR32\<rparr>;
          w3 = ptp_start_sync l w2
      in nd\<lparr>nd_cbs := c3, nd_world := w3\<rparr>)"

text \<open>
  The checksum keeps its table in a static that the first call fills.
\<close>

record crc_state =
  crc_table :: "u32 list"
  table_init :: bool

definition crc_boot :: crc_state where
  "crc_boot = \<lparr>crc_table = replicate 256 0, table_init = False\<rparr>"

definition crc_shift :: "u32 \<Rightarrow> u32" where
  "crc_shift v = (if v AND 1 \<noteq> 0 then 0xEDB88320 XOR drop_bit 1 v else drop_bit 1 v)"

definition fill_crc_table :: "crc_state \<Rightarrow> crc_state" where
  "fill_crc_table st =
     (if \<not> table_init st
      then st\<lparr>crc_table := map (\<lambda>i. (crc_shift ^^ 8) (of_nat i)) [0..<256], table_init := True\<rparr>
      else st)"

definition ethernet_crc32 :: "u8 list \<Rightarrow> crc_state \<Rightarrow> u32 \<times> crc_state" where
  "ethernet_crc32 data st =
     (let st1 = fill_crc_table st;
          crc = fold (\<lambda>b crc. crc_table st1 ! unat ((crc XOR ucast b) AND 0xFF) XOR drop_bit 8 crc)
                  data 0xFFFFFFFF
      in (crc XOR 0xFFFFFFFF, st1))"

definition mac_to_hash_table :: "u8 list \<Rightarrow> crc_state \<Rightarrow> u8 list \<times> crc_state" where
  "mac_to_hash_table mac st =
     (let hash_table = replicate 8 (0 :: u8);
          (crc, st1) = ethernet_crc32 mac st;
          index = (ucast (drop_bit 26 crc AND 0x3F) :: u8);
          i = unat (drop_bit 3 index)
      in (hash_table[i := hash_table ! i OR push_bit (unat (index AND 7)) 1], st1))"

definition ptp_multicast_mac :: "u8 list" where
  "ptp_multicast_mac = [0x01, 0x1B, 0x19, 0x00, 0x00, 0x00]"

definition enable_mac_multicast :: "'h bsp \<Rightarrow> 'h xemacps \<Rightarrow> emac_config \<Rightarrow> emac \<Rightarrow> 'h \<Rightarrow> 'h" where
  "enable_mac_multicast b x cfg em h =
     (let h1 = xe_stop x h;
          (_, h2) = xe_set_options x (cfg_multicast_option cfg) h1;
          h3 = xe_set_hash x ptp_multicast_mac h2;
          h4 = reset_dma b x em h3
      in xe_start x h4)"

definition open_xemacps_promiscuous :: "'h xemacps \<Rightarrow> emac_config \<Rightarrow> 'h \<Rightarrow> 'h" where
  "open_xemacps_promiscuous x cfg h = snd (xe_set_options x (cfg_promisc_option cfg) h)"

definition close_xemacps_promiscuous :: "'h xemacps \<Rightarrow> emac_config \<Rightarrow> 'h \<Rightarrow> 'h" where
  "close_xemacps_promiscuous x cfg h = snd (xe_clear_options x (cfg_promisc_option cfg) h)"

definition gptp_init ::
  "'h bsp \<Rightarrow> 'h lwip \<Rightarrow> 'h xemacps \<Rightarrow> emac_config \<Rightarrow> rat \<Rightarrow> emac \<Rightarrow> 'h ptp timesync_init_param \<Rightarrow>
   'h ptp_node \<Rightarrow> 'h ptp_node" where
  "gptp_init b l x cfg q em ip nd =
     (let nd1 = nd\<lparr>nd_world := lw (enable_mac_multicast b x cfg em) (nd_world nd)\<rparr>
      in init_gptp_task b l q (set_gptp_param ip nd1))"

section \<open>The checksum\<close>

text \<open>The reference: the byte is added to the low bits of the register, then the register is shifted bit by bit.\<close>

definition crc32_bitwise :: "u8 list \<Rightarrow> u32" where
  "crc32_bitwise data = fold (\<lambda>b crc. (crc_shift ^^ 8) (crc XOR ucast b)) data 0xFFFFFFFF XOR 0xFFFFFFFF"

lemma crc_shift_alt: "crc_shift v = (if bit v 0 then 0xEDB88320 else 0) XOR drop_bit 1 v"
  by (simp add: crc_shift_def bit_0 and_one_eq odd_iff_mod_2_eq_one)

lemma crc_shift_xor: "crc_shift (a XOR c) = crc_shift a XOR crc_shift c"
  unfolding crc_shift_alt by (rule bit_word_eqI) (auto simp: bit_simps)

lemma crc_shift_funpow_xor: "(crc_shift ^^ k) (a XOR c) = (crc_shift ^^ k) a XOR (crc_shift ^^ k) c"
  by (induction k) (simp_all add: crc_shift_xor)

lemma crc_shift_high: "\<forall>i < k. \<not> bit v i \<Longrightarrow> (crc_shift ^^ k) v = drop_bit k v"
proof (induction k arbitrary: v)
  case 0
  then show ?case by simp
next
  case (Suc k)
  then have "(crc_shift ^^ k) v = drop_bit k v" by simp
  moreover have "\<not> bit (drop_bit k v) 0" using Suc.prems by (simp add: bit_drop_bit_eq)
  ultimately show ?case by (simp add: crc_shift_alt [of "drop_bit k v"] drop_bit_drop_bit)
qed

lemma crc_byte_step:
  "(crc_shift ^^ 8) (c XOR ucast (b :: u8)) =
    (crc_shift ^^ 8) ((c XOR ucast b) AND 0xFF) XOR drop_bit 8 c"
proof -
  let ?x = "c XOR ucast b"
  have m: "(0xFF :: u32) = mask 8" by (simp add: mask_eq_exp_minus_1)
  have "?x = (?x AND 0xFF) XOR (?x AND NOT 0xFF)"
    by (rule bit_word_eqI) (auto simp: bit_simps)
  then have "(crc_shift ^^ 8) ?x = (crc_shift ^^ 8) (?x AND 0xFF) XOR (crc_shift ^^ 8) (?x AND NOT 0xFF)"
    by (metis crc_shift_funpow_xor)
  moreover have "(crc_shift ^^ 8) (?x AND NOT 0xFF) = drop_bit 8 (?x AND NOT 0xFF)"
    unfolding m by (rule crc_shift_high) (simp add: bit_and_iff bit_not_iff bit_mask_iff)
  moreover have "drop_bit 8 (?x AND NOT 0xFF) = drop_bit 8 c"
    unfolding m by (rule bit_word_eqI) (auto simp: bit_simps bit_ucast_iff dest: bit_imp_le_length)
  ultimately show ?thesis by simp
qed

definition crc_ready :: "crc_state \<Rightarrow> bool" where
  "crc_ready st \<longleftrightarrow> (table_init st \<longrightarrow> crc_table st = map (\<lambda>i. (crc_shift ^^ 8) (of_nat i)) [0..<256])"

lemma crc_fold_step:
  assumes "crc_table st = map (\<lambda>i. (crc_shift ^^ 8) (of_nat i)) [0..<256]"
  shows "fold (\<lambda>b crc. crc_table st ! unat ((crc XOR ucast b) AND 0xFF) XOR drop_bit 8 crc) data c =
    fold (\<lambda>b crc. (crc_shift ^^ 8) (crc XOR ucast (b :: u8))) data c"
proof (induction data arbitrary: c)
  case Nil
  then show ?case by simp
next
  case (Cons b data)
  let ?y = "(c XOR ucast b) AND 0xFF"
  have m: "(0xFF :: u32) = mask 8" by (simp add: mask_eq_exp_minus_1)
  have "unat ?y = take_bit 8 (unat (c XOR ucast b))"
    unfolding m take_bit_eq_mask [symmetric] by (rule unsigned_take_bit_eq)
  then have "unat ?y < 256" using take_bit_nat_less_exp [of 8 "unat (c XOR ucast b)"] by simp
  then have "crc_table st ! unat ?y = (crc_shift ^^ 8) ?y" by (simp add: assms)
  then show ?case using Cons.IH by (simp add: crc_byte_step del: funpow.simps)
qed

text \<open>
  C28: the table-driven checksum equals the bitwise one on every input, on the first call that fills the
  table as on every later call, and leaves the table ready for the next.
\<close>
theorem ethernet_crc32_is_bitwise:
  assumes "crc_ready st"
  shows "fst (ethernet_crc32 data st) = crc32_bitwise data \<and> crc_ready (snd (ethernet_crc32 data st))"
proof -
  have t: "crc_table (fill_crc_table st) = map (\<lambda>i. (crc_shift ^^ 8) (of_nat i)) [0..<256]"
    using assms by (simp add: crc_ready_def fill_crc_table_def del: funpow.simps upt_rec_numeral)
  show ?thesis
    unfolding ethernet_crc32_def crc32_bitwise_def crc_ready_def Let_def fst_conv snd_conv crc_fold_step [OF t]
    using t by blast
qed

theorem ethernet_crc32_is_bitwise_witness:
  "fst (ethernet_crc32 [0x61] crc_boot) = 0xE8B7BE43"
proof -
  have "crc_ready crc_boot" by (simp add: crc_ready_def crc_boot_def)
  moreover have "crc32_bitwise [0x61] = 0xE8B7BE43"
    by code_simp
  ultimately show ?thesis using ethernet_crc32_is_bitwise [of crc_boot] by simp
qed

section \<open>The hash of an address\<close>

lemma hash_index_bounds:
  fixes crc :: u32
  defines "index \<equiv> (ucast (drop_bit 26 crc AND 0x3F) :: u8)"
  shows "unat index = unat crc div 2 ^ 26" and "unat (drop_bit 3 index) = unat index div 8"
    and "unat (index AND 7) = unat index mod 8" and "unat index < 64"
proof -
  have c: "unat crc < 2 ^ 32" using unsigned_less [of crc, where ?'a = nat] by simp
  have m6: "(0x3F :: u32) = mask 6" and m3: "(7 :: u8) = mask 3" by (simp_all add: mask_eq_exp_minus_1)
  have d: "unat (drop_bit 26 crc) = unat crc div 2 ^ 26"
    unfolding unsigned_drop_bit_eq unfolding drop_bit_eq_div using c by (simp add: take_bit_nat_eq_self)
  have "unat (drop_bit 26 crc AND 0x3F) = take_bit 6 (unat crc div 2 ^ 26)"
    unfolding m6 take_bit_eq_mask [symmetric] unsigned_take_bit_eq d ..
  also have "\<dots> = unat crc div 2 ^ 26"
    using c by (simp add: take_bit_nat_eq_self_iff less_mult_imp_div_less)
  finally have a: "unat (drop_bit 26 crc AND 0x3F) = unat crc div 2 ^ 26" .
  have lt: "unat crc div 2 ^ 26 < 64" using c by (simp add: less_mult_imp_div_less)
  show i: "unat index = unat crc div 2 ^ 26"
    unfolding index_def unsigned_ucast_eq using a lt by (simp add: take_bit_nat_eq_self_iff)
  show "unat index < 64" using i lt by simp
  show "unat (drop_bit 3 index) = unat index div 8"
    unfolding unsigned_drop_bit_eq unfolding drop_bit_eq_div
    using unsigned_less [of index, where ?'a = nat] by (simp add: take_bit_nat_eq_self)
  show "unat (index AND 7) = unat index mod 8"
    unfolding m3 take_bit_eq_mask [symmetric] unsigned_take_bit_eq by (simp add: take_bit_eq_mod)
qed

text \<open>
  The hash of an address is eight bytes with one bit set, whose number is the top six bits of the
  checksum; no store leaves the table.
\<close>

lemma mac_to_hash_table_one_bit:
  fixes mac st
  defines "k \<equiv> unat (fst (ethernet_crc32 mac st)) div 2 ^ 26"
  shows "length (fst (mac_to_hash_table mac st)) = 8 \<and> k < 64 \<and>
    (\<forall>i < 8. \<forall>j < 8. bit (fst (mac_to_hash_table mac st) ! i) j \<longleftrightarrow> 8 * i + j = k)"
proof -
  let ?crc = "fst (ethernet_crc32 mac st)"
  note b = hash_index_bounds [of ?crc]
  have k: "k < 64" using b(1,4) by (simp add: k_def)
  have t: "fst (mac_to_hash_table mac st) = (replicate 8 0)[k div 8 := push_bit (k mod 8) 1]"
    using k by (simp add: mac_to_hash_table_def Let_def split_beta b(1-3) k_def)
  have bits: "bit (push_bit (k mod 8) (1 :: u8)) j \<longleftrightarrow> j = k mod 8" if "j < 8" for j
    using that by (auto simp: bit_simps)
  have "bit ((replicate 8 (0::u8))[k div 8 := push_bit (k mod 8) 1] ! i) j \<longleftrightarrow> 8 * i + j = k"
    if "i < 8" "j < 8" for i j
  proof (cases "i = k div 8")
    case True
    have "8 * (k div 8) + j = k \<longleftrightarrow> j = k mod 8" using mult_div_mod_eq [of 8 k] by linarith
    then show ?thesis using True that bits by (simp add: nth_list_update)
  next
    case False
    moreover have "8 * i + j \<noteq> k" using False that by auto
    ultimately show ?thesis using that by (simp add: nth_list_update)
  qed
  then show ?thesis using k t by simp
qed

section \<open>The contract of a raw sender\<close>

text \<open>
  A time source that sends over the link layer: a send that finds no buffer does nothing, so it never
  stops, and a run of the interpreter always returns.
\<close>

locale raw_time_source = time_service b ip inv
  for b :: "'h bsp" and ip :: "'h ptp timesync_init_param" and inv :: "'h ptp \<Rightarrow> bool" +
  fixes l :: "'h lwip"
  assumes sent: "inv w \<Longrightarrow> gptp_send_delay_request l bs w = Inr w' \<Longrightarrow> inv w'"
begin

lemma send_returns: "\<exists>w'. gptp_send_delay_request l bs w = Inr w'"
  by (auto simp: gptp_send_delay_request_def Let_def split_beta split: option.splits)

end

sublocale raw_time_source \<subseteq> callbacks: sync_callbacks "get_systime b" "ptp_process_time_diff b (Some ip)"
  "gptp_send_delay_request l" inv "\<lambda>f. False"
proof
  show "inv w \<Longrightarrow> inv (snd (get_systime b w))" for w by (rule systime_keeps)
  show "inv w \<Longrightarrow> \<exists>w'. ptp_process_time_diff b (Some ip) off a d w = Inr w' \<and> inv w'" for w off a d
    by (rule process_keeps)
  show "(\<exists>f. gptp_send_delay_request l bs w = Inl f \<and> False) \<or> (\<exists>w'. gptp_send_delay_request l bs w = Inr w' \<and> inv w')"
    if "inv w" "length bs = 44" for w bs
    using send_returns [of bs w] sent [OF that(1)] by blast
qed

lemma gptp_send_hw:
  assumes "gptp_send_delay_request l bs w = Inr w'"
  shows "\<exists>h. w' = w\<lparr>hw := h\<rparr> \<and> (net_pool b l refs pcbs \<longrightarrow> refs h = refs (hw w) \<and> pcbs h = pcbs (hw w))"
proof -
  obtain q h1 where a: "lw_pbuf_alloc l PBUF_RAW (ETHERNET_HEADER_LEN + length bs) (hw w) = (q, h1)" by fastforce
  have a': "refs h1 = refs (hw w) + held q" "pcbs h1 = pcbs (hw w)" if "net_pool b l refs pcbs"
    using that a unfolding net_pool_def by (metis fst_conv snd_conv)+
  show ?thesis
    using assms a' by (cases q) (auto simp: gptp_send_delay_request_def a net_pool_def)
qed

interpretation gptp_source: raw_time_source b "init_param b" "node_inv b l refs pcbs n k" l
  for b :: "'h bsp" and l refs pcbs n k
proof (intro raw_time_source.intro raw_time_source_axioms.intro)
  show "time_service b (init_param b) (node_inv b l refs pcbs n k)"
    by (rule ptp_source.time_service_axioms)
  show "node_inv b l refs pcbs n k w'"
    if "node_inv b l refs pcbs n k w" "gptp_send_delay_request l bs w = Inr w'" for w bs w'
    using gptp_send_hw [OF that(2), of b refs pcbs] node_inv_hw [OF that(1)] that(1)
    by (auto simp: node_inv_def)
qed

section \<open>The node after start-up\<close>

lemma gptp_init_effects:
  "nd_cbs (gptp_init b l x cfg q em ip nd) =
     \<lparr>sSyscTimeCb = Some (get_systime b), sReportDiffCb = Some (ptp_process_time_diff b (Some ip)),
      sSendDlyReqCb = Some (gptp_send_delay_request l)\<rparr>"
  "nd_sync (gptp_init b l x cfg q em ip nd) = nd_sync nd"
  "nd_params (gptp_init b l x cfg q em ip nd) = Some ip"
  "group_addr (nd_world (gptp_init b l x cfg q em ip nd)) = PTP_MULTICAST_IPV4_ADDR32"
  by (simp_all add: gptp_init_def init_gptp_task_def set_gptp_param_def Let_def ptp_sync_register_gettime_cb_def
      ptp_sync_register_report_diff_cb_def ptp_sync_register_delay_req_cb_def ptp_start_sync_def lw_def)

lemma gptp_init_world:
  "\<exists>h. nd_world (gptp_init b l x cfg q em ip nd) =
    (nd_world nd)\<lparr>hw := h, group_addr := PTP_MULTICAST_IPV4_ADDR32\<rparr>"
proof -
  let ?w = "lw (enable_mac_multicast b x cfg em) (nd_world nd)"
  obtain h1 where "init_tsu b q ?w = (nd_world nd)\<lparr>hw := h1\<rparr>"
    using init_tsu_hw [of b q ?w] by (auto simp: lw_def)
  then show ?thesis
    by (intro exI [of _ "lw_igmp_joingroup_netif l PTP_MULTICAST_IPV4_ADDR32 h1"])
      (simp add: gptp_init_def init_gptp_task_def set_gptp_param_def Let_def ptp_start_sync_def lw_def ptp_update_order)
qed

end
