(* ===== verification/EmacAccount.thy ===== *)
theory EmacAccount
  imports Emac
begin

text \<open>
  What the driver owes: the references it holds are exactly the filled slots of the transmit array plus
  the receive descriptors that are with the hardware. Every operation of the transmit and receive
  paths keeps this balance, on the failure returns as well.
\<close>

definition tx_held :: "emac \<Rightarrow> int" where
  "tx_held em = sum_list (map held (tx_pbufs_storage em))"

definition balance :: "('h \<Rightarrow> int) \<Rightarrow> ('h \<Rightarrow> int) \<Rightarrow> emac \<Rightarrow> 'h \<Rightarrow> int" where
  "balance refs rxhw em h = refs h - tx_held em - rxhw h"

lemma sum_held_update:
  "i < length xs \<Longrightarrow>
    sum_list (map held (xs[i := v])) = sum_list (map held xs) + held v - held (xs ! i)"
  by (induction xs arbitrary: i) (auto split: nat.splits)

lemma slot_get_Inr: "slot_get xs i = Inr v \<longleftrightarrow> i < length xs \<and> v = xs ! i"
  by (auto simp: slot_get_def)

lemma tx_held_update:
  "i < length (tx_pbufs_storage em) \<Longrightarrow>
    tx_held (em\<lparr>tx_pbufs_storage := (tx_pbufs_storage em)[i := v]\<rparr>) =
      tx_held em + held v - held (tx_pbufs_storage em ! i)"
  by (simp add: tx_held_def sum_held_update)

lemma tx_held_rx [simp]: "tx_held (em\<lparr>rx_pbufs_storage := v\<rparr>) = tx_held em"
  by (simp add: tx_held_def)

lemma held_free: "(if po \<noteq> None then (n::int) - held po else n) = n - held po"
  by (cases po) auto

section \<open>The transmit side\<close>

lemma sent_loop_balance:
  assumes acc: "emac_account b x refs rxhw"
    and "sent_loop x cfg index n bd em h = Inr (em', h')"
  shows "balance refs rxhw em' h' = balance refs rxhw em h"
  using assms(2)
proof (induction n arbitrary: bd em h)
  case 0
  then show ?case by simp
next
  case (Suc n)
  note acs = emac_account_simps [OF acc]
  let ?i = "index + XEMACPS_BD_TO_INDEX x TxRing bd h"
  let ?po = "tx_pbufs_storage em ! ?i"
  let ?h2 = "xe_bd_write x bd 4 (if XEMACPS_BD_TO_INDEX x TxRing bd h = cfg_n_tx cfg - 1
      then 0xC0000000 else 0x80000000) (xe_bd_write x bd 0 0 h)"
  let ?h3 = "if ?po \<noteq> None then xe_pbuf_free x ?po ?h2 else ?h2"
  let ?em1 = "em\<lparr>tx_pbufs_storage := (tx_pbufs_storage em)[?i := None]\<rparr>"
  have i: "?i < length (tx_pbufs_storage em)" and
    rest: "sent_loop x cfg index n (xe_next x TxRing bd ?h3) ?em1 ?h3 = Inr (em', h')"
    using Suc.prems by (auto simp: Let_def bind_sum_Inr_iff slot_get_Inr)
  have "balance refs rxhw ?em1 ?h3 = balance refs rxhw em h"
    by (simp add: balance_def tx_held_update [OF i] acs)
  then show ?case using Suc.IH [OF rest] by simp
qed

lemma process_sent_balance:
  assumes acc: "emac_account b x refs rxhw"
    and run: "process_sent_bds x cfg em h = Some (Inr (em', h'))"
  shows "balance refs rxhw em' h' = balance refs rxhw em h"
proof -
  note acs = emac_account_simps [OF acc]
  let ?P = "\<lambda>(e, k). balance refs rxhw e k = balance refs rxhw em h"
  obtain index where "forever (sent_turn x cfg index) (em, h) = Some (Inr (em', h'))"
    using run by (auto simp: process_sent_bds_def split: sum.splits)
  then have "\<forall>e k. Inr (em', h') = (Inr (e, k) :: fault + _) \<longrightarrow> ?P (e, k)"
  proof (rule forever_keeps [where P = ?P])
    show "?P (em, h)" by simp
    show "?P s'" if "?P s" "sent_turn x cfg index s = Inr s'" for s s'
      using that sent_loop_balance [OF acc]
      by (cases s; cases s')
         (auto simp: sent_turn_def Let_def balance_def acs split_beta split: if_splits sum.splits)
    show "\<forall>e k. r = Inr (e, k) \<longrightarrow> ?P (e, k)" if "?P s" "sent_turn x cfg index s = Inl r" for s r
      using that
      by (cases s) (auto simp: sent_turn_def Let_def balance_def acs split_beta split: if_splits sum.splits)
  qed
  then show ?thesis by simp
qed

lemma sgsend_loop_balance:
  assumes acc: "emac_account b x refs rxhw"
    and "sgsend_loop x cfg index qs bd lst em h = Inr (r, em', h')"
  shows "balance refs rxhw em' h' = balance refs rxhw em h"
  using assms(2)
proof (induction qs arbitrary: bd lst em h)
  case Nil
  then show ?case by simp
next
  case (Cons q qs)
  note acs = emac_account_simps [OF acc]
  let ?i = "index + XEMACPS_BD_TO_INDEX x TxRing bd h"
  have i: "?i < length (tx_pbufs_storage em)"
    using Cons.prems by (auto simp: Let_def bind_sum_Inr_iff slot_get_Inr)
  show ?case
  proof (cases "tx_pbufs_storage em ! ?i")
    case None
    then obtain bd' lst' em1 h5 where rest: "sgsend_loop x cfg index qs bd' lst' em1 h5 = Inr (r, em', h')"
      and em1: "em1 = em\<lparr>tx_pbufs_storage := (tx_pbufs_storage em)[?i := Some q]\<rparr>"
      and h5: "refs h5 = refs h + 1" "rxhw h5 = rxhw h"
      using Cons.prems i by (auto simp: Let_def bind_sum_Inr_iff slot_get_Inr acs split: if_splits)
    have "balance refs rxhw em1 h5 = balance refs rxhw em h"
      by (simp add: balance_def em1 tx_held_update [OF i] None h5)
    then show ?thesis using Cons.IH [OF rest] by simp
  next
    case (Some p)
    then show ?thesis
      using Cons.prems i by (auto simp: Let_def bind_sum_Inr_iff slot_get_Inr)
  qed
qed

lemma clear_used_account:
  assumes acc: "emac_account b x refs rxhw"
  shows "refs (clear_used_loop x qs bd h) = refs h" "rxhw (clear_used_loop x qs bd h) = rxhw h"
  by (induction qs arbitrary: bd h) (simp_all add: Let_def emac_account_simps [OF acc])

lemma sgsend_commit_account:
  assumes acc: "emac_account b x refs rxhw"
  shows "refs (snd (sgsend_commit x cfg qs bd lst a h)) = refs h"
    "rxhw (snd (sgsend_commit x cfg qs bd lst a h)) = rxhw h"
  by (simp_all add: sgsend_commit_def Let_def split_beta emac_account_simps [OF acc] clear_used_account [OF acc])

lemma sgsend_balance:
  assumes acc: "emac_account b x refs rxhw"
    and run: "emacps_sgsend x cfg p em h = Inr (ok, em', h')"
  shows "balance refs rxhw em' h' = balance refs rxhw em h"
proof -
  note acs = emac_account_simps [OF acc]
  obtain bds h1 where a: "xe_alloc x TxRing (length (xe_pbuf_chain x p h)) h = (bds, h1)" by fastforce
  have b1: "balance refs rxhw e h1 = balance refs rxhw e h" for e
    using acs(5,6) [of TxRing "length (xe_pbuf_chain x p h)" h] a by (simp add: balance_def)
  show ?thesis
  proof (cases bds)
    case None
    then show ?thesis
      using run a b1 by (auto simp: emacps_sgsend_def bind_sum_Inr_iff)
  next
    case (Some bd)
    let ?qs = "xe_pbuf_chain x p h"
    obtain index where ix: "get_base_index_txpbufsstorage cfg em = Inr index"
      using run by (auto simp: emacps_sgsend_def bind_sum_Inr_iff)
    then obtain d em2 h2 where l: "sgsend_loop x cfg index ?qs bd None em h1 = Inr (d, em2, h2)"
      using run a Some by (auto simp: emacps_sgsend_def bind_sum_Inr_iff Let_def)
    consider "d = None" | "d = Some None" | lst where "d = Some (Some lst)" by (cases d) auto
    then have "em' = em2 \<and> refs h' = refs h2 \<and> rxhw h' = rxhw h2"
    proof cases
      case (3 lst)
      then show ?thesis
        using run a Some ix l sgsend_commit_account [OF acc, of cfg ?qs bd lst "em_base em2" h2]
        by (auto simp: emacps_sgsend_def split_beta Let_def)
    qed (use run a Some ix l in \<open>simp_all add: emacps_sgsend_def\<close>)
    with sgsend_loop_balance [OF acc l] b1 show ?thesis by (simp add: balance_def)
  qed
qed

lemma free_tx_balance:
  assumes acc: "emac_account b x refs rxhw"
    and "free_tx_loop x is em h = Inr (em', h')"
  shows "balance refs rxhw em' h' = balance refs rxhw em h"
  using assms(2)
proof (induction "is" arbitrary: em h)
  case Nil
  then show ?case by simp
next
  case (Cons i js)
  note acs = emac_account_simps [OF acc]
  let ?po = "tx_pbufs_storage em ! i" and ?em1 = "em\<lparr>tx_pbufs_storage := (tx_pbufs_storage em)[i := None]\<rparr>"
  have i: "i < length (tx_pbufs_storage em)"
    using Cons.prems by (auto simp: bind_sum_Inr_iff slot_get_Inr)
  have "balance refs rxhw ?em1 (xe_pbuf_free x ?po h) = balance refs rxhw em h"
    by (simp add: balance_def tx_held_update [OF i] acs)
  then show ?case
    using Cons.prems Cons.IH by (cases ?po) (auto simp: bind_sum_Inr_iff slot_get_Inr)
qed

section \<open>The receive side\<close>

lemma inval_account:
  assumes "emac_account b x refs rxhw"
  shows "refs (inval_unless_coherent x em a n h) = refs h" "rxhw (inval_unless_coherent x em a n h) = rxhw h"
  by (simp_all add: inval_unless_coherent_def emac_account_simps [OF assms])

lemma setup_rx_loop_balance:
  assumes acc: "emac_account b x refs rxhw"
    and "setup_rx_loop x cfg index n em h = Inr (em', h')"
  shows "balance refs rxhw em' h' = balance refs rxhw em h"
  using assms(2)
proof (induction n arbitrary: em h)
  case 0
  then show ?case by simp
next
  case (Suc n)
  note acs = emac_account_simps [OF acc] inval_account [OF acc]
  obtain po h1 where a: "xe_pool_alloc x (cfg_max_frame cfg) h = (po, h1)" by fastforce
  have "refs (snd (xe_pool_alloc x (cfg_max_frame cfg) h)) = refs h + held (fst (xe_pool_alloc x (cfg_max_frame cfg) h))"
      "rxhw (snd (xe_pool_alloc x (cfg_max_frame cfg) h)) = rxhw h" by (simp_all add: acs)
  then have r1: "refs h1 = refs h + held po" "rxhw h1 = rxhw h" by (simp_all add: a)
  obtain bdo h2 where al: "xe_alloc x RxRing (Suc 0) h1 = (bdo, h2)" by fastforce
  have "refs (snd (xe_alloc x RxRing (Suc 0) h1)) = refs h1" "rxhw (snd (xe_alloc x RxRing (Suc 0) h1)) = rxhw h1"
    by (simp_all add: acs)
  then have r2: "refs h2 = refs h1" "rxhw h2 = rxhw h1" by (simp_all add: al)
  consider "po = None" | p where "po = Some p" "bdo = None" | p rxbd where "po = Some p" "bdo = Some rxbd"
    by (cases po; cases bdo) auto
  then show ?case
  proof cases
    case 1
    then show ?thesis using Suc.prems r1 by (simp add: a balance_def)
  next
    case (2 p)
    then show ?thesis using Suc.prems r1 r2 by (auto simp: a al acs balance_def)
  next
    case (3 p rxbd)
    note po = 3(1) and bd = 3(2)
    obtain ok h3 where th: "xe_to_hw x RxRing (Suc 0) rxbd h2 = (ok, h3)" by fastforce
    have "refs (snd (xe_to_hw x RxRing (Suc 0) rxbd h2)) = refs h2"
        "rxhw (snd (xe_to_hw x RxRing (Suc 0) rxbd h2)) = rxhw h2 + (if fst (xe_to_hw x RxRing (Suc 0) rxbd h2) then 1 else 0)"
      by (simp_all add: acs)
    then have r3: "refs h3 = refs h2" "rxhw h3 = rxhw h2 + (if ok then 1 else 0)" by (simp_all add: th)
    show ?thesis
    proof (cases ok)
      case True
      then obtain v h7 where rest: "setup_rx_loop x cfg index n (em\<lparr>rx_pbufs_storage := v\<rparr>) h7 = Inr (em', h')"
        and h7: "refs h7 = refs h3" "rxhw h7 = rxhw h3"
        using Suc.prems by (auto simp: a al th po bd acs Let_def split: if_splits)
      then show ?thesis
        using Suc.IH [OF rest] r1 r2 r3 True by (simp add: balance_def po)
    next
      case False
      then show ?thesis
        using Suc.prems r1 r2 r3 by (auto simp: a al th po bd acs balance_def Let_def)
    qed
  qed
qed

lemma setup_rx_balance:
  assumes acc: "emac_account b x refs rxhw" and run: "setup_rx_bds x cfg em h = Inr (em', h')"
  shows "balance refs rxhw em' h' = balance refs rxhw em h"
  using run setup_rx_loop_balance [OF acc] by (auto simp: setup_rx_bds_def bind_sum_Inr_iff)

lemma recv_batch_account:
  assumes acc: "emac_account b x refs rxhw" and "recv_batch x index n bd em h = Inr h'"
  shows "refs h' = refs h - int n \<and> rxhw h' = rxhw h"
  using assms(2)
proof (induction n arbitrary: bd h)
  case 0
  then show ?case by simp
next
  case (Suc n)
  note acs = emac_account_simps [OF acc] inval_account [OF acc]
  let ?i = "index + XEMACPS_BD_TO_INDEX x RxRing bd h"
  obtain p where i: "?i < length (rx_pbufs_storage em)" "rx_pbufs_storage em ! ?i = Some p"
    using Suc.prems by (auto simp: bind_sum_Inr_iff slot_get_Inr Let_def split: option.splits)
  define h2 where "h2 = inval_unless_coherent x em (xe_pbuf_payload x p (xe_pbuf_realloc x p (xe_bd_get_length x bd h) h))
      (xe_bd_get_length x bd h) (xe_pbuf_realloc x p (xe_bd_get_length x bd h) h)"
  define h4 where "h4 = (if \<not> fst (xe_pq_enqueue x p h2) then xe_pbuf_free x (Some p) (snd (xe_pq_enqueue x p h2))
      else snd (xe_pq_enqueue x p h2))"
  have "refs h4 = refs h2 - 1" "rxhw h4 = rxhw h2" by (simp_all add: h4_def acs)
  moreover have "refs h2 = refs h" "rxhw h2 = rxhw h" by (simp_all add: h2_def acs)
  moreover have "recv_batch x index n (xe_next x RxRing bd h4) em h4 = Inr h'"
    using Suc.prems i by (auto simp: slot_get_def Let_def split_beta h4_def h2_def split: if_splits)
  ultimately show ?case using Suc.IH [of "xe_next x RxRing bd h4" h4] by simp
qed

lemma resetrx_effects:
  "\<exists>v. fst (resetrx_on_no_rxdata b x cfg em h) = em\<lparr>last_rx_frms_cntr := v\<rparr>"
  by (auto simp: resetrx_on_no_rxdata_def Let_def split_beta intro: exI [of _ "last_rx_frms_cntr em"])

lemma resetrx_account:
  assumes acc: "emac_account b x refs rxhw"
  shows "balance refs rxhw (fst (resetrx_on_no_rxdata b x cfg em h)) (snd (resetrx_on_no_rxdata b x cfg em h)) =
    balance refs rxhw em h"
  by (simp add: resetrx_on_no_rxdata_def gigeversion_def Let_def split_beta balance_def tx_held_def
      emac_account_simps [OF acc])

lemma recv_turn_balance:
  assumes acc: "emac_account b x refs rxhw"
  shows "recv_turn x cfg index (em, h) = Inr (em', h') \<Longrightarrow> balance refs rxhw em' h' = balance refs rxhw em h"
    and "recv_turn x cfg index (em, h) = Inl (Inr (em', h')) \<Longrightarrow> balance refs rxhw em' h' = balance refs rxhw em h"
proof -
  note acs = emac_account_simps [OF acc]
  obtain n bd h1 where f: "xe_from_hw x RxRing (cfg_n_rx cfg) h = ((n, bd), h1)" by (metis surj_pair)
  have "refs (snd (xe_from_hw x RxRing (cfg_n_rx cfg) h)) = refs h"
      "rxhw (snd (xe_from_hw x RxRing (cfg_n_rx cfg) h)) = rxhw h - int (fst (fst (xe_from_hw x RxRing (cfg_n_rx cfg) h)))"
    by (simp_all add: acs)
  then have h1: "refs h1 = refs h" "rxhw h1 = rxhw h - int n" by (simp_all add: f)
  show "balance refs rxhw em' h' = balance refs rxhw em h" if "recv_turn x cfg index (em, h) = Inl (Inr (em', h'))"
    using that h1 by (auto simp: recv_turn_def f balance_def split: if_splits sum.splits)
  show "balance refs rxhw em' h' = balance refs rxhw em h" if t: "recv_turn x cfg index (em, h) = Inr (em', h')"
  proof -
    obtain h2 where b: "recv_batch x index n bd em h1 = Inr h2"
      and s: "setup_rx_bds x cfg em (snd (xe_free x RxRing n bd h2)) = Inr (em', h')"
      using t by (auto simp: recv_turn_def f bind_sum_Inr_iff split: if_splits sum.splits)
    from recv_batch_account [OF acc b] setup_rx_balance [OF acc s] h1 show ?thesis
      by (simp add: balance_def acs)
  qed
qed

lemma recv_handler_balance:
  assumes acc: "emac_account b x refs rxhw"
    and run: "emacps_recv_handler b x cfg em h = Some (Inr (em', h'))"
  shows "balance refs rxhw em' h' = balance refs rxhw em h"
proof -
  note acs = emac_account_simps [OF acc]
  let ?P = "\<lambda>(e, k). balance refs rxhw e k = balance refs rxhw em h"
  obtain index em1 h4 where l: "forever (recv_turn x cfg index) (em1, h4) = Some (Inr (em', h'))"
    and s: "?P (em1, h4)"
  proof -
    obtain index where ix: "get_base_index_rxpbufsstorage cfg em = Inr index"
      using run by (auto simp: emacps_recv_handler_def split_beta split: sum.splits)
    define h3 where "h3 = (let h1 = snd (gigeversion b em h) in
      xe_write_reg x (em_base em) RXSR (fst (xe_read_reg x (em_base em) RXSR h1)) (snd (xe_read_reg x (em_base em) RXSR h1)))"
    define s where "s = (if fst (gigeversion b em h) \<le> 2 then resetrx_on_no_rxdata b x cfg em h3 else (em, h3))"
    have "balance refs rxhw em h3 = balance refs rxhw em h"
      by (simp add: h3_def Let_def balance_def acs gigeversion_def split_beta)
    then have "?P (fst s, snd s)" using resetrx_account [OF acc, of cfg em h3] by (simp add: s_def split_beta)
    moreover have "forever (recv_turn x cfg index) s = Some (Inr (em', h'))"
      using run ix unfolding s_def h3_def Let_def
      by (simp add: emacps_recv_handler_def Let_def split_beta split del: if_split)
    ultimately show thesis using that [of index "fst s" "snd s"] by simp
  qed
  from l have "\<forall>e k. Inr (em', h') = (Inr (e, k) :: fault + _) \<longrightarrow> ?P (e, k)"
  proof (rule forever_keeps [where P = ?P])
    show "?P (em1, h4)" by (rule s)
    show "?P s'" if "?P s" "recv_turn x cfg index s = Inr s'" for s s'
      using that recv_turn_balance(1) [OF acc] by (cases s; cases s') fastforce
    show "\<forall>e k. r = Inr (e, k) \<longrightarrow> ?P (e, k)" if "?P s" "recv_turn x cfg index s = Inl r" for s r
      using that recv_turn_balance(2) [OF acc] by (cases s) fastforce
  qed
  then show ?thesis by simp
qed

end
