(* ===== verification/EmacIf.thy ===== *)
theory EmacIf
  imports EmacAccount
begin

text \<open>
  The network interface on top of the DMA rings, \<open>IEEE1588/netif/xemacpsif.c\<close>: sending and polling,
  recovery from transmit and controller errors, and the multicast filters with their entry masks.
\<close>

section \<open>Sending and polling\<close>

datatype err_t = ERR_OK | ERR_MEM | ERR_BUF | ERR_ARG | ERR_IF | ERR_TIMEOUT

definition unbuffered_low_level_output ::
  "'h xemacps \<Rightarrow> emac_config \<Rightarrow> nat \<Rightarrow> emac \<Rightarrow> 'h \<Rightarrow> fault + (err_t \<times> emac \<times> 'h)" where
  "unbuffered_low_level_output x cfg p em h =
     bind_sum (emacps_sgsend x cfg p em h) (\<lambda>(ok, em1, h1). Inr (if \<not> ok then ERR_MEM else ERR_OK, em1, h1))"

definition low_level_output ::
  "'h xemacps \<Rightarrow> emac_config \<Rightarrow> nat \<Rightarrow> emac \<Rightarrow> 'h \<Rightarrow> (fault + (err_t \<times> emac \<times> 'h)) option" where
  "low_level_output x cfg p em h =
     (case (if is_tx_space_available x h \<le> 5 then process_sent_bds x cfg em h else Some (Inr (em, h))) of
        None \<Rightarrow> None
      | Some (Inl f) \<Rightarrow> Some (Inl f)
      | Some (Inr (em1, h1)) \<Rightarrow>
          Some (if is_tx_space_available x h1 \<noteq> 0 then unbuffered_low_level_output x cfg p em1 h1
                else Inr (ERR_MEM, em1, h1)))"

definition low_level_input :: "'h xemacps \<Rightarrow> 'h \<Rightarrow> nat option \<times> 'h" where
  "low_level_input x h = (if xe_pq_qlength x h = 0 then (None, h) else xe_pq_dequeue x h)"

definition xemacpsif_resetrx_on_no_rxdata ::
  "'h bsp \<Rightarrow> 'h xemacps \<Rightarrow> emac_config \<Rightarrow> emac \<Rightarrow> 'h \<Rightarrow> emac \<times> 'h" where
  "xemacpsif_resetrx_on_no_rxdata b x cfg em h = resetrx_on_no_rxdata b x cfg em h"

text \<open>\<open>etharp_output\<close>, which resolves the address and sends or queues the packet, is a parameter.\<close>

definition xemacpsif_output :: "(nat \<Rightarrow> u32 \<Rightarrow> 'h \<Rightarrow> err_t \<times> 'h) \<Rightarrow> nat \<Rightarrow> u32 \<Rightarrow> 'h \<Rightarrow> err_t \<times> 'h" where
  "xemacpsif_output etharp_output p ipaddr h = etharp_output p ipaddr h"

text \<open>
  The timer of the build with an operating system; the first argument is the timer handle, the counter
  is the static \<open>lExpireCounter\<close>.
\<close>

definition RESETRXTIMEOUT :: i32 where "RESETRXTIMEOUT = 10"

definition vTimerCallback ::
  "'h bsp \<Rightarrow> 'h xemacps \<Rightarrow> emac_config \<Rightarrow> nat option \<Rightarrow> i32 \<times> emac \<times> 'h \<Rightarrow> fault + (i32 \<times> emac \<times> 'h)" where
  "vTimerCallback b x cfg pxTimer s =
     (case pxTimer of
        None \<Rightarrow> Inl Assert_failed
      | Some _ \<Rightarrow>
          (let (lExpireCounter, em, h) = s;
               n = lExpireCounter + 1
           in if RESETRXTIMEOUT \<le>s n
              then (let (em1, h1) = xemacpsif_resetrx_on_no_rxdata b x cfg em h in Inr (0, em1, h1))
              else Inr (n, em, h)))"

section \<open>Error recovery\<close>

text \<open>The result of \<open>init_dma\<close> is not looked at.\<close>

definition HandleEmacPsError ::
  "'h bsp \<Rightarrow> 'h xemacps \<Rightarrow> emac_config \<Rightarrow> emac \<Rightarrow> 'h \<Rightarrow> fault + (emac \<times> 'h)" where
  "HandleEmacPsError b x cfg em h =
     bind_sum (free_txrx_pbufs x cfg em h) (\<lambda>(em1, h1).
       let (_, h2) = xe_cfg_initialize x (em_base em1) h1;
           h3 = xe_init_emacps_on_error x h2;
           (dmacrreg, h4) = xe_read_reg x (em_base em1) DMACR h3;
           h5 = xe_write_reg x (em_base em1) DMACR (dmacrreg OR 0x01000000) h4;
           h6 = xe_setup_isr x h5
       in bind_sum (init_dma b x cfg em1 h6) (\<lambda>(_, em2, h7). Inr (em2, xe_start_emacps x h7)))"

definition HandleTxErrors ::
  "'h xemacps \<Rightarrow> emac_config \<Rightarrow> emac \<Rightarrow> 'h \<Rightarrow> fault + (emac \<times> 'h)" where
  "HandleTxErrors x cfg em h =
     (let (netctrlreg, h1) = xe_read_reg x (em_base em) NWCTRL h;
          h2 = xe_write_reg x (em_base em) NWCTRL (netctrlreg AND NOT (cfg_txen_mask cfg)) h1
      in bind_sum (free_onlytx_pbufs x cfg em h2) (\<lambda>(em1, h3).
           let h4 = clean_dma_txdescs x cfg em1 h3;
               (netctrlreg', h5) = xe_read_reg x (em_base em1) NWCTRL h4
           in Inr (em1, xe_write_reg x (em_base em1) NWCTRL (netctrlreg' OR cfg_txen_mask cfg) h5)))"

section \<open>The multicast filters\<close>

datatype mac_filter_action = ADD_MAC_FILTER | DEL_MAC_FILTER | Other_action

definition temp_mask :: "nat \<Rightarrow> u8" where
  "temp_mask i = push_bit i 1"

text \<open>The loops over the entries: the first entry not in use is taken, the first entry in use is given back.\<close>

fun add_entry :: "nat list \<Rightarrow> u8 \<Rightarrow> u8 option" where
  "add_entry [] m = None"
| "add_entry (i # is) m = (if m AND temp_mask i = temp_mask i then add_entry is m else Some (m OR temp_mask i))"

fun del_entry :: "nat list \<Rightarrow> u8 \<Rightarrow> u8 option" where
  "del_entry [] m = None"
| "del_entry (i # is) m =
     (if m AND temp_mask i \<noteq> temp_mask i then del_entry is m else Some (m AND NOT (temp_mask i)))"

definition hash_update ::
  "'h bsp \<Rightarrow> 'h xemacps \<Rightarrow> u8 list \<Rightarrow> mac_filter_action \<Rightarrow> emac \<Rightarrow> 'h \<Rightarrow> 'h option" where
  "hash_update b x mac act em h =
     (case xe_wait_tx_idle x h of
        None \<Rightarrow> None
      | Some h1 \<Rightarrow>
          (let h2 = xe_stop x h1;
               h3 = (case act of ADD_MAC_FILTER \<Rightarrow> xe_set_hash x mac h2
                     | DEL_MAC_FILTER \<Rightarrow> xe_delete_hash x mac h2
                     | Other_action \<Rightarrow> h2);
               h4 = reset_dma b x em h3
           in Some (xe_start x h4)))"

definition multicast_mac :: "u8 list \<Rightarrow> u8 list" where
  "multicast_mac ip_addr = [0x01, 0x00, 0x5E, ip_addr ! 1 AND 0x7F, ip_addr ! 2, ip_addr ! 3]"

definition xemacpsif_mac_hash_update ::
  "'h bsp \<Rightarrow> 'h xemacps \<Rightarrow> u8 list \<Rightarrow> mac_filter_action \<Rightarrow> emac \<Rightarrow> 'h \<Rightarrow> 'h option" where
  "xemacpsif_mac_hash_update b x ip_addr act em h = hash_update b x (multicast_mac ip_addr) act em h"

text \<open>
  \<open>n\<close> is \<open>XEMACPS_MAX_MAC_ADDR\<close>, \<open>m\<close> the static entry mask; the result is the returned value and the
  mask and environment after the call, \<open>None\<close> when the wait for the transmitter never ends.
\<close>

definition xemacpsif_mac_filter_update ::
  "'h bsp \<Rightarrow> 'h xemacps \<Rightarrow> nat \<Rightarrow> u8 list \<Rightarrow> mac_filter_action \<Rightarrow> emac \<Rightarrow> u8 \<Rightarrow> 'h \<Rightarrow>
   (err_t \<times> u8 \<times> 'h) option" where
  "xemacpsif_mac_filter_update b x n ip_addr act em m h =
     (if ip_addr ! 0 < 224 \<and> ip_addr ! 0 > 239 then Some (ERR_ARG, m, h)
      else
        (case act of
           ADD_MAC_FILTER \<Rightarrow>
             (case add_entry [0..<n] m of
                None \<Rightarrow> Some (ERR_MEM, m, h)
              | Some m' \<Rightarrow> map_option (\<lambda>h'. (ERR_OK, m', h')) (xemacpsif_mac_hash_update b x ip_addr act em h))
         | DEL_MAC_FILTER \<Rightarrow>
             (case del_entry [0..<n] m of
                None \<Rightarrow> Some (ERR_MEM, m, h)
              | Some m' \<Rightarrow> map_option (\<lambda>h'. (ERR_OK, m', h')) (xemacpsif_mac_hash_update b x ip_addr act em h))
         | Other_action \<Rightarrow> Some (ERR_OK, m, h)))"

text \<open>
  The filter for IPv6. The scope tests are macros of the stack, the fields of a parameter; \<open>ll0\<close> and
  \<open>ll1\<close> are the first two bytes of the link-layer multicast prefix.
\<close>

record ip6_scopes =
  ip6_addr_ismulticast_linklocal :: "u8 list \<Rightarrow> bool"
  ip6_addr_ismulticast_iflocal :: "u8 list \<Rightarrow> bool"
  ip6_addr_ismulticast_adminlocal :: "u8 list \<Rightarrow> bool"
  ip6_addr_ismulticast_sitelocal :: "u8 list \<Rightarrow> bool"
  ip6_addr_ismulticast_orglocal :: "u8 list \<Rightarrow> bool"
  ip6_addr_ismulticast_global :: "u8 list \<Rightarrow> bool"

definition xemacpsif_ip6_addr_ismulticast :: "ip6_scopes \<Rightarrow> u8 list \<Rightarrow> bool" where
  "xemacpsif_ip6_addr_ismulticast sc ip_addr \<longleftrightarrow>
     ip6_addr_ismulticast_linklocal sc ip_addr \<or> ip6_addr_ismulticast_iflocal sc ip_addr \<or>
     ip6_addr_ismulticast_adminlocal sc ip_addr \<or> ip6_addr_ismulticast_sitelocal sc ip_addr \<or>
     ip6_addr_ismulticast_orglocal sc ip_addr \<or> ip6_addr_ismulticast_global sc ip_addr"

definition xemacpsif_mld6_mac_hash_update ::
  "'h bsp \<Rightarrow> 'h xemacps \<Rightarrow> u8 \<Rightarrow> u8 \<Rightarrow> u8 list \<Rightarrow> mac_filter_action \<Rightarrow> emac \<Rightarrow> 'h \<Rightarrow> 'h option" where
  "xemacpsif_mld6_mac_hash_update b x ll0 ll1 ip_addr act em h =
     hash_update b x [ll0, ll1, ip_addr ! 12, ip_addr ! 13, ip_addr ! 14, ip_addr ! 15] act em h"

definition xemacpsif_mld6_mac_filter_update ::
  "'h bsp \<Rightarrow> 'h xemacps \<Rightarrow> u8 \<Rightarrow> u8 \<Rightarrow> ip6_scopes \<Rightarrow> nat \<Rightarrow> u8 list \<Rightarrow> mac_filter_action \<Rightarrow> emac \<Rightarrow>
   u8 \<Rightarrow> 'h \<Rightarrow> (err_t \<times> u8 \<times> 'h) option" where
  "xemacpsif_mld6_mac_filter_update b x ll0 ll1 sc n ip_addr act em m h =
     (if \<not> xemacpsif_ip6_addr_ismulticast sc ip_addr then Some (ERR_ARG, m, h)
      else
        (case act of
           ADD_MAC_FILTER \<Rightarrow>
             (case add_entry [0..<n] m of
                None \<Rightarrow> Some (ERR_MEM, m, h)
              | Some m' \<Rightarrow> map_option (\<lambda>h'. (ERR_OK, m', h'))
                  (xemacpsif_mld6_mac_hash_update b x ll0 ll1 ip_addr act em h))
         | DEL_MAC_FILTER \<Rightarrow>
             (case del_entry [0..<n] m of
                None \<Rightarrow> Some (ERR_MEM, m, h)
              | Some m' \<Rightarrow> map_option (\<lambda>h'. (ERR_OK, m', h'))
                  (xemacpsif_mld6_mac_hash_update b x ll0 ll1 ip_addr act em h))
         | Other_action \<Rightarrow> Some (ERR_ARG, m, h)))"

section \<open>The balance of buffer references\<close>

lemma low_level_output_balance:
  assumes acc: "emac_account b x refs rxhw"
    and run: "low_level_output x cfg p em h = Some (Inr (e, em', h'))"
  shows "balance refs rxhw em' h' = balance refs rxhw em h"
proof -
  obtain em1 h1 where s: "(if is_tx_space_available x h \<le> 5 then process_sent_bds x cfg em h
      else Some (Inr (em, h))) = Some (Inr (em1, h1))"
    using run by (auto simp: low_level_output_def split: option.splits sum.splits)
  have "balance refs rxhw em1 h1 = balance refs rxhw em h"
    using s process_sent_balance [OF acc] by (auto split: if_splits)
  moreover have "balance refs rxhw em' h' = balance refs rxhw em1 h1"
    using run s sgsend_balance [OF acc]
    by (auto simp: low_level_output_def unbuffered_low_level_output_def bind_sum_Inr_iff split: if_splits)
  ultimately show ?thesis by simp
qed

lemma HandleTxErrors_balance:
  assumes acc: "emac_account b x refs rxhw"
    and run: "HandleTxErrors x cfg em h = Inr (em', h')"
  shows "balance refs rxhw em' h' = balance refs rxhw em h"
proof -
  note acs = emac_account_simps [OF acc]
  have clean: "balance refs rxhw e (clean_dma_txdescs x cfg e k) = balance refs rxhw e k" for e k
    by (simp add: clean_dma_txdescs_def balance_def Let_def split_beta acs)
  obtain h2 em1 h3 where f: "free_onlytx_pbufs x cfg em h2 = Inr (em1, h3)"
    and h2: "balance refs rxhw em h2 = balance refs rxhw em h"
    and em': "em' = em1"
    and h': "balance refs rxhw em' h' = balance refs rxhw em1 (clean_dma_txdescs x cfg em1 h3)"
    using run by (auto simp: HandleTxErrors_def bind_sum_Inr_iff Let_def split_beta balance_def acs)
  have "balance refs rxhw em1 h3 = balance refs rxhw em h2"
    using f free_tx_balance [OF acc] by (auto simp: free_onlytx_pbufs_def bind_sum_Inr_iff)
  with h2 h' clean show ?thesis by simp
qed

text \<open>The events of the driver: a packet to send, the two interrupts, a transmit error.\<close>

datatype drv_event = Tx_packet nat | Tx_irq | Rx_irq | Tx_error

fun drv_step ::
  "'h bsp \<Rightarrow> 'h xemacps \<Rightarrow> emac_config \<Rightarrow> drv_event \<Rightarrow> emac \<times> 'h \<Rightarrow> (fault + (emac \<times> 'h)) option" where
  "drv_step b x cfg (Tx_packet p) (em, h) =
     map_option (\<lambda>r. bind_sum r (\<lambda>(e, s). Inr s)) (low_level_output x cfg p em h)"
| "drv_step b x cfg Tx_irq (em, h) = emacps_send_handler x cfg em h"
| "drv_step b x cfg Rx_irq (em, h) = emacps_recv_handler b x cfg em h"
| "drv_step b x cfg Tx_error (em, h) = Some (HandleTxErrors x cfg em h)"

fun drv_run ::
  "'h bsp \<Rightarrow> 'h xemacps \<Rightarrow> emac_config \<Rightarrow> drv_event list \<Rightarrow> emac \<times> 'h \<Rightarrow> (fault + (emac \<times> 'h)) option" where
  "drv_run b x cfg [] s = Some (Inr s)"
| "drv_run b x cfg (e # es) s =
     (case drv_step b x cfg e s of
        None \<Rightarrow> None | Some (Inl f) \<Rightarrow> Some (Inl f) | Some (Inr s') \<Rightarrow> drv_run b x cfg es s')"

lemma drv_step_balance:
  assumes acc: "emac_account b x refs rxhw"
    and run: "drv_step b x cfg e (em, h) = Some (Inr (em', h'))"
  shows "balance refs rxhw em' h' = balance refs rxhw em h"
proof (cases e)
  case (Tx_packet p)
  then show ?thesis
    using run low_level_output_balance [OF acc] by (auto simp: bind_sum_Inr_iff)
next
  case Tx_irq
  have "balance refs rxhw em (xe_write_reg x a r v (snd (xe_read_reg x a' r' h))) = balance refs rxhw em h"
    for a r v a' r' by (simp add: balance_def emac_account_simps [OF acc])
  then show ?thesis
    using run Tx_irq process_sent_balance [OF acc]
    by (force simp: emacps_send_handler_def Let_def split_beta)
next
  case Rx_irq
  then show ?thesis using run recv_handler_balance [OF acc] by simp
next
  case Tx_error
  then show ?thesis using run HandleTxErrors_balance [OF acc] by simp
qed

text \<open>A small controller that satisfies the account: four transmit descriptors, sent at once, no reception.\<close>

record esim =
  es_refs :: int
  es_head :: nat
  es_tail :: nat
  es_cnt :: nat

definition esim_ops :: "esim xemacps" where
  "esim_ops =
     \<lparr>xe_read_reg = (\<lambda>a r h. (0, h)), xe_write_reg = (\<lambda>a r v h. h),
      xe_free_cnt = (\<lambda>g h. 4 - es_cnt h),
      xe_alloc = (\<lambda>g n h. if g = TxRing \<and> es_cnt h + n \<le> 4
        then (Some (of_nat (64 * es_head h)), h\<lparr>es_head := (es_head h + n) mod 4\<rparr>) else (None, h)),
      xe_unalloc = (\<lambda>g n bd h. h),
      xe_to_hw = (\<lambda>g n bd h. if g = TxRing then (True, h\<lparr>es_cnt := es_cnt h + n\<rparr>) else (False, h)),
      xe_from_hw = (\<lambda>g n h. if g = TxRing
        then ((es_cnt h, of_nat (64 * (es_tail h mod 4))), h\<lparr>es_tail := (es_tail h + es_cnt h) mod 4, es_cnt := 0\<rparr>)
        else ((0, 0), h)),
      xe_free = (\<lambda>g n bd h. (True, h)),
      xe_next = (\<lambda>g bd h. if bd = 192 then 0 else bd + 64),
      xe_base = (\<lambda>g h. 0), xe_separation = (\<lambda>g h. 64),
      xe_create = (\<lambda>g a n h. (True, h)), xe_clone = (\<lambda>g t h. (True, h)), xe_ptr_reset = (\<lambda>g a h. h),
      xe_set_queue_ptr = (\<lambda>a n g h. h), xe_bd_write = (\<lambda>bd a v h. h), xe_bd_clear = (\<lambda>bd h. h),
      xe_bd_set_status = (\<lambda>bd v h. h), xe_bd_set_address_tx = (\<lambda>bd a h. h),
      xe_bd_set_address_rx = (\<lambda>bd a h. h), xe_bd_set_length = (\<lambda>bd v h. h), xe_bd_get_length = (\<lambda>bd h. 64),
      xe_bd_set_last = (\<lambda>bd h. h), xe_bd_clear_last = (\<lambda>bd h. h), xe_bd_clear_tx_used = (\<lambda>bd h. h),
      xe_pool_alloc = (\<lambda>n h. (None, h)),
      xe_pbuf_free = (\<lambda>p h. h\<lparr>es_refs := es_refs h - held p\<rparr>),
      xe_pbuf_ref = (\<lambda>p h. h\<lparr>es_refs := es_refs h + 1\<rparr>),
      xe_pbuf_chain = (\<lambda>p h. [p, Suc p]), xe_pbuf_payload = (\<lambda>p h. 4096), xe_pbuf_len = (\<lambda>p h. 60),
      xe_pbuf_realloc = (\<lambda>p n h. h), xe_dcache_flush = (\<lambda>a n h. h), xe_dcache_inval = (\<lambda>a n h. h),
      xe_pq_enqueue = (\<lambda>p h. (False, h)), xe_pq_qlength = (\<lambda>h. 0), xe_pq_dequeue = (\<lambda>h. (None, h)),
      xe_stop = (\<lambda>h. h), xe_start = (\<lambda>h. h), xe_set_options = (\<lambda>v h. (0, h)),
      xe_clear_options = (\<lambda>v h. (0, h)), xe_set_hash = (\<lambda>m h. h), xe_delete_hash = (\<lambda>m h. h),
      xe_wait_tx_idle = (\<lambda>h. Some h), xe_cfg_initialize = (\<lambda>a h. (True, h)), xe_init_emacps = (\<lambda>h. h),
      xe_init_emacps_on_error = (\<lambda>h. h), xe_setup_isr = (\<lambda>h. h), xe_start_emacps = (\<lambda>h. h),
      xe_set_tlb = (\<lambda>a h. h), xe_gic_register = (\<lambda>v h. h), xe_gic_enable = (\<lambda>v h. h),
      xe_gic_disable = (\<lambda>v h. h)\<rparr>"

definition esim_bsp :: "esim bsp" where
  "esim_bsp = \<lparr>xil_in32 = (\<lambda>a h. (0x00070000, h)), xil_out32 = (\<lambda>a v h. h)\<rparr>"

definition esim0 :: esim where "esim0 = \<lparr>es_refs = 0, es_head = 0, es_tail = 0, es_cnt = 0\<rparr>"

definition esim_cfg :: emac_config where
  "esim_cfg = \<lparr>cfg_n_tx = 4, cfg_n_rx = 4, cfg_bases = [Some 0xFF0B0000], cfg_max_frame = 1536,
     cfg_bd_space = 0x10000000, cfg_emac_intr = 89, cfg_starttx_mask = 0x200, cfg_rxen_mask = 4,
     cfg_txen_mask = 8, cfg_txbuf_used = 0x80000000, cfg_txbuf_wrap = 0x40000000, cfg_rxbuf_wrap = 2,
     cfg_rxbuf_new = 1, cfg_bd_addr_hi = 8, cfg_multicast_option = 0x40, cfg_promisc_option = 1\<rparr>"

definition esim_em :: emac where
  "esim_em = \<lparr>tx_pbufs_storage = replicate 16 None, rx_pbufs_storage = replicate 16 None, emac_intr_num = 0,
     bd_space_index = 0, bd_space_attr_set = 0, em_base = 0xFF0B0000, em_coherent = True, rx_bdspace = 0,
     tx_bdspace = 0, last_rx_frms_cntr = 0\<rparr>"

lemma esim_account: "emac_account esim_bsp esim_ops es_refs (\<lambda>_. 0)"
  unfolding emac_account_def by (simp add: esim_ops_def esim_bsp_def)

lemma drv_run_balance:
  assumes acc: "emac_account b x refs rxhw" and "drv_run b x cfg es (em, h) = Some (Inr (em', h'))"
  shows "balance refs rxhw em' h' = balance refs rxhw em h"
  using assms(2)
proof (induction es arbitrary: em h)
  case (Cons e es)
  then obtain em1 h1 where s: "drv_step b x cfg e (em, h) = Some (Inr (em1, h1))"
    "drv_run b x cfg es (em1, h1) = Some (Inr (em', h'))"
    by (auto split: option.splits sum.splits)
  then show ?case using Cons.IH drv_step_balance [OF acc s(1)] by simp
qed simp

text \<open>
  C17: the driver neither leaks nor over-releases buffers: over any sequence of packets to send, transmit
  and receive interrupts and transmit errors, every failure return included, the references it holds
  stay equal to the filled slots of the transmit array plus the receive descriptors that are with the
  hardware.
\<close>
theorem driver_keeps_account:
  assumes "emac_account b x refs rxhw"
    and "drv_run b x cfg es (em, h) = Some (Inr (em', h'))"
    and "refs h = tx_held em + rxhw h"
  shows "refs h' = tx_held em' + rxhw h'"
  using drv_run_balance [OF assms(1,2)] assms(3) by (simp add: balance_def)

theorem driver_keeps_account_witness:
  "\<exists>em' h'. drv_run esim_bsp esim_ops esim_cfg [Tx_packet 7, Tx_irq, Tx_packet 3] (esim_em, esim0) =
      Some (Inr (em', h')) \<and> es_refs h' = 2 \<and> tx_held em' = 2"
proof -
  have "case drv_run esim_bsp esim_ops esim_cfg [Tx_packet 7, Tx_irq, Tx_packet 3] (esim_em, esim0) of
      Some (Inr (em', h')) \<Rightarrow> es_refs h' = 2 | _ \<Rightarrow> False" by code_simp
  then obtain em' h' where r: "drv_run esim_bsp esim_ops esim_cfg [Tx_packet 7, Tx_irq, Tx_packet 3]
      (esim_em, esim0) = Some (Inr (em', h'))" "es_refs h' = 2"
    by (auto split: option.splits sum.splits)
  moreover have "es_refs esim0 = tx_held esim_em + 0"
    by (simp add: esim0_def esim_em_def tx_held_def sum_list_replicate)
  ultimately show ?thesis
    using driver_keeps_account [OF esim_account r(1)] by simp
qed

section \<open>Releasing what was sent comes to an end\<close>

text \<open>
  The rings as the driver below documents them: \<open>n\<close> descriptors from \<open>base\<close> on, \<open>sep\<close> apart; the next
  descriptor is the one after it, the first after the last. For the transmit ring, a descriptor set
  taken back starts inside the ring; \<open>pend\<close> counts the descriptors that are done and not yet taken back together
  with those that the hardware finishes before the handler next finds none, and an answer of zero means that there
  are none.
\<close>

definition bd_at :: "u64 \<Rightarrow> u64 \<Rightarrow> nat \<Rightarrow> u64" where
  "bd_at base sep k = base + of_nat k * sep"

definition ring_layout :: "'h xemacps \<Rightarrow> ring \<Rightarrow> nat \<Rightarrow> u64 \<Rightarrow> u64 \<Rightarrow> bool" where
  "ring_layout x r n base sep \<longleftrightarrow>
     0 < n \<and> 0 < unat sep \<and> n * unat sep \<le> 2 ^ 64 \<and>
     (\<forall>h. xe_base x r h = base \<and> xe_separation x r h = sep) \<and>
     (\<forall>h k. k < n \<longrightarrow> xe_next x r (bd_at base sep k) h = bd_at base sep (Suc k mod n))"

definition tx_ring :: "'h xemacps \<Rightarrow> nat \<Rightarrow> u64 \<Rightarrow> u64 \<Rightarrow> ('h \<Rightarrow> nat) \<Rightarrow> bool" where
  "tx_ring x n base sep pend \<longleftrightarrow>
     ring_layout x TxRing n base sep \<and>
     (\<forall>h. (\<exists>k < n. snd (fst (xe_from_hw x TxRing n h)) = bd_at base sep k) \<and>
          pend (snd (xe_from_hw x TxRing n h)) + fst (fst (xe_from_hw x TxRing n h)) = pend h \<and>
          (fst (fst (xe_from_hw x TxRing n h)) = 0 \<longrightarrow> pend h = 0)) \<and>
     (\<forall>h bd a v. pend (xe_bd_write x bd a v h) = pend h) \<and>
     (\<forall>h p. pend (xe_pbuf_free x p h) = pend h) \<and>
     (\<forall>h m bd. pend (snd (xe_free x TxRing m bd h)) = pend h)"

lemma bd_index_at:
  assumes "ring_layout x r n base sep" and "k < n"
  shows "XEMACPS_BD_TO_INDEX x r (bd_at base sep k) h = k"
proof -
  have "k * unat sep < n * unat sep" using assms by (simp add: ring_layout_def)
  also have "\<dots> \<le> 2 ^ 64" using assms(1) by (simp add: ring_layout_def)
  finally have lt: "k * unat sep < 2 ^ LENGTH(64)" by simp
  have "k \<le> k * unat sep" using assms(1) by (simp add: ring_layout_def)
  then have "k < 2 ^ LENGTH(64)" using lt by (rule le_less_trans)
  then have k: "unat (of_nat k :: u64) = k" by (simp add: unat_of_nat)
  have "unat (of_nat k * sep) = k * unat sep"
    using lt by (subst unat_mult_lem [THEN iffD1]) (simp_all add: k)
  then show ?thesis
    using assms(1) by (simp add: XEMACPS_BD_TO_INDEX_def bd_at_def ring_layout_def)
qed

lemma tx_ring_layout: "tx_ring x n base sep pend \<Longrightarrow> ring_layout x TxRing n base sep"
  by (simp add: tx_ring_def)

lemma sent_loop_returns:
  assumes ring: "tx_ring x (cfg_n_tx cfg) base sep pend"
    and "k < cfg_n_tx cfg" and "index + cfg_n_tx cfg \<le> length (tx_pbufs_storage em)"
  shows "\<exists>em' h'. sent_loop x cfg index n (bd_at base sep k) em h = Inr (em', h') \<and> pend h' = pend h \<and>
    length (tx_pbufs_storage em') = length (tx_pbufs_storage em) \<and>
    (\<forall>j. tx_pbufs_storage em ! j = None \<longrightarrow> j < length (tx_pbufs_storage em) \<longrightarrow> tx_pbufs_storage em' ! j = None) \<and>
    (\<forall>d < n. tx_pbufs_storage em' ! (index + (k + d) mod cfg_n_tx cfg) = None)"
  using assms(2,3)
proof (induction n arbitrary: k em h)
  case 0
  then show ?case by simp
next
  case (Suc n)
  let ?N = "cfg_n_tx cfg"
  let ?em1 = "em\<lparr>tx_pbufs_storage := (tx_pbufs_storage em)[index + k := None]\<rparr>"
  note ix = bd_index_at [OF tx_ring_layout [OF ring] Suc.prems(1)]
  define h2 where "h2 = xe_bd_write x (bd_at base sep k) 4 (if k = ?N - 1 then 0xC0000000 else 0x80000000)
      (xe_bd_write x (bd_at base sep k) 0 0 h)"
  define h3 where "h3 = (if tx_pbufs_storage em ! (index + k) \<noteq> None
      then xe_pbuf_free x (tx_pbufs_storage em ! (index + k)) h2 else h2)"
  have "pend h2 = pend h" using ring by (simp add: h2_def tx_ring_def)
  then have p: "pend h3 = pend h" using ring by (simp add: h3_def tx_ring_def)
  have nx: "xe_next x TxRing (bd_at base sep k) h3 = bd_at base sep (Suc k mod ?N)"
    using tx_ring_layout [OF ring] Suc.prems(1) by (simp add: ring_layout_def)
  have k': "Suc k mod ?N < ?N" using Suc.prems(1) by simp
  have len: "index + ?N \<le> length (tx_pbufs_storage ?em1)" using Suc.prems(2) by simp
  have step: "sent_loop x cfg index (Suc n) (bd_at base sep k) em h =
      sent_loop x cfg index n (bd_at base sep (Suc k mod ?N)) ?em1 h3"
    unfolding nx [symmetric] h3_def h2_def
    using Suc.prems by (simp add: ix slot_get_def Let_def)
  obtain em' h' where ih: "sent_loop x cfg index n (bd_at base sep (Suc k mod ?N)) ?em1 h3 = Inr (em', h')"
    "pend h' = pend h3" "length (tx_pbufs_storage em') = length (tx_pbufs_storage em)"
    "\<And>j. tx_pbufs_storage ?em1 ! j = None \<Longrightarrow> j < length (tx_pbufs_storage em) \<Longrightarrow> tx_pbufs_storage em' ! j = None"
    "\<And>d. d < n \<Longrightarrow> tx_pbufs_storage em' ! (index + (Suc k mod ?N + d) mod ?N) = None"
    using Suc.IH [OF k' len, of h3] by auto
  have "tx_pbufs_storage em' ! (index + (k + d) mod ?N) = None" if "d < Suc n" for d
  proof (cases d)
    case 0
    then show ?thesis using ih(4) [of "index + k"] Suc.prems by simp
  next
    case (Suc d')
    then have "(k + d) mod ?N = (Suc k mod ?N + d') mod ?N" by (simp add: mod_simps)
    then show ?thesis using ih(5) [of d'] Suc that by simp
  qed
  moreover have "tx_pbufs_storage em' ! j = None"
    if "tx_pbufs_storage em ! j = None" "j < length (tx_pbufs_storage em)" for j
    using that by (intro ih(4)) (cases "j = index + k"; simp)+
  ultimately show ?case
    using ih(1-3) p unfolding step by auto
qed

text \<open>One turn of the outer loop either finds nothing left, or takes a batch back and has less left.\<close>

lemma sent_turn_progress:
  assumes ring: "tx_ring x (cfg_n_tx cfg) base sep pend"
    and len: "index + cfg_n_tx cfg \<le> length (tx_pbufs_storage em)"
    and f: "xe_from_hw x TxRing (cfg_n_tx cfg) h = ((n, bd_at base sep k), h1)" and k: "k < cfg_n_tx cfg"
  obtains (last) "n = 0" "sent_turn x cfg index (em, h) = Inl (Inr (em, h1))" "pend h1 = 0"
  | (more) em2 h2 where "sent_turn x cfg index (em, h) = Inr (em2, h2)" "pend h2 < pend h"
      "length (tx_pbufs_storage em2) = length (tx_pbufs_storage em)"
      "\<And>j. j < length (tx_pbufs_storage em) \<Longrightarrow> tx_pbufs_storage em ! j = None \<Longrightarrow> tx_pbufs_storage em2 ! j = None"
      "\<And>d. d < n \<Longrightarrow> tx_pbufs_storage em2 ! (index + (k + d) mod cfg_n_tx cfg) = None"
proof (cases "n = 0")
  case True
  have "pend h1 + n = pend h" "n = 0 \<longrightarrow> pend h = 0"
    using ring f unfolding tx_ring_def by (metis fst_conv snd_conv)+
  then show thesis using True last by (simp add: sent_turn_def f)
next
  case False
  have pd: "pend h1 + n = pend h" using ring f unfolding tx_ring_def by (metis fst_conv snd_conv)
  obtain em2 h2 where s: "sent_loop x cfg index n (bd_at base sep k) em h1 = Inr (em2, h2)" "pend h2 = pend h1"
      "length (tx_pbufs_storage em2) = length (tx_pbufs_storage em)"
      "\<forall>j. tx_pbufs_storage em ! j = None \<longrightarrow> j < length (tx_pbufs_storage em) \<longrightarrow> tx_pbufs_storage em2 ! j = None"
      "\<forall>d < n. tx_pbufs_storage em2 ! (index + (k + d) mod cfg_n_tx cfg) = None"
    using sent_loop_returns [OF ring k len, of n h1] by auto
  have "pend (snd (xe_free x TxRing n (bd_at base sep k) h2)) = pend h1"
    using ring s(2) by (simp add: tx_ring_def)
  then show thesis
    using False s pd by (intro more [of em2 "snd (xe_free x TxRing n (bd_at base sep k) h2)"])
      (simp_all add: sent_turn_def f)
qed

lemma from_hw_at:
  assumes "tx_ring x n base sep pend"
  obtains m k h1 where "xe_from_hw x TxRing n h = ((m, bd_at base sep k), h1)" "k < n"
  using assms unfolding tx_ring_def by (metis prod.collapse)

text \<open>From any state the loop ends with nothing left to take back, and a slot that is empty stays empty.\<close>

lemma sent_runs_out:
  assumes ring: "tx_ring x (cfg_n_tx cfg) base sep pend"
    and len: "index + cfg_n_tx cfg \<le> length (tx_pbufs_storage em)"
  shows "\<exists>em' h'. forever (sent_turn x cfg index) (em, h) = Some (Inr (em', h')) \<and> pend h' = 0 \<and>
    (\<forall>j < length (tx_pbufs_storage em). tx_pbufs_storage em ! j = None \<longrightarrow> tx_pbufs_storage em' ! j = None)"
proof -
  let ?keeps = "\<lambda>e. length (tx_pbufs_storage e) = length (tx_pbufs_storage em) \<and>
    (\<forall>j < length (tx_pbufs_storage em). tx_pbufs_storage em ! j = None \<longrightarrow> tx_pbufs_storage e ! j = None)"
  have "\<exists>r. forever (sent_turn x cfg index) (em, h) = Some r \<and> (\<exists>em' h'. r = Inr (em', h') \<and> pend h' = 0 \<and> ?keeps em')"
  proof (rule forever_total [where P = "\<lambda>s. ?keeps (fst s)" and m = "\<lambda>s. pend (snd s)"])
    fix s :: "emac \<times> 'a" assume P: "?keeps (fst s)"
    obtain e h0 where s: "s = (e, h0)" by (cases s)
    obtain n k h1 where g: "xe_from_hw x TxRing (cfg_n_tx cfg) h0 = ((n, bd_at base sep k), h1)" "k < cfg_n_tx cfg"
      by (rule from_hw_at [OF ring])
    have l: "index + cfg_n_tx cfg \<le> length (tx_pbufs_storage e)" using P len by (simp add: s)
    show "?keeps (fst s') \<and> pend (snd s') < pend (snd s)" if "sent_turn x cfg index s = Inr s'" for s'
      by (rule sent_turn_progress [OF ring l g]) (use that P in \<open>auto simp: s\<close>)
    show "\<exists>em' h'. r = Inr (em', h') \<and> pend h' = 0 \<and> ?keeps em'" if "sent_turn x cfg index s = Inl r" for r
      by (rule sent_turn_progress [OF ring l g]) (use that P in \<open>auto simp: s\<close>)
  qed simp
  then show ?thesis by blast
qed

text \<open>
  C21: releasing sent buffers comes to an end. With the ring as documented and a slot array that covers
  the interface's part, the loop returns without a fault for every number of finished descriptors, takes
  all of them back, and leaves no buffer in the slots of the first batch.
\<close>
theorem process_sent_completes:
  assumes ring: "tx_ring x (cfg_n_tx cfg) base sep pend"
    and index: "get_base_index_txpbufsstorage cfg em = Inr index"
    and len: "index + cfg_n_tx cfg \<le> length (tx_pbufs_storage em)"
    and f: "xe_from_hw x TxRing (cfg_n_tx cfg) h = ((n, bd_at base sep k), h1)" and k: "k < cfg_n_tx cfg"
  shows "\<exists>em' h'. process_sent_bds x cfg em h = Some (Inr (em', h')) \<and> pend h' = 0 \<and>
    (\<forall>d < n. tx_pbufs_storage em' ! (index + (k + d) mod cfg_n_tx cfg) = None)"
proof (rule sent_turn_progress [OF ring len f k])
  assume "n = 0" "sent_turn x cfg index (em, h) = Inl (Inr (em, h1))" "pend h1 = 0"
  then show ?thesis using index by (subst process_sent_bds_def, subst forever.simps) simp
next
  fix em2 h2
  assume t: "sent_turn x cfg index (em, h) = Inr (em2, h2)"
    and l: "length (tx_pbufs_storage em2) = length (tx_pbufs_storage em)"
    and first: "\<And>d. d < n \<Longrightarrow> tx_pbufs_storage em2 ! (index + (k + d) mod cfg_n_tx cfg) = None"
  have "index + (k + d) mod cfg_n_tx cfg < length (tx_pbufs_storage em2)" for d
    using k len l mod_less_divisor [of "cfg_n_tx cfg" "k + d"] by linarith
  then show ?thesis
    using sent_runs_out [OF ring, of index em2 h2] len l first index t
    by (subst process_sent_bds_def, subst forever.simps) auto
qed

lemma esim_ring: "tx_ring esim_ops 4 0 64 es_cnt"
proof -
  have k: "k = 0 \<or> k = 1 \<or> k = 2 \<or> k = 3" if "k < 4" for k :: nat using that by auto
  have "xe_next esim_ops TxRing (bd_at 0 64 k) h = bd_at 0 64 (Suc k mod 4)" if "k < 4" for k h
    using k [OF that] by (auto simp: esim_ops_def bd_at_def)
  moreover have "\<exists>k < 4. of_nat (64 * (t mod 4)) = bd_at 0 64 k" for t
    by (intro exI [of _ "t mod 4"]) (simp add: bd_at_def)
  ultimately show ?thesis
    unfolding tx_ring_def ring_layout_def by (auto simp: esim_ops_def)
qed

theorem process_sent_completes_witness:
  "\<exists>em' h'. process_sent_bds esim_ops esim_cfg (esim_em\<lparr>tx_pbufs_storage := [None, Some 7, Some 8] @ replicate 13 None\<rparr>)
      (esim0\<lparr>es_tail := 1, es_cnt := 2\<rparr>) = Some (Inr (em', h')) \<and>
    tx_pbufs_storage em' ! 1 = None \<and> tx_pbufs_storage em' ! 2 = None"
proof -
  let ?em = "esim_em\<lparr>tx_pbufs_storage := [None, Some 7, Some 8] @ replicate 13 None\<rparr>"
  let ?h = "esim0\<lparr>es_tail := 1, es_cnt := 2\<rparr>"
  have ring: "tx_ring esim_ops (cfg_n_tx esim_cfg) 0 64 es_cnt" using esim_ring by (simp add: esim_cfg_def)
  have f: "xe_from_hw esim_ops TxRing (cfg_n_tx esim_cfg) ?h = ((2, bd_at 0 64 1), ?h\<lparr>es_tail := 3, es_cnt := 0\<rparr>)"
    by (simp add: esim_ops_def esim0_def bd_at_def)
  have i: "get_base_index_txpbufsstorage esim_cfg ?em = Inr 0"
    by (simp add: get_base_index_txpbufsstorage_def esim_cfg_def esim_em_def)
  have "\<exists>em' h'. process_sent_bds esim_ops esim_cfg ?em ?h = Some (Inr (em', h')) \<and> es_cnt h' = 0 \<and>
      (\<forall>d < 2. tx_pbufs_storage em' ! (0 + (1 + d) mod cfg_n_tx esim_cfg) = None)"
    by (rule process_sent_completes [OF ring i _ f]) (simp_all add: esim_cfg_def)
  then obtain em' h' where r: "process_sent_bds esim_ops esim_cfg ?em ?h = Some (Inr (em', h'))"
    and d: "\<And>d. d < 2 \<Longrightarrow> tx_pbufs_storage em' ! (0 + (1 + d) mod 4) = None" by (auto simp: esim_cfg_def)
  have "tx_pbufs_storage em' ! 1 = None" "tx_pbufs_storage em' ! 2 = None"
    using d [of 0] d [of 1] by (simp_all add: numeral_2_eq_2)
  with r show ?thesis by blast
qed

section \<open>Where the slots of an interface lie\<close>

lemma base_index_last:
  "\<forall>c \<in> set cs. c \<noteq> Some a \<Longrightarrow> base_index n k cs a i = i"
  by (induction cs arbitrary: k i) auto

lemma base_index_at:
  assumes "j < length cs" and "cs ! j = Some a" and "\<forall>i. j < i \<and> i < length cs \<longrightarrow> cs ! i \<noteq> Some a"
  shows "base_index n k cs a i = Some ((k + j) * n)"
  using assms
proof (induction cs arbitrary: j k i)
  case Nil
  then show ?case by simp
next
  case (Cons c cs)
  show ?case
  proof (cases j)
    case 0
    then have "\<forall>c \<in> set cs. c \<noteq> Some a"
      using Cons.prems(3) by (metis in_set_conv_nth length_Cons not_less_eq nth_Cons_Suc zero_less_Suc)
    then show ?thesis using 0 Cons.prems(2) by (simp add: base_index_last)
  next
    case (Suc j')
    have "\<forall>i. j' < i \<and> i < length cs \<longrightarrow> cs ! i \<noteq> Some a"
      using Cons.prems(3) Suc by (metis Suc_less_eq length_Cons nth_Cons_Suc)
    then have "base_index n (Suc k) cs a (if c = Some a then Some (k * n) else i) = Some ((Suc k + j') * n)"
      using Cons.prems(1,2) Suc by (intro Cons.IH) simp_all
    then show ?thesis using Suc by simp
  qed
qed

lemma storage_index_in_range:
  assumes "j < length (cfg_bases cfg)" and "length (cfg_bases cfg) \<le> 4" and "cfg_bases cfg ! j = Some (em_base em)"
    and "\<forall>i. j < i \<and> i < length (cfg_bases cfg) \<longrightarrow> cfg_bases cfg ! i \<noteq> Some (em_base em)"
  shows "get_base_index_txpbufsstorage cfg em = Inr (j * cfg_n_tx cfg)"
    and "j * cfg_n_tx cfg + cfg_n_tx cfg \<le> 4 * cfg_n_tx cfg"
proof -
  show "get_base_index_txpbufsstorage cfg em = Inr (j * cfg_n_tx cfg)"
    using base_index_at [OF assms(1,3,4), of "cfg_n_tx cfg" 0 None]
    by (simp add: get_base_index_txpbufsstorage_def)
  have "Suc j * cfg_n_tx cfg \<le> 4 * cfg_n_tx cfg" using assms(1,2) by (intro mult_le_mono1) simp
  then show "j * cfg_n_tx cfg + cfg_n_tx cfg \<le> 4 * cfg_n_tx cfg" by simp
qed

text \<open>
  A slot that is still in use makes the send fail after the descriptors were allocated; they are not
  given back, so each such failure takes them out of circulation.
\<close>

lemma sgsend_busy_slot_keeps_descriptors:
  assumes "get_base_index_txpbufsstorage cfg em = Inr index" and "xe_pbuf_chain x p h = q # qs"
    and "xe_alloc x TxRing (Suc (length qs)) h = (Some bd, h1)"
    and "index + XEMACPS_BD_TO_INDEX x TxRing bd h1 < length (tx_pbufs_storage em)"
    and "tx_pbufs_storage em ! (index + XEMACPS_BD_TO_INDEX x TxRing bd h1) \<noteq> None"
  shows "emacps_sgsend x cfg p em h = Inr (False, em, h1)"
  using assms by (simp add: emacps_sgsend_def slot_get_def)

end
