(* ===== verification/EthInput.thy ===== *)
theory EthInput
  imports Gptp EmacIf
begin

text \<open>
  The way of a frame through the link layer: \<open>xemacpsif_input\<close> of \<open>netif/xemacpsif.c\<close> takes it from the
  driver's queue, \<open>ethernet_input\<close> of \<open>netif/ethernet.c\<close> dispatches on its type, and the hook for unknown
  types of \<open>gptp_hook.c\<close> gives gPTP messages to the interpreter; and the way out, \<open>ethernet_output\<close>.
  Statistics counters and debug output are left out.
\<close>

section \<open>The stack around the link layer\<close>

text \<open>
  The compile-time options of \<open>ethernet_input\<close>, and the stack's functions it calls. \<open>ec_vlan_check\<close> is the
  hook that is given the Ethernet header and the VLAN header, if one is defined. A layer-3 input
  function consumes the buffer, or hands a buffer to the receiver registered with \<open>udp_recv\<close>, which
  then owns it. \<open>pbuf_remove_header\<close> and \<open>pbuf_add_header\<close> return whether they failed.
\<close>

record eth_config =
  ec_arp :: bool
  ec_ipv4 :: bool
  ec_ipv6 :: bool
  ec_vlan :: bool
  ec_pppoe :: bool
  ec_vlan_check :: "(u8 list \<Rightarrow> u8 list \<Rightarrow> bool) option"

record 'h link_stack =
  ls_has_index :: "nat \<Rightarrow> 'h \<Rightarrow> bool"
  ls_set_index :: "nat \<Rightarrow> 'h \<Rightarrow> 'h"
  ls_mark_multicast :: "nat \<Rightarrow> 'h \<Rightarrow> 'h"
  ls_mark_broadcast :: "nat \<Rightarrow> 'h \<Rightarrow> 'h"
  ls_netif_etharp :: "'h \<Rightarrow> bool"
  ls_remove_header :: "nat \<Rightarrow> nat \<Rightarrow> 'h \<Rightarrow> bool \<times> 'h"
  ls_add_header :: "nat \<Rightarrow> nat \<Rightarrow> 'h \<Rightarrow> bool \<times> 'h"
  ls_write :: "nat \<Rightarrow> nat \<Rightarrow> u8 list \<Rightarrow> 'h \<Rightarrow> 'h"
  ls_ip4_input :: "nat \<Rightarrow> 'h \<Rightarrow> nat option \<times> 'h"
  ls_ip6_input :: "nat \<Rightarrow> 'h \<Rightarrow> nat option \<times> 'h"
  ls_etharp_input :: "nat \<Rightarrow> 'h \<Rightarrow> 'h"
  ls_pppoe_disc :: "nat \<Rightarrow> 'h \<Rightarrow> 'h"
  ls_pppoe_data :: "nat \<Rightarrow> 'h \<Rightarrow> 'h"

definition ETHTYPE_IP :: u16 where "ETHTYPE_IP = 0x0800"
definition ETHTYPE_ARP :: u16 where "ETHTYPE_ARP = 0x0806"
definition ETHTYPE_VLAN :: u16 where "ETHTYPE_VLAN = 0x8100"
definition ETHTYPE_IPV6 :: u16 where "ETHTYPE_IPV6 = 0x86DD"
definition ETHTYPE_PPPOEDISC :: u16 where "ETHTYPE_PPPOEDISC = 0x8863"
definition ETHTYPE_PPPOE :: u16 where "ETHTYPE_PPPOE = 0x8864"
definition ETHTYPE_PTP :: u16 where "ETHTYPE_PTP = 0x88F7"

lemmas ethtype_defs = ETHTYPE_IP_def ETHTYPE_ARP_def ETHTYPE_VLAN_def ETHTYPE_IPV6_def ETHTYPE_PPPOEDISC_def
  ETHTYPE_PPPOE_def ETHTYPE_PTP_def

definition SIZEOF_ETH_HDR :: nat where "SIZEOF_ETH_HDR = 14"
definition SIZEOF_VLAN_HDR :: nat where "SIZEOF_VLAN_HDR = 4"

text \<open>The two bytes at an offset in network order.\<close>

definition be16_at :: "nat \<Rightarrow> u8 list \<Rightarrow> u16" where
  "be16_at i bs = push_bit 8 (ucast (bs ! i)) OR ucast (bs ! Suc i)"

definition frame_type :: "u8 list \<Rightarrow> u16" where
  "frame_type bs = be16_at 12 bs"

definition frame_of :: "'h lwip \<Rightarrow> nat \<Rightarrow> 'h ptp_node \<Rightarrow> u8 list" where
  "frame_of l p nd = msg_bytes (lw_pbuf_msg l p (hw (nd_world nd)))"

definition on_hw :: "('h \<Rightarrow> 'h) \<Rightarrow> 'h ptp_node \<Rightarrow> 'h ptp_node" where
  "on_hw f nd = nd\<lparr>nd_world := lw f (nd_world nd)\<rparr>"

section \<open>The hook\<close>

definition ptp_sync :: "'h lwip \<Rightarrow> nat \<Rightarrow> 'h ptp_node \<Rightarrow> fault + 'h ptp_node" where
  "ptp_sync l p nd =
     (let m = lw_pbuf_msg l p (hw (nd_world nd));
          ptp_data = \<lparr>msg_addr = msg_addr m + ETHERNET_HEADER_LEN,
                      msg_bytes = drop ETHERNET_HEADER_LEN (msg_bytes m)\<rparr>
      in bind_sum (ptp_sync_interpreter (nd_cbs nd) ptp_data (nd_sync nd) (nd_world nd))
           (\<lambda>(stat, s, w). Inr (nd\<lparr>nd_sync := s, nd_world := w\<rparr>)))"

definition gptp_protocol_hook :: "'h lwip \<Rightarrow> nat \<Rightarrow> 'h ptp_node \<Rightarrow> fault + (err_t \<times> 'h ptp_node)" where
  "gptp_protocol_hook l p nd =
     (let bs = frame_of l p nd
      in if length bs < SIZEOF_ETH_HDR then Inl Buffer_overread
         else bind_sum (if frame_type bs = ETHTYPE_PTP then ptp_sync l p nd else Inr nd)
                (\<lambda>nd1. Inr (ERR_OK, on_hw (lw_pbuf_free l p) nd1)))"

section \<open>Input\<close>

text \<open>The marks of the link-layer destination: \<open>Some True\<close> for broadcast, \<open>Some False\<close> for multicast.\<close>

definition ll_mark :: "eth_config \<Rightarrow> u8 list \<Rightarrow> bool option" where
  "ll_mark c bs =
     (if bs ! 0 AND 1 \<noteq> 0 then
        (if bs ! 0 = 0x01 then
           (if ec_ipv4 c \<and> bs ! 1 = 0x00 \<and> bs ! 2 = 0x5E then Some False else None)
         else if ec_ipv6 c \<and> bs ! 0 = 0x33 \<and> bs ! 1 = 0x33 then Some False
         else if take 6 bs = replicate 6 0xFF then Some True
         else None)
      else None)"

definition free_and_return :: "'h lwip \<Rightarrow> nat \<Rightarrow> 'h ptp_node \<Rightarrow> fault + (err_t \<times> 'h ptp_node)" where
  "free_and_return l p nd = Inr (ERR_OK, on_hw (lw_pbuf_free l p) nd)"

text \<open>A layer-3 input function, with the receiver of \<open>ptp.c\<close> called on a buffer that is delivered to it.\<close>

definition deliver :: "'h lwip \<Rightarrow> ('h \<Rightarrow> nat option \<times> 'h) \<Rightarrow> 'h ptp_node \<Rightarrow> fault + (err_t \<times> 'h ptp_node)" where
  "deliver l input nd =
     (let (d, h) = input (hw (nd_world nd));
          nd1 = on_hw (\<lambda>_. h) nd
      in (case d of None \<Rightarrow> Inr (ERR_OK, nd1)
          | Some q \<Rightarrow> bind_sum (ptp_msg_interpreter l q nd1) (\<lambda>nd2. Inr (ERR_OK, nd2))))"

definition skip_header ::
  "'h link_stack \<Rightarrow> 'h lwip \<Rightarrow> nat \<Rightarrow> nat \<Rightarrow> ('h ptp_node \<Rightarrow> fault + (err_t \<times> 'h ptp_node)) \<Rightarrow> 'h ptp_node \<Rightarrow>
   fault + (err_t \<times> 'h ptp_node)" where
  "skip_header ls l p off k nd =
     (let (failed, h) = ls_remove_header ls p off (hw (nd_world nd));
          nd1 = on_hw (\<lambda>_. h) nd
      in if failed then free_and_return l p nd1 else k nd1)"

text \<open>The switch on the type. \<open>ec_arp\<close> stands for \<open>LWIP_IPV4 && LWIP_ARP\<close>.\<close>

definition eth_switch ::
  "eth_config \<Rightarrow> 'h link_stack \<Rightarrow> 'h lwip \<Rightarrow> u16 \<Rightarrow> nat \<Rightarrow> nat \<Rightarrow> 'h ptp_node \<Rightarrow> fault + (err_t \<times> 'h ptp_node)" where
  "eth_switch c ls l ty off p nd =
     (if ec_arp c \<and> ty = ETHTYPE_IP then
        (if \<not> ls_netif_etharp ls (hw (nd_world nd)) then free_and_return l p nd
         else skip_header ls l p off (deliver l (ls_ip4_input ls p)) nd)
      else if ec_arp c \<and> ty = ETHTYPE_ARP then
        (if \<not> ls_netif_etharp ls (hw (nd_world nd)) then free_and_return l p nd
         else skip_header ls l p off (\<lambda>nd1. Inr (ERR_OK, on_hw (ls_etharp_input ls p) nd1)) nd)
      else if ec_pppoe c \<and> ty = ETHTYPE_PPPOEDISC then Inr (ERR_OK, on_hw (ls_pppoe_disc ls p) nd)
      else if ec_pppoe c \<and> ty = ETHTYPE_PPPOE then Inr (ERR_OK, on_hw (ls_pppoe_data ls p) nd)
      else if ec_ipv6 c \<and> ty = ETHTYPE_IPV6 then
        (if length (frame_of l p nd) < off then free_and_return l p nd
         else skip_header ls l p off (deliver l (ls_ip6_input ls p)) nd)
      else
        bind_sum (gptp_protocol_hook l p nd)
          (\<lambda>(e, nd1). if e = ERR_OK then Inr (ERR_OK, nd1) else free_and_return l p nd1))"

text \<open>The effective type and the offset of the next header; \<open>None\<close> when a VLAN tag makes the frame invalid or not ours.\<close>

definition eth_tag :: "eth_config \<Rightarrow> u8 list \<Rightarrow> (u16 \<times> nat) option" where
  "eth_tag c bs =
     (if ec_vlan c \<and> frame_type bs = ETHTYPE_VLAN then
        (if length bs \<le> SIZEOF_ETH_HDR + SIZEOF_VLAN_HDR then None
         else if (case ec_vlan_check c of None \<Rightarrow> False | Some f \<Rightarrow> \<not> f (take 14 bs) (take 4 (drop 14 bs))) then None
         else Some (be16_at 16 bs, SIZEOF_ETH_HDR + SIZEOF_VLAN_HDR))
      else Some (frame_type bs, SIZEOF_ETH_HDR))"

definition ethernet_input ::
  "eth_config \<Rightarrow> 'h link_stack \<Rightarrow> 'h lwip \<Rightarrow> nat \<Rightarrow> 'h ptp_node \<Rightarrow> fault + (err_t \<times> 'h ptp_node)" where
  "ethernet_input c ls l p nd =
     (let bs = frame_of l p nd
      in if length bs \<le> SIZEOF_ETH_HDR then free_and_return l p nd
         else
           (let nd1 = (if ls_has_index ls p (hw (nd_world nd)) then nd else on_hw (ls_set_index ls p) nd)
            in (case eth_tag c bs of
                  None \<Rightarrow> free_and_return l p nd1
                | Some (ty, off) \<Rightarrow>
                    eth_switch c ls l ty off p
                      (case ll_mark c bs of
                         None \<Rightarrow> nd1
                       | Some True \<Rightarrow> on_hw (ls_mark_broadcast ls p) nd1
                       | Some False \<Rightarrow> on_hw (ls_mark_multicast ls p) nd1))))"

text \<open>
  One call of the poll function in a build without an operating system; \<open>input\<close> is \<open>netif->input\<close>. The
  type is read without a check of the length.
\<close>

definition polled_types :: "eth_config \<Rightarrow> u16 list" where
  "polled_types c = [ETHTYPE_PTP, ETHTYPE_IP, ETHTYPE_ARP] @ (if ec_ipv6 c then [ETHTYPE_IPV6] else []) @
     (if ec_pppoe c then [ETHTYPE_PPPOEDISC, ETHTYPE_PPPOE] else [])"

definition xemacpsif_input ::
  "eth_config \<Rightarrow> 'h xemacps \<Rightarrow> 'h lwip \<Rightarrow> (nat \<Rightarrow> 'h ptp_node \<Rightarrow> fault + (err_t \<times> 'h ptp_node)) \<Rightarrow> 'h ptp_node \<Rightarrow>
   fault + (i32 \<times> 'h ptp_node)" where
  "xemacpsif_input c x l input nd =
     (let (p, h) = low_level_input x (hw (nd_world nd));
          nd1 = on_hw (\<lambda>_. h) nd
      in (case p of
            None \<Rightarrow> Inr (0, nd1)
          | Some p \<Rightarrow>
              (let bs = frame_of l p nd1
               in if length bs < SIZEOF_ETH_HDR then Inl Buffer_overread
                  else if frame_type bs \<in> set (polled_types c) then
                    bind_sum (input p nd1)
                      (\<lambda>(e, nd2). Inr (1, if e \<noteq> ERR_OK then on_hw (lw_pbuf_free l p) nd2 else nd2))
                  else Inr (1, on_hw (lw_pbuf_free l p) nd1))))"

section \<open>Output\<close>

text \<open>
  \<open>vlan_set\<close> is the hook that chooses the priority and the identifier of a tag, if one is defined: a
  negative value for none, a value above 16 bits trips an assertion.
\<close>

definition ethernet_output ::
  "'h link_stack \<Rightarrow> (nat \<Rightarrow> 'h \<Rightarrow> err_t \<times> 'h) \<Rightarrow> (nat \<Rightarrow> u8 list \<Rightarrow> u8 list \<Rightarrow> u16 \<Rightarrow> int) option \<Rightarrow> nat \<Rightarrow>
   nat \<Rightarrow> u8 list \<Rightarrow> u8 list \<Rightarrow> u16 \<Rightarrow> 'h \<Rightarrow> fault + (err_t \<times> 'h)" where
  "ethernet_output ls linkoutput vlan_set hwaddr_len p src dst eth_type h =
     (let prio_vid = (case vlan_set of None \<Rightarrow> - 1 | Some f \<Rightarrow> f p src dst eth_type);
          tagged = (0 \<le> prio_vid);
          (failed, h1) = ls_add_header ls p
             (if tagged then SIZEOF_ETH_HDR + SIZEOF_VLAN_HDR else SIZEOF_ETH_HDR) h;
          h2 = (if tagged then
                  ls_write ls p 14 (be_bytes 2 (nat prio_vid))
                    (ls_write ls p 16 (be_bytes 2 (unat eth_type)) h1)
                else h1);
          ty = (if tagged then ETHTYPE_VLAN else eth_type)
      in if tagged \<and> prio_vid > 0xFFFF then Inl Assert_failed
         else if failed then Inr (ERR_BUF, h1)
         else
           (let h3 = ls_write ls p 6 (take 6 src)
                       (ls_write ls p 0 (take 6 dst) (ls_write ls p 12 (be_bytes 2 (unat ty)) h2))
            in if hwaddr_len \<noteq> 6 then Inl Assert_failed else Inr (linkoutput p h3)))"


section \<open>The contract of an input function\<close>

text \<open>
  What the poll function relies on in \<open>netif->input\<close>: the buffer is consumed when it returns \<open>ERR_OK\<close>,
  and stays with the caller otherwise. \<open>owned n\<close> says that the application holds \<open>n\<close> buffer references;
  \<open>ready\<close> that the frame of a buffer is one the function can read.
\<close>

locale netif_input =
  fixes input :: "nat \<Rightarrow> 'h ptp_node \<Rightarrow> fault + (err_t \<times> 'h ptp_node)"
    and owned :: "int \<Rightarrow> 'h ptp_node \<Rightarrow> bool" and ready :: "nat \<Rightarrow> 'h ptp_node \<Rightarrow> bool"
    and may_fail :: "fault \<Rightarrow> bool" and l :: "'h lwip" and x :: "'h xemacps"
  assumes consumes: "owned n nd \<Longrightarrow> ready p nd \<Longrightarrow>
      (\<exists>f. input p nd = Inl f \<and> may_fail f) \<or>
      (\<exists>e nd'. input p nd = Inr (e, nd') \<and> owned (n - of_bool (e = ERR_OK)) nd')"
    and freed: "owned n nd \<Longrightarrow> owned (n - 1) (on_hw (lw_pbuf_free l p) nd)"
    and polled: "owned n nd \<Longrightarrow> low_level_input x (hw (nd_world nd)) = (d, h) \<Longrightarrow>
      owned (n + held d) (on_hw (\<lambda>_. h) nd)"
    and queued: "owned n nd \<Longrightarrow> low_level_input x (hw (nd_world nd)) = (Some p, h) \<Longrightarrow>
      ready p (on_hw (\<lambda>_. h) nd) \<and> (may_fail Buffer_overread \<or> SIZEOF_ETH_HDR \<le> length (frame_of l p (on_hw (\<lambda>_. h) nd)))"
begin

lemma poll_keeps:
  assumes "owned n nd"
  shows "(\<exists>f. xemacpsif_input c x l input nd = Inl f \<and> may_fail f) \<or>
    (\<exists>r nd'. xemacpsif_input c x l input nd = Inr (r, nd') \<and> owned n nd')"
proof -
  obtain d h where d: "low_level_input x (hw (nd_world nd)) = (d, h)" by fastforce
  let ?nd = "on_hw (\<lambda>_. h) nd"
  have o: "owned (n + held d) ?nd" by (rule polled [OF assms d])
  show ?thesis
  proof (cases d)
    case None
    then show ?thesis using o by (simp add: xemacpsif_input_def d)
  next
    case (Some p)
    with o have o': "owned (n + 1) ?nd" by simp
    have q: "ready p ?nd" "may_fail Buffer_overread \<or> SIZEOF_ETH_HDR \<le> length (frame_of l p ?nd)"
      using queued [OF assms d [unfolded Some]] by auto
    have f: "owned n (on_hw (lw_pbuf_free l p) ?nd)" using freed [OF o', of p] by simp
    from consumes [OF o' q(1)] show ?thesis
    proof (elim disjE exE conjE)
      fix g assume "input p ?nd = Inl g" "may_fail g"
      then show ?thesis using q(2) f by (auto simp: xemacpsif_input_def d Some Let_def not_less)
    next
      fix e nd' assume i: "input p ?nd = Inr (e, nd')" and o2: "owned (n + 1 - of_bool (e = ERR_OK)) nd'"
      have "owned n (if e \<noteq> ERR_OK then on_hw (lw_pbuf_free l p) nd' else nd')"
        using o2 freed [of "n + 1" nd' p] by auto
      then show ?thesis using q(2) f i by (auto simp: xemacpsif_input_def d Some Let_def not_less)
    qed
  qed
qed

end

section \<open>The link layer meets the contract\<close>

text \<open>
  The account of the stack around the link layer: marking a buffer and moving its payload pointer keep
  the references and, for the marks, the frame; the input functions take the buffer's reference, or
  leave it to the receiver they deliver to; polling the queue takes its reference over.
\<close>

definition link_account ::
  "'h link_stack \<Rightarrow> 'h lwip \<Rightarrow> 'h xemacps \<Rightarrow> ('h \<Rightarrow> int) \<Rightarrow> ('h \<Rightarrow> int) \<Rightarrow> bool" where
  "link_account ls l x refs pcbs \<longleftrightarrow>
     (\<forall>p h. \<forall>f \<in> {ls_set_index ls p, ls_mark_multicast ls p, ls_mark_broadcast ls p}.
        refs (f h) = refs h \<and> pcbs (f h) = pcbs h \<and> lw_pbuf_msg l p (f h) = lw_pbuf_msg l p h) \<and>
     (\<forall>p n h. refs (snd (ls_remove_header ls p n h)) = refs h \<and> pcbs (snd (ls_remove_header ls p n h)) = pcbs h) \<and>
     (\<forall>p h. \<forall>f \<in> {ls_ip4_input ls p, ls_ip6_input ls p}.
        refs (snd (f h)) = refs h - 1 + held (fst (f h)) \<and> pcbs (snd (f h)) = pcbs h) \<and>
     (\<forall>p h. \<forall>f \<in> {ls_etharp_input ls p, ls_pppoe_disc ls p, ls_pppoe_data ls p}.
        refs (f h) = refs h - 1 \<and> pcbs (f h) = pcbs h) \<and>
     (\<forall>h. refs (snd (xe_pq_dequeue x h)) = refs h + held (fst (xe_pq_dequeue x h)) \<and>
        pcbs (snd (xe_pq_dequeue x h)) = pcbs h)"

text \<open>
  What is received is complete: every frame in the queue has the 58 bytes of an Ethernet header and a
  message with its time stamp (less than the minimal frame of 60 bytes), and what UDP delivers has the
  44 bytes of the message.
\<close>

definition full_traffic :: "'h link_stack \<Rightarrow> 'h lwip \<Rightarrow> 'h xemacps \<Rightarrow> bool" where
  "full_traffic ls l x \<longleftrightarrow>
     (\<forall>h h' p. xe_pq_dequeue x h = (Some p, h') \<longrightarrow> 58 \<le> length (msg_bytes (lw_pbuf_msg l p h'))) \<and>
     (\<forall>h h' p q. ls_ip4_input ls p h = (Some q, h') \<or> ls_ip6_input ls p h = (Some q, h') \<longrightarrow>
        44 \<le> length (msg_bytes (lw_pbuf_msg l q h')))"

definition link_ok where
  "link_ok b ls l x refs pcbs \<longleftrightarrow> net_pool b l refs pcbs \<and> link_account ls l x refs pcbs \<and> full_traffic ls l x"

definition gptp_cbs :: "'h bsp \<Rightarrow> 'h lwip \<Rightarrow> 'h ptp ptp_sync_cbs" where
  "gptp_cbs b l = \<lparr>sSyscTimeCb = Some (get_systime b), sReportDiffCb = Some (ptp_process_time_diff b (Some (init_param b))),
     sSendDlyReqCb = Some (gptp_send_delay_request l)\<rparr>"

definition gptp_owned ::
  "'h bsp \<Rightarrow> 'h lwip \<Rightarrow> ('h \<Rightarrow> int) \<Rightarrow> ('h \<Rightarrow> int) \<Rightarrow> int \<Rightarrow> int \<Rightarrow> 'h ptp_node \<Rightarrow> bool" where
  "gptp_owned b l refs pcbs k n nd \<longleftrightarrow>
     nd_cbs nd = gptp_cbs b l \<and> node_inv b l refs pcbs n k (nd_world nd) \<and> dr_clean (delay_req_msg (nd_sync nd))"

lemma gptp_owned_hw:
  assumes "gptp_owned b l refs pcbs k n nd" and "net_pool b l refs pcbs"
    and "refs (f (hw (nd_world nd))) = refs (hw (nd_world nd)) + i"
    and "pcbs (f (hw (nd_world nd))) = pcbs (hw (nd_world nd))"
  shows "gptp_owned b l refs pcbs k (n + i) (on_hw f nd)"
  using assms node_inv_hw [of b l refs pcbs n k "nd_world nd" "f (hw (nd_world nd))" "n + i" k]
  by (simp add: gptp_owned_def on_hw_def lw_def) (simp add: node_inv_def)

lemma gptp_owned_free:
  assumes "gptp_owned b l refs pcbs k n nd" and "net_pool b l refs pcbs"
  shows "gptp_owned b l refs pcbs k (n - 1) (on_hw (lw_pbuf_free l p) nd)"
  using gptp_owned_hw [OF assms, of "lw_pbuf_free l p" "- 1"] assms(2) by (simp add: net_pool_def)

lemma gptp_ptp_sync:
  assumes "gptp_owned b l refs pcbs k n nd" and "58 \<le> length (frame_of l p nd)"
  shows "\<exists>nd'. ptp_sync l p nd = Inr nd' \<and> gptp_owned b l refs pcbs k n nd'"
proof -
  let ?m = "lw_pbuf_msg l p (hw (nd_world nd))"
  let ?d = "\<lparr>msg_addr = msg_addr ?m + ETHERNET_HEADER_LEN, msg_bytes = drop ETHERNET_HEADER_LEN (msg_bytes ?m)\<rparr>"
  have len: "44 \<le> length (msg_bytes ?d)"
    using assms(2) by (simp add: frame_of_def ETHERNET_HEADER_LEN_def)
  show ?thesis
    using assms(1) gptp_source.callbacks.interpreter_step [of "nd_cbs nd" b l refs pcbs n k "nd_world nd" "nd_sync nd", OF _ _ _ _ _ len]
    by (auto simp: gptp_owned_def gptp_cbs_def ptp_sync_def Let_def)
qed

lemma gptp_hook_consumes:
  assumes "gptp_owned b l refs pcbs k n nd" and "net_pool b l refs pcbs" and "58 \<le> length (frame_of l p nd)"
  shows "\<exists>nd'. gptp_protocol_hook l p nd = Inr (ERR_OK, nd') \<and> gptp_owned b l refs pcbs k (n - 1) nd'"
proof -
  have "\<not> length (frame_of l p nd) < SIZEOF_ETH_HDR" using assms(3) by (simp add: SIZEOF_ETH_HDR_def)
  then show ?thesis
    using gptp_ptp_sync [OF assms(1,3)] gptp_owned_free [OF assms(1,2)] gptp_owned_free [OF _ assms(2)]
    by (auto simp: gptp_protocol_hook_def Let_def)
qed


text \<open>The outcome of a call that consumes one buffer and cannot fail.\<close>

definition consumed_one ::
  "'h bsp \<Rightarrow> 'h lwip \<Rightarrow> ('h \<Rightarrow> int) \<Rightarrow> ('h \<Rightarrow> int) \<Rightarrow> int \<Rightarrow> int \<Rightarrow> fault + (err_t \<times> 'h ptp_node) \<Rightarrow> bool" where
  "consumed_one b l refs pcbs k n r \<longleftrightarrow>
     (\<exists>nd'. r = Inr (ERR_OK, nd') \<and> gptp_owned b l refs pcbs k (n - 1) nd')"

lemma consumed_free:
  "gptp_owned b l refs pcbs k n nd \<Longrightarrow> net_pool b l refs pcbs \<Longrightarrow>
     consumed_one b l refs pcbs k n (free_and_return l p nd)"
  by (simp add: consumed_one_def free_and_return_def gptp_owned_free)

lemma consumed_by:
  assumes "gptp_owned b l refs pcbs k n nd" and "net_pool b l refs pcbs"
    and "\<And>h. refs (f h) = refs h - 1 \<and> pcbs (f h) = pcbs h"
  shows "consumed_one b l refs pcbs k n (Inr (ERR_OK, on_hw f nd))"
  using gptp_owned_hw [OF assms(1,2), of f "- 1"] assms(3) by (simp add: consumed_one_def)

lemma consumed_deliver:
  assumes o: "gptp_owned b l refs pcbs k n nd" and ok: "link_ok b ls l x refs pcbs"
    and i: "input = ls_ip4_input ls p \<or> input = ls_ip6_input ls p"
  shows "consumed_one b l refs pcbs k n (deliver l input nd)"
proof -
  obtain d h where d: "input (hw (nd_world nd)) = (d, h)" by fastforce
  let ?nd = "on_hw (\<lambda>_. h) nd"
  have np: "net_pool b l refs pcbs" and a: "link_account ls l x refs pcbs" and f: "full_traffic ls l x"
    using ok by (simp_all add: link_ok_def)
  have "refs (snd (input (hw (nd_world nd)))) = refs (hw (nd_world nd)) - 1 + held (fst (input (hw (nd_world nd)))) \<and>
      pcbs (snd (input (hw (nd_world nd)))) = pcbs (hw (nd_world nd))"
    using a i by (auto simp: link_account_def)
  then have o1: "gptp_owned b l refs pcbs k (n - 1 + held d) ?nd"
    using gptp_owned_hw [OF o np, of "\<lambda>_. h" "held d - 1"] d by (simp add: algebra_simps)
  show ?thesis
  proof (cases d)
    case None
    then show ?thesis using o1 by (simp add: deliver_def d consumed_one_def)
  next
    case (Some q)
    have len: "44 \<le> length (msg_bytes (lw_pbuf_msg l q (hw (nd_world ?nd))))"
      using f d i Some by (auto simp: full_traffic_def on_hw_def lw_def)
    have "node_inv b l refs pcbs n k (nd_world ?nd)" "dr_clean (delay_req_msg (nd_sync ?nd))"
      "nd_cbs ?nd = gptp_cbs b l" using o1 Some by (simp_all add: gptp_owned_def)
    then show ?thesis
      using rx_step [OF gptp_source.callbacks.sync_callbacks_axioms _ _ _ len, of b refs pcbs n k]
      by (auto simp: deliver_def d Some consumed_one_def gptp_owned_def gptp_cbs_def)
  qed
qed

lemma consumed_skip:
  assumes o: "gptp_owned b l refs pcbs k n nd" and ok: "link_ok b ls l x refs pcbs"
    and c: "\<And>nd1. gptp_owned b l refs pcbs k n nd1 \<Longrightarrow> consumed_one b l refs pcbs k n (cont nd1)"
  shows "consumed_one b l refs pcbs k n (skip_header ls l p off cont nd)"
proof -
  obtain failed h where r: "ls_remove_header ls p off (hw (nd_world nd)) = (failed, h)" by fastforce
  have np: "net_pool b l refs pcbs" and a: "link_account ls l x refs pcbs"
    using ok by (simp_all add: link_ok_def)
  have "refs h = refs (hw (nd_world nd)) \<and> pcbs h = pcbs (hw (nd_world nd))"
    using a r unfolding link_account_def by (metis snd_conv)
  then have o1: "gptp_owned b l refs pcbs k n (on_hw (\<lambda>_. h) nd)"
    using gptp_owned_hw [OF o np, of "\<lambda>_. h" 0] by simp
  show ?thesis using c [OF o1] consumed_free [OF o1 np] by (simp add: skip_header_def r Let_def)
qed

lemma consumed_switch:
  assumes o: "gptp_owned b l refs pcbs k n nd" and ok: "link_ok b ls l x refs pcbs"
    and len: "58 \<le> length (frame_of l p nd)"
  shows "consumed_one b l refs pcbs k n (eth_switch c ls l ty off p nd)"
proof -
  have np: "net_pool b l refs pcbs" and a: "link_account ls l x refs pcbs"
    using ok by (simp_all add: link_ok_def)
  have arp: "consumed_one b l refs pcbs k n (Inr (ERR_OK, on_hw (ls_etharp_input ls p) nd1))"
    "consumed_one b l refs pcbs k n (Inr (ERR_OK, on_hw (ls_pppoe_disc ls p) nd1))"
    "consumed_one b l refs pcbs k n (Inr (ERR_OK, on_hw (ls_pppoe_data ls p) nd1))"
    if "gptp_owned b l refs pcbs k n nd1" for nd1
    by (rule consumed_by [OF that np]; use a in \<open>simp add: link_account_def\<close>)+
  have ip: "consumed_one b l refs pcbs k n (skip_header ls l p off (deliver l inp) nd)"
    if "inp = ls_ip4_input ls p \<or> inp = ls_ip6_input ls p" for inp
    by (rule consumed_skip [OF o ok]) (erule consumed_deliver [OF _ ok that])
  have et: "consumed_one b l refs pcbs k n
      (skip_header ls l p off (\<lambda>nd1. Inr (ERR_OK, on_hw (ls_etharp_input ls p) nd1)) nd)"
    by (rule consumed_skip [OF o ok]) (rule arp)
  have hook: "consumed_one b l refs pcbs k n (bind_sum (gptp_protocol_hook l p nd)
      (\<lambda>(e, nd1). if e = ERR_OK then Inr (ERR_OK, nd1) else free_and_return l p nd1))"
    using gptp_hook_consumes [OF o np len] by (auto simp: consumed_one_def)
  show ?thesis
    unfolding eth_switch_def using ip et hook arp(2,3) [OF o] consumed_free [OF o np] by (simp split: if_split)
qed

lemma consumed_input:
  assumes o: "gptp_owned b l refs pcbs k n nd" and ok: "link_ok b ls l x refs pcbs"
    and len: "58 \<le> length (frame_of l p nd)"
  shows "consumed_one b l refs pcbs k n (ethernet_input c ls l p nd)"
proof -
  have np: "net_pool b l refs pcbs" and a: "link_account ls l x refs pcbs"
    using ok by (simp_all add: link_ok_def)
  have keep: "gptp_owned b l refs pcbs k n (on_hw f nd1) \<and> frame_of l p (on_hw f nd1) = frame_of l p nd1"
    if "gptp_owned b l refs pcbs k n nd1" "f \<in> {ls_set_index ls p, ls_mark_multicast ls p, ls_mark_broadcast ls p}"
    for f nd1
  proof -
    have "refs (f h) = refs h \<and> pcbs (f h) = pcbs h \<and> lw_pbuf_msg l p (f h) = lw_pbuf_msg l p h" for h
      using a that(2) by (auto simp: link_account_def)
    then show ?thesis
      using gptp_owned_hw [OF that(1) np, of f 0] by (simp add: frame_of_def on_hw_def lw_def)
  qed
  let ?nd1 = "if ls_has_index ls p (hw (nd_world nd)) then nd else on_hw (ls_set_index ls p) nd"
  have o1: "gptp_owned b l refs pcbs k n ?nd1" "frame_of l p ?nd1 = frame_of l p nd"
    using o keep [OF o] by simp_all
  let ?nd2 = "case ll_mark c (frame_of l p nd) of None \<Rightarrow> ?nd1
    | Some True \<Rightarrow> on_hw (ls_mark_broadcast ls p) ?nd1 | Some False \<Rightarrow> on_hw (ls_mark_multicast ls p) ?nd1"
  have o2: "gptp_owned b l refs pcbs k n ?nd2 \<and> frame_of l p ?nd2 = frame_of l p nd"
  proof (cases "ll_mark c (frame_of l p nd)")
    case None
    then show ?thesis using o1 by simp
  next
    case (Some m)
    then show ?thesis
      using keep [OF o1(1), of "ls_mark_broadcast ls p"] keep [OF o1(1), of "ls_mark_multicast ls p"] o1(2)
      by (cases m) simp_all
  qed
  have "58 \<le> length (frame_of l p ?nd2)" using len o2 by metis
  note sw = consumed_switch [OF conjunct1 [OF o2] ok this]
  have long: "\<not> length (frame_of l p nd) \<le> SIZEOF_ETH_HDR" using len by (simp add: SIZEOF_ETH_HDR_def)
  show ?thesis
  proof (cases "eth_tag c (frame_of l p nd)")
    case None
    then have "ethernet_input c ls l p nd = free_and_return l p ?nd1"
      using long by (simp add: ethernet_input_def Let_def)
    then show ?thesis using consumed_free [OF o1(1) np] by metis
  next
    case (Some t)
    then have "ethernet_input c ls l p nd = eth_switch c ls l (fst t) (snd t) p ?nd2"
      using long by (simp add: ethernet_input_def Let_def split_beta)
    then show ?thesis using sw by metis
  qed
qed


text \<open>
  The interpretation is on the link layer itself. The laws depend on the account of the stack, which is
  not part of the repository, so the invariant and the failures are stated under it.
\<close>

interpretation link: netif_input "ethernet_input c ls l"
  "\<lambda>n nd. link_ok b ls l x refs pcbs \<longrightarrow> gptp_owned b l refs pcbs k n nd"
  "\<lambda>p nd. link_ok b ls l x refs pcbs \<longrightarrow> 58 \<le> length (frame_of l p nd)"
  "\<lambda>f. \<not> link_ok b ls l x refs pcbs" l x
  for b :: "'h bsp" and c ls l x refs pcbs k
proof
  fix n p and nd :: "'h ptp_node" and d h
  assume o: "link_ok b ls l x refs pcbs \<longrightarrow> gptp_owned b l refs pcbs k n nd"
  show "(\<exists>f. ethernet_input c ls l p nd = Inl f \<and> \<not> link_ok b ls l x refs pcbs) \<or>
      (\<exists>e nd'. ethernet_input c ls l p nd = Inr (e, nd') \<and>
        (link_ok b ls l x refs pcbs \<longrightarrow> gptp_owned b l refs pcbs k (n - of_bool (e = ERR_OK)) nd'))"
    if "link_ok b ls l x refs pcbs \<longrightarrow> 58 \<le> length (frame_of l p nd)"
    using consumed_input [of b l refs pcbs k n nd ls x p c] o that
    by (cases "ethernet_input c ls l p nd") (auto simp: consumed_one_def)
  show "link_ok b ls l x refs pcbs \<longrightarrow> gptp_owned b l refs pcbs k (n - 1) (on_hw (lw_pbuf_free l p) nd)"
    using o gptp_owned_free by (auto simp: link_ok_def)
  show "link_ok b ls l x refs pcbs \<longrightarrow> gptp_owned b l refs pcbs k (n + held d) (on_hw (\<lambda>_. h) nd)"
    if "low_level_input x (hw (nd_world nd)) = (d, h)"
  proof
    assume ok: "link_ok b ls l x refs pcbs"
    then have "refs (snd (xe_pq_dequeue x h')) = refs h' + held (fst (xe_pq_dequeue x h'))"
      "pcbs (snd (xe_pq_dequeue x h')) = pcbs h'" for h' by (simp_all add: link_ok_def link_account_def)
    then have "refs h = refs (hw (nd_world nd)) + held d" "pcbs h = pcbs (hw (nd_world nd))"
      using that by (auto simp: low_level_input_def split: if_splits) (metis fst_conv snd_conv)+
    then show "gptp_owned b l refs pcbs k (n + held d) (on_hw (\<lambda>_. h) nd)"
      using gptp_owned_hw [of b l refs pcbs k n nd "\<lambda>_. h" "held d"] o ok by (simp add: link_ok_def)
  qed
  show "(link_ok b ls l x refs pcbs \<longrightarrow> 58 \<le> length (frame_of l p (on_hw (\<lambda>_. h) nd))) \<and>
      (\<not> link_ok b ls l x refs pcbs \<or> SIZEOF_ETH_HDR \<le> length (frame_of l p (on_hw (\<lambda>_. h) nd)))"
    if q: "low_level_input x (hw (nd_world nd)) = (Some p, h)"
  proof -
    have "58 \<le> length (frame_of l p (on_hw (\<lambda>_. h) nd))" if "link_ok b ls l x refs pcbs"
      using that q by (auto simp: link_ok_def full_traffic_def low_level_input_def frame_of_def on_hw_def lw_def
          split: if_splits)
    then show ?thesis by (auto simp: SIZEOF_ETH_HDR_def)
  qed
qed

section \<open>Polling after start-up\<close>

fun poll_run ::
  "eth_config \<Rightarrow> 'h link_stack \<Rightarrow> 'h lwip \<Rightarrow> 'h xemacps \<Rightarrow> nat \<Rightarrow> 'h ptp_node \<Rightarrow> fault + 'h ptp_node" where
  "poll_run c ls l x 0 nd = Inr nd"
| "poll_run c ls l x (Suc k) nd =
     bind_sum (xemacpsif_input c x l (ethernet_input c ls l) nd) (\<lambda>(r, nd1). poll_run c ls l x k nd1)"

lemma poll_run_keeps:
  assumes "link_ok b ls l x refs pcbs" and "gptp_owned b l refs pcbs k n nd"
  shows "\<exists>nd'. poll_run c ls l x m nd = Inr nd' \<and> gptp_owned b l refs pcbs k n nd'"
  using assms(2)
proof (induction m arbitrary: nd)
  case (Suc m)
  from link.poll_keeps [of b ls l x refs pcbs k n nd c c] assms(1) Suc.prems
  obtain r nd1 where "xemacpsif_input c x l (ethernet_input c ls l) nd = Inr (r, nd1)"
    "gptp_owned b l refs pcbs k n nd1" by auto
  with Suc.IH show ?case by simp
qed simp

lemma gptp_init_owned:
  defines "nd0 \<equiv> \<lambda>b l x cfg q em h. gptp_init b l x cfg q em (init_param b) (node_boot h)"
  shows "gptp_owned b l refs pcbs (pcbs (hw (nd_world (nd0 b l x cfg q em h))))
    (refs (hw (nd_world (nd0 b l x cfg q em h)))) (nd0 b l x cfg q em h)"
proof -
  obtain h' where w: "nd_world (nd0 b l x cfg q em h) = (ptp_boot h)\<lparr>hw := h', group_addr := PTP_MULTICAST_IPV4_ADDR32\<rparr>"
    using gptp_init_world [of b l x cfg q em "init_param b" "node_boot h"] by (auto simp: nd0_def node_boot_def)
  have "node_inv b l refs pcbs (refs h') (pcbs h') (nd_world (nd0 b l x cfg q em h))"
    unfolding w
    by (simp add: node_inv_def service_inv_def counter_ok_def ptp_boot_def timesync.defs timesync_boot_def
        tsu.defs tsu_boot_def RESYNC_COARSE_TIME_def adj_reserved_def)
  then show ?thesis
    using w by (simp add: gptp_owned_def gptp_cbs_def nd0_def gptp_init_effects node_boot_def ptp_sync_boot_def)
qed

text \<open>
  C3: after start-up over Ethernet, polling the interface is safe however often it is done and
  whatever frames the driver queued: no call stops, the state machine keeps its invariant, and every
  frame that was taken from the queue is consumed exactly once on every path (discarded, given to IP,
  ARP, PPPoE, or interpreted as a gPTP message), so that the references the application holds are those
  it held after start-up.
\<close>
theorem gptp_poll_safe:
  assumes "net_pool b l refs pcbs" and "link_account ls l x refs pcbs" and "full_traffic ls l x"
    and "nd0 = gptp_init b l x cfg q em (init_param b) (node_boot h)"
  shows "\<exists>nd. poll_run c ls l x m nd0 = Inr nd \<and> service_inv (nd_world nd) \<and> counter_ok (nd_world nd) \<and>
    refs (hw (nd_world nd)) = refs (hw (nd_world nd0)) \<and> pcbs (hw (nd_world nd)) = pcbs (hw (nd_world nd0))"
proof -
  have "link_ok b ls l x refs pcbs" using assms by (simp add: link_ok_def)
  from poll_run_keeps [OF this gptp_init_owned, of c m x cfg q em h] assms show ?thesis
    by (auto simp: gptp_owned_def node_inv_def)
qed


text \<open>A driver and a stack that meet the account: a queue of buffers, no descriptor in use, and input functions that drop.\<close>

definition sim_emac :: "nat \<Rightarrow> sim xemacps" where
  "sim_emac n =
     \<lparr>xe_read_reg = (\<lambda>a r h. (0, h)), xe_write_reg = (\<lambda>a r v h. h), xe_free_cnt = (\<lambda>g h. 0),
      xe_alloc = (\<lambda>g n h. (None, h)), xe_unalloc = (\<lambda>g n bd h. h), xe_to_hw = (\<lambda>g n bd h. (False, h)),
      xe_from_hw = (\<lambda>g n h. ((0, 0), h)), xe_free = (\<lambda>g n bd h. (True, h)), xe_next = (\<lambda>g bd h. bd + 64),
      xe_base = (\<lambda>g h. 0), xe_separation = (\<lambda>g h. 64),
      xe_create = (\<lambda>g a n h. (True, h)), xe_clone = (\<lambda>g t h. (True, h)), xe_ptr_reset = (\<lambda>g a h. h),
      xe_set_queue_ptr = (\<lambda>a n g h. h), xe_bd_write = (\<lambda>bd a v h. h), xe_bd_clear = (\<lambda>bd h. h),
      xe_bd_set_status = (\<lambda>bd v h. h), xe_bd_set_address_tx = (\<lambda>bd a h. h),
      xe_bd_set_address_rx = (\<lambda>bd a h. h), xe_bd_set_length = (\<lambda>bd v h. h), xe_bd_get_length = (\<lambda>bd h. 64),
      xe_bd_set_last = (\<lambda>bd h. h), xe_bd_clear_last = (\<lambda>bd h. h), xe_bd_clear_tx_used = (\<lambda>bd h. h),
      xe_pool_alloc = (\<lambda>n h. (None, h)), xe_pbuf_free = (\<lambda>p h. h\<lparr>sim_refs := sim_refs h - held p\<rparr>),
      xe_pbuf_ref = (\<lambda>p h. h\<lparr>sim_refs := sim_refs h + 1\<rparr>),
      xe_pbuf_chain = (\<lambda>p h. [p]), xe_pbuf_payload = (\<lambda>p h. 4096), xe_pbuf_len = (\<lambda>p h. 60),
      xe_pbuf_realloc = (\<lambda>p n h. h), xe_dcache_flush = (\<lambda>a n h. h), xe_dcache_inval = (\<lambda>a n h. h),
      xe_pq_enqueue = (\<lambda>p h. (True, h\<lparr>sim_queue := sim_queue h @ [p], sim_refs := sim_refs h - 1\<rparr>)),
      xe_pq_qlength = (\<lambda>h. length (sim_queue h)),
      xe_pq_dequeue = (\<lambda>h. case sim_queue h of [] \<Rightarrow> (None, h)
         | p # ps \<Rightarrow> if p < n then (Some p, h\<lparr>sim_queue := ps, sim_refs := sim_refs h + 1\<rparr>) else (None, h)),
      xe_stop = (\<lambda>h. h), xe_start = (\<lambda>h. h), xe_set_options = (\<lambda>v h. (0, h)), xe_clear_options = (\<lambda>v h. (0, h)),
      xe_set_hash = (\<lambda>m h. h), xe_delete_hash = (\<lambda>m h. h), xe_wait_tx_idle = Some,
      xe_cfg_initialize = (\<lambda>a h. (True, h)), xe_init_emacps = (\<lambda>h. h), xe_init_emacps_on_error = (\<lambda>h. h),
      xe_setup_isr = (\<lambda>h. h), xe_start_emacps = (\<lambda>h. h), xe_set_tlb = (\<lambda>a h. h), xe_gic_register = (\<lambda>v h. h),
      xe_gic_enable = (\<lambda>v h. h), xe_gic_disable = (\<lambda>v h. h)\<rparr>"

definition sim_drop :: "nat \<Rightarrow> sim \<Rightarrow> sim" where
  "sim_drop p h = h\<lparr>sim_refs := sim_refs h - 1\<rparr>"

definition sim_link :: "sim link_stack" where
  "sim_link =
     \<lparr>ls_has_index = (\<lambda>p h. False), ls_set_index = (\<lambda>p h. h), ls_mark_multicast = (\<lambda>p h. h),
      ls_mark_broadcast = (\<lambda>p h. h), ls_netif_etharp = (\<lambda>h. True), ls_remove_header = (\<lambda>p n h. (False, h)),
      ls_add_header = (\<lambda>p n h. (False, h)), ls_write = (\<lambda>p i bs h. h),
      ls_ip4_input = (\<lambda>p h. (None, sim_drop p h)), ls_ip6_input = (\<lambda>p h. (None, sim_drop p h)),
      ls_etharp_input = sim_drop, ls_pppoe_disc = sim_drop, ls_pppoe_data = sim_drop\<rparr>"

definition sim_eth :: eth_config where
  "sim_eth = \<lparr>ec_arp = True, ec_ipv4 = True, ec_ipv6 = False, ec_vlan = False, ec_pppoe = False, ec_vlan_check = None\<rparr>"

definition demo_frame :: ptp_msg where
  "demo_frame = \<lparr>msg_addr = 1, msg_bytes = gptp_eth_header @ (0x10 # replicate 43 0)\<rparr>"

lemma sim_link_account: "link_account sim_link (sim_lwip rx) (sim_emac n) sim_refs sim_pcbs"
  by (auto simp: link_account_def sim_link_def sim_emac_def sim_lwip_def sim_drop_def split: list.split)

lemma sim_full_traffic: "full_traffic sim_link (sim_lwip [demo_frame]) (sim_emac 1)"
  by (auto simp: full_traffic_def sim_link_def sim_emac_def sim_lwip_def demo_frame_def gptp_eth_header_def
      split: list.splits if_splits)

theorem gptp_poll_safe_witness:
  "\<exists>nd. poll_run sim_eth sim_link (sim_lwip [demo_frame]) (sim_emac 1) 3
      (gptp_init sim_bsp (sim_lwip [demo_frame]) (sim_emac 1) esim_cfg 4 esim_em (init_param sim_bsp)
        (node_boot (sim0\<lparr>sim_queue := [0]\<rparr>))) = Inr nd \<and>
    service_inv (nd_world nd) \<and> sim_refs (hw (nd_world nd)) = 0"
proof -
  let ?nd0 = "gptp_init sim_bsp (sim_lwip [demo_frame]) (sim_emac 1) esim_cfg 4 esim_em (init_param sim_bsp)
        (node_boot (sim0\<lparr>sim_queue := [0]\<rparr>))"
  have "sim_refs (hw (nd_world ?nd0)) = 0"
    by (simp add: gptp_init_def init_gptp_task_def set_gptp_param_def ptp_start_sync_def lw_def Let_def init_tsu_def
        write_reg_def read_reg_def split_beta sim_bsp_def sim_lwip_def sim_emac_def enable_mac_multicast_def
        reset_dma_def gigeversion_def node_boot_def ptp_boot_def timesync.defs timesync_boot_def tsu.defs
        tsu_boot_def sim0_def)
  then show ?thesis
    using gptp_poll_safe [OF sim_net_pool sim_link_account sim_full_traffic refl,
        of sim_eth 3 esim_cfg 4 esim_em "sim0\<lparr>sim_queue := [0]\<rparr>"] by auto
qed

text \<open>
  A gPTP message behind a VLAN tag reaches the hook, whose own look at the type finds the tag, not the
  message: the frame is dropped without being interpreted.
\<close>

lemma vlan_message_dropped:
  assumes "ec_vlan c" and "ec_vlan_check c = None" and "18 < length (frame_of l p nd)"
    and "frame_type (frame_of l p nd) = ETHTYPE_VLAN" and "be16_at 16 (frame_of l p nd) = ETHTYPE_PTP"
    and "\<And>f h. f \<in> {ls_set_index ls p, ls_mark_multicast ls p, ls_mark_broadcast ls p} \<Longrightarrow>
      lw_pbuf_msg l p (f h) = lw_pbuf_msg l p h"
  shows "\<exists>nd'. ethernet_input c ls l p nd = Inr (ERR_OK, nd') \<and> nd_sync nd' = nd_sync nd"
proof -
  have frame: "frame_of l p (on_hw f nd1) = frame_of l p nd1"
    if "f \<in> {ls_set_index ls p, ls_mark_multicast ls p, ls_mark_broadcast ls p}" for f nd1
    using assms(6) [OF that] by (simp add: frame_of_def on_hw_def lw_def)
  have sw: "\<exists>nd'. eth_switch c ls l ETHTYPE_PTP 18 p nd1 = Inr (ERR_OK, nd') \<and> nd_sync nd' = nd_sync nd1"
    if "frame_of l p nd1 = frame_of l p nd" for nd1
    using that assms(3,4)
    by (simp add: eth_switch_def gptp_protocol_hook_def Let_def ethtype_defs SIZEOF_ETH_HDR_def on_hw_def)
  have tag: "eth_tag c (frame_of l p nd) = Some (ETHTYPE_PTP, 18)"
    using assms(1-5) by (simp add: eth_tag_def SIZEOF_ETH_HDR_def SIZEOF_VLAN_HDR_def)
  have keep: "frame_of l p (on_hw f nd1) = frame_of l p nd1 \<and> nd_sync (on_hw f nd1) = nd_sync nd1"
    if "f \<in> {ls_set_index ls p, ls_mark_multicast ls p, ls_mark_broadcast ls p}" for f nd1
    using frame [OF that] by (simp add: on_hw_def)
  define nd1 where "nd1 = (if ls_has_index ls p (hw (nd_world nd)) then nd else on_hw (ls_set_index ls p) nd)"
  define nd2 where "nd2 = (case ll_mark c (frame_of l p nd) of None \<Rightarrow> nd1
    | Some True \<Rightarrow> on_hw (ls_mark_broadcast ls p) nd1 | Some False \<Rightarrow> on_hw (ls_mark_multicast ls p) nd1)"
  have k1: "frame_of l p nd1 = frame_of l p nd \<and> nd_sync nd1 = nd_sync nd" using keep by (simp add: nd1_def)
  have "frame_of l p nd2 = frame_of l p nd \<and> nd_sync nd2 = nd_sync nd"
  proof (cases "ll_mark c (frame_of l p nd)")
    case (Some m)
    then show ?thesis using k1 keep by (cases m) (simp_all add: nd2_def)
  qed (use k1 in \<open>simp add: nd2_def\<close>)
  moreover have "ethernet_input c ls l p nd = eth_switch c ls l ETHTYPE_PTP 18 p nd2"
    using assms(3) unfolding nd2_def nd1_def
    by (cases "ls_has_index ls p (hw (nd_world nd))") (simp_all add: ethernet_input_def Let_def tag SIZEOF_ETH_HDR_def)
  ultimately show ?thesis using sw [of nd2] by simp
qed

end
