(* ===== verification/System.thy ===== *)
theory System
  imports EthInput
begin

text \<open>
  The start of the service, \<open>start_timesync\<close> and \<open>timesync_init\<close> of \<open>IEEE1588/timesync.c\<close>, and the whole
  program as a transition system: start-up with any clock type, messages received over UDP and over
  Ethernet, and housekeeping, in any order.
\<close>

section \<open>Starting the service\<close>

text \<open>The static parameter block next to the node; the node's pointer, once set, points to it.\<close>

record 'h system =
  sy_param :: "'h ptp timesync_init_param"
  sy_node :: "'h ptp_node"

definition system_boot :: "'h bsp \<Rightarrow> 'h \<Rightarrow> 'h system" where
  "system_boot b h = \<lparr>sy_param = init_param b, sy_node = node_boot h\<rparr>"

definition start_timesync ::
  "'h bsp \<Rightarrow> 'h lwip \<Rightarrow> 'h xemacps \<Rightarrow> emac_config \<Rightarrow> rat \<Rightarrow> emac \<Rightarrow> 'h system \<Rightarrow> 'h system" where
  "start_timesync b l x cfg q em s =
     (let nd1 = (case clock_source (nd_world (sy_node s)) of
                   CLOCK_TYPE_PTP \<Rightarrow> ptp_init b l q (sy_param s) (sy_node s)
                 | CLOCK_TYPE_GPTP \<Rightarrow> gptp_init b l x cfg q em (sy_param s) (sy_node s)
                 | CLOCK_TYPE_NONE \<Rightarrow> sy_node s
                 | CLOCK_TYPE_GENERAL_NMEA_GPS \<Rightarrow> sy_node s);
          ip = (sy_param s)\<lparr>ip_cleanup_function := Some ptp_cleanup\<rparr>
      in \<lparr>sy_param = ip, sy_node = nd1\<lparr>nd_params := map_option (\<lambda>_. ip) (nd_params nd1)\<rparr>\<rparr>)"

definition node_world :: "('h ptp \<Rightarrow> 'h ptp) \<Rightarrow> 'h system \<Rightarrow> 'h system" where
  "node_world f s = s\<lparr>sy_node := (sy_node s)\<lparr>nd_world := f (nd_world (sy_node s))\<rparr>\<rparr>"

definition timesync_init ::
  "'h bsp \<Rightarrow> 'h lwip \<Rightarrow> 'h xemacps \<Rightarrow> emac_config \<Rightarrow> rat \<Rightarrow> emac \<Rightarrow> clock_type \<Rightarrow> 'h system \<Rightarrow>
   fault + 'h system" where
  "timesync_init b l x cfg q em ty s =
     (if isInitialized (nd_world (sy_node s)) then Inl Assert_failed
      else
        (let s1 = node_world (\<lambda>w. w\<lparr>clock_source := ty\<rparr>) s;
             s2 = start_timesync b l x cfg q em s1
         in Inr (node_world (\<lambda>w. w\<lparr>isInitialized := True\<rparr>) s2)))"

section \<open>The program as a transition system\<close>

datatype sys_event = Init_event clock_type | Udp_event nat | Eth_event nat | Idle_event

fun sys_do ::
  "'h bsp \<Rightarrow> 'h lwip \<Rightarrow> 'h xemacps \<Rightarrow> emac_config \<Rightarrow> rat \<Rightarrow> emac \<Rightarrow> sys_event \<Rightarrow> 'h system \<Rightarrow> fault + 'h system" where
  "sys_do b l x cfg q em (Init_event ty) s = timesync_init b l x cfg q em ty s"
| "sys_do b l x cfg q em (Udp_event p) s =
     bind_sum (ptp_msg_interpreter l p (sy_node s)) (\<lambda>nd. Inr (s\<lparr>sy_node := nd\<rparr>))"
| "sys_do b l x cfg q em (Eth_event p) s =
     bind_sum (gptp_protocol_hook l p (sy_node s)) (\<lambda>(e, nd). Inr (s\<lparr>sy_node := nd\<rparr>))"
| "sys_do b l x cfg q em Idle_event s =
     bind_sum (handle_ptp (sy_node s)) (\<lambda>nd. Inr (s\<lparr>sy_node := nd\<rparr>))"

text \<open>The bytes an event brings are at least those of a message with its time stamp.\<close>

fun complete_event :: "'h lwip \<Rightarrow> sys_event \<Rightarrow> 'h system \<Rightarrow> bool" where
  "complete_event l (Udp_event p) s = (44 \<le> length (frame_of l p (sy_node s)))"
| "complete_event l (Eth_event p) s = (58 \<le> length (frame_of l p (sy_node s)))"
| "complete_event l (Init_event ty) s = True"
| "complete_event l Idle_event s = True"

inductive sys_reach ::
  "'h bsp \<Rightarrow> 'h lwip \<Rightarrow> 'h xemacps \<Rightarrow> emac_config \<Rightarrow> rat \<Rightarrow> emac \<Rightarrow> 'h system \<Rightarrow> bool"
  for b :: "'h bsp" and l x cfg q em where
  boot: "sys_reach b l x cfg q em (system_boot b h)"
| step: "sys_reach b l x cfg q em s \<Longrightarrow> complete_event l e s \<Longrightarrow> sys_do b l x cfg q em e s = Inr s' \<Longrightarrow>
    sys_reach b l x cfg q em s'"

section \<open>The invariant of the program\<close>

definition world_inv :: "'h bsp \<Rightarrow> 'h lwip \<Rightarrow> bool \<Rightarrow> clock_type \<Rightarrow> 'h ptp \<Rightarrow> bool" where
  "world_inv b l i c w \<longleftrightarrow>
     node_inv b l (\<lambda>_. 0) (\<lambda>_. 0) 0 0 w \<and> isInitialized w = i \<and> clock_source w = c"

lemma coarse_flags:
  "isInitialized (coarse_time_received b s ns w) = isInitialized w"
  "clock_source (coarse_time_received b s ns w) = clock_source w"
  by (cases "status w"; simp add: coarse_time_received_def coarse_set_due_def Let_def split_beta)+

lemma handler_flags:
  "isInitialized (fine_time_received b s ns w) = isInitialized w"
  "clock_source (fine_time_received b s ns w) = clock_source w"
  "isInitialized (update_error e a w) = isInitialized w"
  "clock_source (update_error e a w) = clock_source w"
  "isInitialized (housekeeping w) = isInitialized w"
  "clock_source (housekeeping w) = clock_source w"
  by (simp_all add: fine_time_received_def update_error_def housekeeping_def log_state_def Let_def)

lemma world_inv_hw: "world_inv b l i c w \<Longrightarrow> world_inv b l i c (w\<lparr>hw := h\<rparr>)"
  using node_inv_hw [of b l "\<lambda>_. 0" "\<lambda>_. 0" 0 0 w h 0 0] by (simp add: world_inv_def)

lemma world_service: "time_service b (init_param b) (world_inv b l i c)"
proof
  fix w :: "'a ptp" and e i' bd x s ns a
  assume w: "world_inv b l i c w"
  then have n: "node_inv b l (\<lambda>_. 0) (\<lambda>_. 0) 0 0 w" by (simp add: world_inv_def)
  note h = node_inv_handlers [OF n]
  show "world_inv b l i c (tsu_systick_cb b w)" using w h(1) by (simp add: world_inv_def)
  show "world_inv b l i c (tsu_clock_fine_tune e i' bd w)"
    using w node_inv_tune [OF n] by (simp add: world_inv_def)
  show "world_inv b l i c (snd (tsu_get_time b w))" using w node_inv_read [OF n] by (simp add: world_inv_def)
  show "world_inv b l i c (w\<lparr>ptp_integrated_ns := x\<rparr>)" using w node_inv_own [OF n] by (simp add: world_inv_def)
  show "world_inv b l i c (f s ns w)" if "ip_coarse_time_received (init_param b) = Some f" for f
    using that w h(2) by (auto simp: init_param_def world_inv_def coarse_flags)
  show "world_inv b l i c (g 0 0 w)" if "ip_fine_time_received (init_param b) = Some g" for g
    using that w h(3) by (auto simp: init_param_def world_inv_def handler_flags)
  show "world_inv b l i c (r e a w)" if "ip_error_report (init_param b) = Some r" for r
    using that w h(4) by (auto simp: init_param_def world_inv_def handler_flags)
  show "world_inv b l i c (k w)" if "ip_housekeeping (init_param b) = Some k" for k
    using that w h(5) by (auto simp: init_param_def world_inv_def handler_flags)
qed

interpretation udp_world: udp_time_source b "init_param b" "world_inv b l i c" l
  for b :: "'h bsp" and l i c
proof (intro udp_time_source.intro udp_time_source_axioms.intro)
  show "time_service b (init_param b) (world_inv b l i c)" by (rule world_service)
  show "world_inv b l i c w'" if "world_inv b l i c w" "ptp_send_delay_request l bs w = Inr w'" for w bs w'
    using send_hw [OF that(2), of b "\<lambda>_. 0" "\<lambda>_. 0"] world_inv_hw [OF that(1)] by auto
qed

interpretation raw_world: raw_time_source b "init_param b" "world_inv b l i c" l
  for b :: "'h bsp" and l i c
proof (intro raw_time_source.intro raw_time_source_axioms.intro)
  show "time_service b (init_param b) (world_inv b l i c)" by (rule world_service)
  show "world_inv b l i c w'" if "world_inv b l i c w" "gptp_send_delay_request l bs w = Inr w'" for w bs w'
    using gptp_send_hw [OF that(2), of b "\<lambda>_. 0" "\<lambda>_. 0"] world_inv_hw [OF that(1)] by auto
qed


definition udp_cbs :: "'h bsp \<Rightarrow> 'h lwip \<Rightarrow> 'h ptp ptp_sync_cbs" where
  "udp_cbs b l = \<lparr>sSyscTimeCb = Some (get_systime b), sReportDiffCb = Some (ptp_process_time_diff b (Some (init_param b))),
     sSendDlyReqCb = Some (ptp_send_delay_request l)\<rparr>"

text \<open>
  The call-backs belong to the clock type the service was started with; before the start, and for a
  clock type that starts nothing, there are none and the clock was never synchronised.
\<close>

definition source_cbs :: "'h bsp \<Rightarrow> 'h lwip \<Rightarrow> 'h ptp \<Rightarrow> 'h ptp ptp_sync_cbs" where
  "source_cbs b l w =
     (if isInitialized w \<and> clock_source w = CLOCK_TYPE_PTP then udp_cbs b l
      else if isInitialized w \<and> clock_source w = CLOCK_TYPE_GPTP then gptp_cbs b l
      else no_cbs)"

definition started :: "'h ptp \<Rightarrow> bool" where
  "started w \<longleftrightarrow> isInitialized w \<and> clock_source w \<in> {CLOCK_TYPE_PTP, CLOCK_TYPE_GPTP}"

definition sys_inv :: "'h bsp \<Rightarrow> 'h lwip \<Rightarrow> 'h system \<Rightarrow> bool" where
  "sys_inv b l s \<longleftrightarrow>
     (let nd = sy_node s; w = nd_world nd
      in world_inv b l (isInitialized w) (clock_source w) w \<and> dr_clean (delay_req_msg (nd_sync nd)) \<and>
         nd_cbs nd = source_cbs b l w \<and>
         nd_params nd = (if started w then Some (sy_param s) else None) \<and>
         (\<not> started w \<longrightarrow> status w = TS_NEVER) \<and>
         sy_param s = (if isInitialized w then (init_param b)\<lparr>ip_cleanup_function := Some ptp_cleanup\<rparr> else init_param b))"

text \<open>One message for the interpreter, whatever the call-backs.\<close>

lemma interpreter_no_cbs:
  assumes "ptp_sync_interpreter no_cbs m s w = Inr (r, s', w')"
  shows "w' = w \<and> delay_req_msg s' = delay_req_msg s"
  using assms
  by (auto simp: ptp_sync_interpreter_def no_cbs_def ptp_sync_read_systime_def ptp_sync_send_delay_req_event_def
      ptp_sycn_report_diff_def bind_sum_Inr_iff Let_def split: if_splits)

lemma interpreter_keeps:
  assumes run: "ptp_sync_interpreter (nd_cbs nd) m (nd_sync nd) (nd_world nd) = Inr (r, t', w')"
    and len: "44 \<le> length (msg_bytes m)"
    and cbs: "nd_cbs nd = source_cbs b l (nd_world nd)"
    and inv: "world_inv b l (isInitialized (nd_world nd)) (clock_source (nd_world nd)) (nd_world nd)"
      "dr_clean (delay_req_msg (nd_sync nd))"
  shows "world_inv b l (isInitialized (nd_world nd)) (clock_source (nd_world nd)) w' \<and> dr_clean (delay_req_msg t') \<and>
    (nd_cbs nd = no_cbs \<longrightarrow> w' = nd_world nd)"
proof -
  consider "nd_cbs nd = udp_cbs b l" | "nd_cbs nd = gptp_cbs b l" | "nd_cbs nd = no_cbs"
    using cbs unfolding source_cbs_def by metis
  then show ?thesis
  proof cases
    case 1
    then have "nd_cbs nd \<noteq> no_cbs" by (simp add: udp_cbs_def no_cbs_def)
    then show ?thesis
      using run udp_world.callbacks.interpreter_step [of "nd_cbs nd" b l _ _ "nd_world nd" "nd_sync nd" m, OF _ _ _ inv len] 1
      by (auto simp: udp_cbs_def)
  next
    case 2
    then have "nd_cbs nd \<noteq> no_cbs" by (simp add: gptp_cbs_def no_cbs_def)
    then show ?thesis
      using run raw_world.callbacks.interpreter_step [of "nd_cbs nd" b l _ _ "nd_world nd" "nd_sync nd" m, OF _ _ _ inv len] 2
      by (auto simp: gptp_cbs_def)
  next
    case 3
    then show ?thesis using run interpreter_no_cbs [of m "nd_sync nd" "nd_world nd"] inv by auto
  qed
qed


lemma sys_inv_node:
  assumes inv: "sys_inv b l s" and same: "nd_cbs nd' = nd_cbs (sy_node s)" "nd_params nd' = nd_params (sy_node s)"
    and w: "world_inv b l (isInitialized (nd_world (sy_node s))) (clock_source (nd_world (sy_node s))) (nd_world nd')"
    and d: "dr_clean (delay_req_msg (nd_sync nd'))"
    and st: "nd_cbs (sy_node s) = no_cbs \<Longrightarrow> status (nd_world nd') = status (nd_world (sy_node s))"
  shows "sys_inv b l (s\<lparr>sy_node := nd'\<rparr>)"
proof -
  have f: "isInitialized (nd_world nd') = isInitialized (nd_world (sy_node s))"
    "clock_source (nd_world nd') = clock_source (nd_world (sy_node s))"
    using w by (simp_all add: world_inv_def)
  have "nd_cbs (sy_node s) = no_cbs" if "\<not> started (nd_world (sy_node s))"
    using that inv by (auto simp: sys_inv_def Let_def source_cbs_def started_def)
  then show ?thesis
    using inv same w d st f by (simp add: sys_inv_def Let_def source_cbs_def started_def)
qed

lemma sys_inv_udp:
  assumes "sys_inv b l s" and "44 \<le> length (frame_of l p (sy_node s))"
    and "ptp_msg_interpreter l p (sy_node s) = Inr nd"
  shows "sys_inv b l (s\<lparr>sy_node := nd\<rparr>)"
proof -
  let ?nd = "sy_node s"
  obtain r t w where run: "ptp_sync_interpreter (nd_cbs ?nd) (lw_pbuf_msg l p (hw (nd_world ?nd))) (nd_sync ?nd)
      (nd_world ?nd) = Inr (r, t, w)" and nd: "nd = ?nd\<lparr>nd_sync := t, nd_world := lw (lw_pbuf_free l p) w\<rparr>"
    using assms(3) by (auto simp: ptp_msg_interpreter_def bind_sum_Inr_iff)
  have k: "world_inv b l (isInitialized (nd_world ?nd)) (clock_source (nd_world ?nd)) w \<and> dr_clean (delay_req_msg t) \<and>
      (nd_cbs ?nd = no_cbs \<longrightarrow> w = nd_world ?nd)"
    using interpreter_keeps [OF run assms(2) [unfolded frame_of_def], of b l] assms(1)
    by (simp add: sys_inv_def Let_def)
  show ?thesis
    by (rule sys_inv_node [OF assms(1)]) (use k nd in \<open>auto simp: world_inv_hw lw_def\<close>)
qed

lemma sys_inv_eth:
  assumes "sys_inv b l s" and "58 \<le> length (frame_of l p (sy_node s))"
    and "gptp_protocol_hook l p (sy_node s) = Inr (e, nd)"
  shows "sys_inv b l (s\<lparr>sy_node := nd\<rparr>)"
proof -
  let ?nd = "sy_node s"
  let ?m = "lw_pbuf_msg l p (hw (nd_world ?nd))"
  let ?d = "\<lparr>msg_addr = msg_addr ?m + ETHERNET_HEADER_LEN, msg_bytes = drop ETHERNET_HEADER_LEN (msg_bytes ?m)\<rparr>"
  have len: "44 \<le> length (msg_bytes ?d)" using assms(2) by (simp add: frame_of_def ETHERNET_HEADER_LEN_def)
  have inv: "world_inv b l (isInitialized (nd_world ?nd)) (clock_source (nd_world ?nd)) (nd_world ?nd)"
    "dr_clean (delay_req_msg (nd_sync ?nd))" "nd_cbs ?nd = source_cbs b l (nd_world ?nd)"
    using assms(1) by (simp_all add: sys_inv_def Let_def)
  obtain nd1 where nd: "nd = on_hw (lw_pbuf_free l p) nd1"
    and nd1: "nd1 = ?nd \<or> ptp_sync l p ?nd = Inr nd1"
    using assms(3) by (auto simp: gptp_protocol_hook_def Let_def bind_sum_Inr_iff split: if_splits)
  have "nd_cbs nd1 = nd_cbs ?nd \<and> nd_params nd1 = nd_params ?nd \<and>
      world_inv b l (isInitialized (nd_world ?nd)) (clock_source (nd_world ?nd)) (nd_world nd1) \<and>
      dr_clean (delay_req_msg (nd_sync nd1)) \<and> (nd_cbs ?nd = no_cbs \<longrightarrow> nd_world nd1 = nd_world ?nd)"
    using nd1
  proof
    assume "ptp_sync l p ?nd = Inr nd1"
    then obtain r t w where "ptp_sync_interpreter (nd_cbs ?nd) ?d (nd_sync ?nd) (nd_world ?nd) = Inr (r, t, w)"
      and "nd1 = ?nd\<lparr>nd_sync := t, nd_world := w\<rparr>"
      by (auto simp: ptp_sync_def Let_def bind_sum_Inr_iff)
    then show ?thesis using interpreter_keeps [OF _ len inv(3,1,2)] by auto
  qed (use inv in simp)
  then show ?thesis
    by (intro sys_inv_node [OF assms(1)]) (auto simp: nd on_hw_def world_inv_hw lw_def)
qed

lemma sys_inv_idle:
  assumes "sys_inv b l s" and "handle_ptp (sy_node s) = Inr nd"
  shows "sys_inv b l (s\<lparr>sy_node := nd\<rparr>)"
proof -
  let ?w = "nd_world (sy_node s)"
  have i: "world_inv b l (isInitialized ?w) (clock_source ?w) ?w" "dr_clean (delay_req_msg (nd_sync (sy_node s)))"
    using assms(1) by (simp_all add: sys_inv_def Let_def)
  have st: "started ?w" using assms by (auto simp: sys_inv_def Let_def handle_ptp_def split: if_splits)
  then have "ip_housekeeping (sy_param s) = Some housekeeping" "nd_params (sy_node s) = Some (sy_param s)"
    "nd_cbs (sy_node s) \<noteq> no_cbs"
    using assms(1) by (auto simp: sys_inv_def Let_def init_param_def started_def source_cbs_def udp_cbs_def
        gptp_cbs_def no_cbs_def)
  moreover have "world_inv b l (isInitialized ?w) (clock_source ?w) (housekeeping ?w)"
    using i(1) node_inv_handlers(5) [of b l "\<lambda>_. 0" "\<lambda>_. 0" 0 0 ?w] by (simp add: world_inv_def handler_flags)
  ultimately show ?thesis
    using assms i by (intro sys_inv_node) (auto simp: handle_ptp_def)
qed


text \<open>The fields that start-up writes are not those the state machine's invariant looks at.\<close>

lemma world_inv_start:
  assumes "world_inv b l i c w"
  shows "world_inv b l True ty (w\<lparr>clock_source := ty, isInitialized := True\<rparr>)"
    "world_inv b l True ty (w\<lparr>clock_source := ty, hw := h, udp_bound := u, group_addr := g, isInitialized := True\<rparr>)"
    "world_inv b l True ty (w\<lparr>clock_source := ty, hw := h, group_addr := g, isInitialized := True\<rparr>)"
  using assms by (cases "status w"; simp add: world_inv_def node_inv_def service_inv_def counter_ok_def)+

lemma started_world:
  assumes "world_inv b l i c w"
  shows "\<exists>w'. nd_world (ptp_init b l q ip (nd\<lparr>nd_world := w\<lparr>clock_source := ty\<rparr>\<rparr>)) = w' \<and>
      world_inv b l True ty (w'\<lparr>isInitialized := True\<rparr>) \<and> status w' = status w"
    "\<exists>w'. nd_world (gptp_init b l x cfg q em ip (nd\<lparr>nd_world := w\<lparr>clock_source := ty\<rparr>\<rparr>)) = w' \<and>
      world_inv b l True ty (w'\<lparr>isInitialized := True\<rparr>) \<and> status w' = status w"
proof -
  obtain h where "nd_world (ptp_init b l q ip (nd\<lparr>nd_world := w\<lparr>clock_source := ty\<rparr>\<rparr>)) =
      w\<lparr>clock_source := ty, hw := h, udp_bound := True, group_addr := PTP_MULTICAST_IPV4_ADDR32\<rparr>"
    using ptp_init_world [of b l q ip "nd\<lparr>nd_world := w\<lparr>clock_source := ty\<rparr>\<rparr>" "\<lambda>_. 0" "\<lambda>_. 0"] by auto
  then show "\<exists>w'. nd_world (ptp_init b l q ip (nd\<lparr>nd_world := w\<lparr>clock_source := ty\<rparr>\<rparr>)) = w' \<and>
      world_inv b l True ty (w'\<lparr>isInitialized := True\<rparr>) \<and> status w' = status w"
    using world_inv_start(2) [OF assms] by simp
next
  obtain h where "nd_world (gptp_init b l x cfg q em ip (nd\<lparr>nd_world := w\<lparr>clock_source := ty\<rparr>\<rparr>)) =
      w\<lparr>clock_source := ty, hw := h, group_addr := PTP_MULTICAST_IPV4_ADDR32\<rparr>"
    using gptp_init_world [of b l x cfg q em ip "nd\<lparr>nd_world := w\<lparr>clock_source := ty\<rparr>\<rparr>"] by auto
  then show "\<exists>w'. nd_world (gptp_init b l x cfg q em ip (nd\<lparr>nd_world := w\<lparr>clock_source := ty\<rparr>\<rparr>)) = w' \<and>
      world_inv b l True ty (w'\<lparr>isInitialized := True\<rparr>) \<and> status w' = status w"
    using world_inv_start(3) [OF assms] by simp
qed

lemma sys_inv_init:
  assumes inv: "sys_inv b l s" and run: "timesync_init b l x cfg q em ty s = Inr s'"
  shows "sys_inv b l s'"
proof -
  let ?nd = "sy_node s"
  let ?w = "nd_world ?nd"
  let ?ip = "(init_param b)\<lparr>ip_cleanup_function := Some ptp_cleanup\<rparr>"
  have i: "\<not> isInitialized ?w" using run by (auto simp: timesync_init_def split: if_splits)
  then have n: "world_inv b l False (clock_source ?w) ?w" "dr_clean (delay_req_msg (nd_sync ?nd))"
    "nd_cbs ?nd = no_cbs" "nd_params ?nd = None" "status ?w = TS_NEVER" "sy_param s = init_param b"
    using inv by (simp_all add: sys_inv_def Let_def source_cbs_def started_def)
  note ini = timesync_init_def start_timesync_def node_world_def Let_def
  note chk = sys_inv_def Let_def source_cbs_def started_def
  show ?thesis
  proof (cases ty)
    case CLOCK_TYPE_PTP
    with run i n(6) have s': "s' = \<lparr>sy_param = ?ip, sy_node =
        (let nd = ptp_init b l q (init_param b) (?nd\<lparr>nd_world := ?w\<lparr>clock_source := ty\<rparr>\<rparr>)
         in nd\<lparr>nd_params := Some ?ip, nd_world := (nd_world nd)\<lparr>isInitialized := True\<rparr>\<rparr>)\<rparr>"
      by (simp add: ini init_task_effects)
    show ?thesis using CLOCK_TYPE_PTP n started_world(1) [OF n(1), where q = q and ip = "init_param b" and nd = ?nd and ty = ty] unfolding s'
      by (simp add: chk init_task_effects udp_cbs_def) (simp add: world_inv_def)
  next
    case CLOCK_TYPE_GPTP
    with run i n(6) have s': "s' = \<lparr>sy_param = ?ip, sy_node =
        (let nd = gptp_init b l x cfg q em (init_param b) (?nd\<lparr>nd_world := ?w\<lparr>clock_source := ty\<rparr>\<rparr>)
         in nd\<lparr>nd_params := Some ?ip, nd_world := (nd_world nd)\<lparr>isInitialized := True\<rparr>\<rparr>)\<rparr>"
      by (simp add: ini gptp_init_effects)
    show ?thesis using CLOCK_TYPE_GPTP n started_world(2) [OF n(1), where x = x and cfg = cfg and q = q and em = em and ip = "init_param b" and nd = ?nd and ty = ty] unfolding s'
      by (simp add: chk gptp_init_effects gptp_cbs_def) (simp add: world_inv_def)
  next
    case CLOCK_TYPE_NONE
    with run i n show ?thesis using world_inv_start(1) [OF n(1), of ty] by (auto simp: ini chk)
  next
    case CLOCK_TYPE_GENERAL_NMEA_GPS
    with run i n show ?thesis using world_inv_start(1) [OF n(1), of ty] by (auto simp: ini chk)
  qed
qed


lemma sys_inv_step:
  assumes "sys_inv b l s" and "complete_event l e s" and "sys_do b l x cfg q em e s = Inr s'"
  shows "sys_inv b l s'"
  using assms
  by (cases e) (auto simp: bind_sum_Inr_iff intro: sys_inv_init sys_inv_udp sys_inv_eth sys_inv_idle)

lemma sys_inv_boot: "sys_inv b l (system_boot b h)"
  by (simp add: sys_inv_def Let_def system_boot_def node_boot_def source_cbs_def started_def world_inv_def node_inv_def
      service_inv_def counter_ok_def ptp_boot_def timesync.defs timesync_boot_def tsu.defs tsu_boot_def
      RESYNC_COARSE_TIME_def adj_reserved_def ptp_sync_boot_def)

lemma sys_reach_inv: "sys_reach b l x cfg q em s \<Longrightarrow> sys_inv b l s"
proof (induction rule: sys_reach.induct)
  case (boot h)
  show ?case by (rule sys_inv_boot)
next
  case (step s e s')
  then show ?case by (blast intro: sys_inv_step)
qed

text \<open>
  C4: in every state the program can reach by start-up calls, complete messages over UDP or
  Ethernet and housekeeping, in any order, the state machine's invariant holds; the interpreter has
  the call-backs of the clock type the service was started with, and none before the start or for the
  satellite clock type, which starts nothing; the clock counts as synchronised only once a PTP or gPTP service was
  started; and after the start the clean-up function is installed and every further start trips the
  assertion.
\<close>
theorem system_reachable_invariant:
  assumes "sys_reach b l x cfg q em s"
  defines "w \<equiv> nd_world (sy_node s)"
  shows "service_inv w \<and> counter_ok w \<and> nd_cbs (sy_node s) = source_cbs b l w \<and>
    (status w \<noteq> TS_NEVER \<longrightarrow> isInitialized w \<and> clock_source w \<in> {CLOCK_TYPE_PTP, CLOCK_TYPE_GPTP}) \<and>
    (isInitialized w \<longrightarrow> ip_cleanup_function (sy_param s) = Some ptp_cleanup \<and>
       (\<forall>ty. timesync_init b l x cfg q em ty s = Inl Assert_failed))"
  using sys_reach_inv [OF assms(1)]
  by (auto simp: sys_inv_def Let_def w_def world_inv_def node_inv_def started_def timesync_init_def)

theorem system_reachable_invariant_witness:
  "\<exists>s. timesync_init sim_bsp (sim_lwip []) (sim_emac 0) esim_cfg 4 esim_em CLOCK_TYPE_GPTP (system_boot sim_bsp sim0) = Inr s \<and>
     nd_cbs (sy_node s) = gptp_cbs sim_bsp (sim_lwip []) \<and>
     timesync_init sim_bsp (sim_lwip []) (sim_emac 0) esim_cfg 4 esim_em CLOCK_TYPE_PTP s = Inl Assert_failed"
proof -
  let ?i = "\<lambda>ty. timesync_init sim_bsp (sim_lwip []) (sim_emac 0) esim_cfg 4 esim_em ty"
  have "\<not> isInitialized (nd_world (sy_node (system_boot sim_bsp sim0)))"
    by (simp add: system_boot_def node_boot_def ptp_boot_def timesync.defs timesync_boot_def tsu.defs)
  then obtain s where s: "?i CLOCK_TYPE_GPTP (system_boot sim_bsp sim0) = Inr s"
    and f: "isInitialized (nd_world (sy_node s))"
    by (auto simp: timesync_init_def Let_def node_world_def)
  have "clock_source (nd_world (sy_node s)) = CLOCK_TYPE_GPTP"
    using s gptp_init_world [of sim_bsp "sim_lwip []" "sim_emac 0" esim_cfg 4 esim_em "init_param sim_bsp"
        "(node_boot sim0)\<lparr>nd_world := (nd_world (node_boot sim0))\<lparr>clock_source := CLOCK_TYPE_GPTP\<rparr>\<rparr>"]
    by (auto simp: timesync_init_def start_timesync_def Let_def node_world_def system_boot_def split: if_splits)
  moreover have "sys_reach sim_bsp (sim_lwip []) (sim_emac 0) esim_cfg 4 esim_em s"
    by (rule sys_reach.step [OF sys_reach.boot [of _ _ _ _ _ _ sim0], of _ "Init_event CLOCK_TYPE_GPTP"]) (simp_all add: s)
  ultimately show ?thesis
    using s f system_reachable_invariant [of sim_bsp "sim_lwip []" "sim_emac 0" esim_cfg 4 esim_em s]
    by (simp add: source_cbs_def)
qed

end
