(* ===== verification/EmacSetup.thy ===== *)
theory EmacSetup
  imports EmacIf
begin

text \<open>
  Setting up and recovering: the descriptor space that every initialisation of the DMA takes, the
  buffers that error recovery releases, and the entries of the multicast filters.
\<close>

section \<open>Descriptor space\<close>

text \<open>The part of the interface state that says where the rings lie.\<close>

definition ring_places :: "emac \<Rightarrow> u32 \<times> u64 \<times> u64 \<times> u64" where
  "ring_places em = (bd_space_index em, rx_bdspace em, tx_bdspace em, em_base em)"

lemma init_rx_loop_places: "init_rx_loop x cfg index n em h = Inr (ok, em', h') \<Longrightarrow> ring_places em' = ring_places em"
proof (induction n arbitrary: em h)
  case 0
  then show ?case by simp
next
  case (Suc n)
  obtain po h1 where a: "xe_pool_alloc x (cfg_max_frame cfg) h = (po, h1)" by fastforce
  obtain bdo h2 where al: "xe_alloc x RxRing (Suc 0) h1 = (bdo, h2)" by fastforce
  show ?case
  proof (cases "po = None \<or> bdo = None")
    case True
    then show ?thesis using Suc.prems by (cases po) (auto simp: a al)
  next
    case False
    then obtain p rxbd where b: "po = Some p" "bdo = Some rxbd" by auto
    obtain ok' h3 where th: "xe_to_hw x RxRing (Suc 0) rxbd h2 = (ok', h3)" by fastforce
    have upd: "ring_places (em\<lparr>rx_pbufs_storage := v\<rparr>) = ring_places em" for v by (simp add: ring_places_def)
    show ?thesis
      using Suc.prems Suc.IH upd by (auto simp: a al b th Let_def split: if_splits)
  qed
qed

lemma init_queues_places: "ring_places (fst (init_queues x cfg g r t em h)) = ring_places em"
  by (simp add: init_queues_def Let_def ring_places_def)

lemma free_tx_loop_places: "free_tx_loop x js em h = Inr (em', h') \<Longrightarrow>
    ring_places em' = ring_places em \<and> rx_pbufs_storage em' = rx_pbufs_storage em"
proof (induction js arbitrary: em h)
  case Nil
  then show ?case by simp
next
  case (Cons i js)
  have upd: "ring_places (em\<lparr>tx_pbufs_storage := v\<rparr>) = ring_places em" for v by (simp add: ring_places_def)
  show ?case
    using Cons.prems Cons.IH upd by (fastforce simp: bind_sum_Inr_iff split: if_splits)
qed

text \<open>The controller's version register, read in each call, as a value that does not change.\<close>

definition gem_version :: "'h bsp \<Rightarrow> u64 \<Rightarrow> u32 \<Rightarrow> bool" where
  "gem_version b a v \<longleftrightarrow> (\<forall>h. drop_bit 16 (fst (xil_in32 b (a + 0xFC) h)) AND 0xFFF = v)"

text \<open>What one initialisation takes: four areas on controllers with priority queues, two on the others.\<close>

definition claimed :: "u32 \<Rightarrow> nat" where
  "claimed v = (if v > 2 then 0x40000 else 0x20000)"

definition placed_after :: "emac_config \<Rightarrow> u32 \<Rightarrow> emac \<Rightarrow> u32 \<times> u64 \<times> u64 \<times> u64" where
  "placed_after cfg v em =
     (bd_space_index em + of_nat (claimed v), cfg_bd_space cfg + ucast (bd_space_index em),
      cfg_bd_space cfg + ucast (bd_space_index em + 0x10000), em_base em)"

lemma claim_bd_space_places: "ring_places (snd (snd (claim_bd_space cfg gige em))) = placed_after cfg gige em"
  by (simp add: claim_bd_space_def bd_area_def ring_places_def placed_after_def claimed_def Let_def)

lemma init_rings_places: "init_rings x cfg index em h = Inr (ok, em', h') \<Longrightarrow> ring_places em' = ring_places em"
  by (auto simp: init_rings_def Let_def split_beta dest: init_rx_loop_places split: if_splits)

lemma init_dma_places:
  assumes v: "gem_version b (em_base em) v" and run: "init_dma b x cfg em h = Inr (ok, em', h')"
  shows "ring_places em' = placed_after cfg v em"
proof -
  obtain index where ix: "get_base_index_rxpbufsstorage cfg em = Inr index"
    using run by (auto simp: init_dma_def bind_sum_Inr_iff)
  obtain gige h1 where gv: "gigeversion b em h = (gige, h1)" by fastforce
  then have g: "gige = v" using v by (auto simp: gigeversion_def gem_version_def split_beta)
  obtain em1 h2 where at: "(if bd_space_attr_set em = 0
      then (em\<lparr>bd_space_attr_set := 1\<rparr>, xe_set_tlb x (cfg_bd_space cfg) h1) else (em, h1)) = (em1, h2)" by fastforce
  obtain r t em2 where cl: "claim_bd_space cfg gige em1 = (r, t, em2)" by (metis surj_pair)
  have "bd_space_index em1 = bd_space_index em" "em_base em1 = em_base em" using at by (auto split: if_splits)
  then have p: "ring_places em2 = placed_after cfg v em"
    using claim_bd_space_places [of cfg gige em1] by (simp add: g cl [unfolded g] placed_after_def)
  show ?thesis
  proof (cases "rx_bdspace em2 = 0 \<or> tx_bdspace em2 = 0")
    case True
    then show ?thesis using run p by (simp add: init_dma_def ix gv at cl)
  next
    case False
    then obtain ok3 em3 h3 where ri: "init_rings x cfg index em2 h2 = Inr (ok3, em3, h3)"
      using run by (auto simp: init_dma_def ix gv at cl bind_sum_Inr_iff)
    then have "em' = em3 \<or> em' = fst (init_queues x cfg gige r t em3 h3)"
      using run False by (auto simp: init_dma_def ix gv at cl split_beta split: if_splits)
    then show ?thesis using init_rings_places [OF ri] init_queues_places p by metis
  qed
qed

lemma HandleEmacPsError_places:
  assumes v: "gem_version b (em_base em) v" and run: "HandleEmacPsError b x cfg em h = Inr (em', h')"
  shows "ring_places em' = placed_after cfg v em"
proof -
  obtain em1 k ok h7 where i: "init_dma b x cfg em1 k = Inr (ok, em', h7)" and p: "ring_places em1 = ring_places em"
    using run
    by (auto simp: HandleEmacPsError_def free_txrx_pbufs_def bind_sum_Inr_iff Let_def split_beta
        dest: free_tx_loop_places)
  have "em_base em1 = em_base em" "bd_space_index em1 = bd_space_index em"
    using p by (simp_all add: ring_places_def)
  then show ?thesis using init_dma_places [OF _ i] v by (simp add: placed_after_def)
qed

fun recoveries ::
  "'h bsp \<Rightarrow> 'h xemacps \<Rightarrow> emac_config \<Rightarrow> nat \<Rightarrow> emac \<Rightarrow> 'h \<Rightarrow> fault + (emac \<times> 'h)" where
  "recoveries b x cfg 0 em h = Inr (em, h)"
| "recoveries b x cfg (Suc n) em h =
     bind_sum (recoveries b x cfg n em h) (\<lambda>(em1, h1). HandleEmacPsError b x cfg em1 h1)"

lemma recoveries_places:
  assumes v: "gem_version b (em_base em) v" and start: "bd_space_index em = of_nat (claimed v)"
    and "recoveries b x cfg n em h = Inr (em', h')"
  shows "em_base em' = em_base em \<and> bd_space_index em' = of_nat ((n + 1) * claimed v) \<and>
    (0 < n \<longrightarrow> rx_bdspace em' = cfg_bd_space cfg + ucast (of_nat (n * claimed v) :: u32) \<and>
       tx_bdspace em' = cfg_bd_space cfg + ucast (of_nat (n * claimed v + 0x10000) :: u32))"
  using assms(3)
proof (induction n arbitrary: em' h')
  case 0
  then show ?case using start by simp
next
  case (Suc n)
  then obtain em1 h1 where r: "recoveries b x cfg n em h = Inr (em1, h1)"
    and s: "HandleEmacPsError b x cfg em1 h1 = Inr (em', h')" by (auto simp: bind_sum_Inr_iff)
  note ih = Suc.IH [OF r]
  then have "gem_version b (em_base em1) v" using v by simp
  from HandleEmacPsError_places [OF this s] ih show ?case
    by (simp add: ring_places_def placed_after_def algebra_simps)
qed

lemma outside_iff:
  "(bd_space_size \<le> n * claimed v mod 2 ^ 32) = (if v > 2 then 8 \<le> n mod 0x4000 else 16 \<le> n mod 0x8000)"
proof -
  have "n * 0x40000 mod (0x4000 * 0x40000) = n mod 0x4000 * 0x40000" "n * 0x20000 mod (0x8000 * 0x20000) = n mod 0x8000 * 0x20000"
    by (rule mod_mult_mult2)+
  then show ?thesis by (auto simp: claimed_def bd_space_size_def)
qed

text \<open>
  C33: every recovery from a controller error takes fresh areas of 64 kB from the two megabytes of descriptor
  space, four on a controller of a version above 2 and two on an older one; it gives none back, and
  nothing checks the end. After start-up the \<open>n\<close>-th recovery puts the receive ring \<open>n\<close> times that amount behind the beginning
  of the space, and the transmit ring 64 kB further, both modulo \<open>2 ^ 32\<close>, for the index has 32 bits. So on a newer controller the
  receive ring lies outside the space from the eighth recovery on, and on an older one from the sixteenth on, and comes back to the
  beginning only when the index wraps, after 16384 and 32768 recoveries.
\<close>
theorem recovery_exhausts_descriptor_space:
  assumes "gem_version b (em_base em) v" and "bd_space_index em = of_nat (claimed v)"
    and "recoveries b x cfg n em h = Inr (em', h')" and "0 < n"
  shows "unat (rx_bdspace em' - cfg_bd_space cfg) = n * claimed v mod 2 ^ 32 \<and>
    unat (tx_bdspace em' - cfg_bd_space cfg) = (n * claimed v + 0x10000) mod 2 ^ 32 \<and>
    (bd_space_size \<le> unat (rx_bdspace em' - cfg_bd_space cfg) \<longleftrightarrow>
       (if v > 2 then 8 \<le> n mod 0x4000 else 16 \<le> n mod 0x8000))"
proof -
  have p: "rx_bdspace em' - cfg_bd_space cfg = ucast (of_nat (n * claimed v) :: u32)"
    "tx_bdspace em' - cfg_bd_space cfg = ucast (of_nat (n * claimed v + 0x10000) :: u32)"
    using recoveries_places [OF assms(1-3)] assms(4) by simp_all
  have u: "unat (rx_bdspace em' - cfg_bd_space cfg) = n * claimed v mod 2 ^ 32"
    "unat (tx_bdspace em' - cfg_bd_space cfg) = (n * claimed v + 0x10000) mod 2 ^ 32"
    unfolding p unat_ucast_32_64 unat_of_nat by simp_all
  show ?thesis unfolding u outside_iff by simp
qed

theorem recovery_exhausts_descriptor_space_witness:
  "\<exists>em' h'. recoveries esim_bsp esim_ops esim_cfg 8 (esim_em\<lparr>bd_space_index := 0x40000\<rparr>) esim0 = Inr (em', h') \<and>
    bd_space_size \<le> unat (rx_bdspace em' - cfg_bd_space esim_cfg)"
proof -
  let ?em = "esim_em\<lparr>bd_space_index := 0x40000\<rparr>"
  have "case recoveries esim_bsp esim_ops esim_cfg 8 ?em esim0 of Inr (em', h') \<Rightarrow> True | _ \<Rightarrow> False"
    by code_simp
  then obtain em' h' where r: "recoveries esim_bsp esim_ops esim_cfg 8 ?em esim0 = Inr (em', h')"
    by (auto split: sum.splits)
  have v: "gem_version esim_bsp (em_base ?em) 7" by (simp add: gem_version_def esim_bsp_def)
  have "bd_space_index ?em = of_nat (claimed 7)" by (simp add: claimed_def)
  from recovery_exhausts_descriptor_space [OF v this r] r show ?thesis by simp
qed

section \<open>Buffers released by error recovery\<close>

definition rx_held :: "nat list \<Rightarrow> emac \<Rightarrow> int" where
  "rx_held js em = sum_list (map (\<lambda>i. held (rx_pbufs_storage em ! i)) js)"

lemma free_rx_account:
  assumes acc: "emac_account b x refs rxhw" and "free_rx_loop x js em h = Inr h'"
  shows "refs h' = refs h - rx_held js em \<and> rxhw h' = rxhw h"
  using assms(2)
proof (induction js arbitrary: h)
  case Nil
  then show ?case by (simp add: rx_held_def)
next
  case (Cons i js)
  then obtain po where "slot_get (rx_pbufs_storage em) i = Inr po"
    and r: "free_rx_loop x js em (xe_pbuf_free x po h) = Inr h'" by (auto simp: bind_sum_Inr_iff)
  then have "po = rx_pbufs_storage em ! i" by (simp add: slot_get_Inr)
  with Cons.IH [OF r] show ?case by (simp add: rx_held_def emac_account_simps [OF acc])
qed

text \<open>
  The pointers of the receive array are not cleared when their buffers are released. A second recovery
  whose ring set-up failed in between (its result is ignored) releases the same buffers once more.
\<close>

lemma free_txrx_repeats:
  assumes acc: "emac_account b x refs rxhw"
    and ix: "get_base_index_rxpbufsstorage cfg em = Inr j"
    and r: "free_txrx_pbufs x cfg em h = Inr (em1, h1)"
  shows "rx_pbufs_storage em1 = rx_pbufs_storage em"
    and "refs h1 - tx_held em1 = refs h - tx_held em - rx_held [j ..< j + cfg_n_rx cfg] em + (rxhw h1 - rxhw h)"
proof -
  obtain i k h2 j' where t: "free_tx_loop x [i ..< i + cfg_n_tx cfg] em h = Inr (em1, k)"
    and j': "get_base_index_rxpbufsstorage cfg em1 = Inr j'"
    and f: "free_rx_loop x [j' ..< j' + cfg_n_rx cfg] em1 k = Inr h1"
    using r by (auto simp: free_txrx_pbufs_def bind_sum_Inr_iff)
  have p: "ring_places em1 = ring_places em" "rx_pbufs_storage em1 = rx_pbufs_storage em"
    using free_tx_loop_places [OF t] by simp_all
  then have "j' = j" using ix j' by (simp add: get_base_index_rxpbufsstorage_def ring_places_def)
  then show "refs h1 - tx_held em1 = refs h - tx_held em - rx_held [j ..< j + cfg_n_rx cfg] em + (rxhw h1 - rxhw h)"
    using free_tx_balance [OF acc t] free_rx_account [OF acc f] p
    by (simp add: balance_def rx_held_def)
  show "rx_pbufs_storage em1 = rx_pbufs_storage em" by (rule p)
qed

section \<open>The entries of the multicast filters\<close>

definition entries :: "nat \<Rightarrow> u8 \<Rightarrow> nat" where
  "entries n m = length (filter (bit m) [0..<n])"

lemma bit_temp_mask: "i < 8 \<Longrightarrow> bit (temp_mask i) j \<longleftrightarrow> i = j"
  by (auto simp: temp_mask_def bit_simps)

lemma temp_mask_test: "i < 8 \<Longrightarrow> m AND temp_mask i = temp_mask i \<longleftrightarrow> bit m i"
proof
  assume i: "i < 8" and eq: "m AND temp_mask i = temp_mask i"
  have "bit (m AND temp_mask i) i" unfolding eq using i by (simp add: bit_temp_mask)
  then show "bit m i" by (simp add: bit_and_iff)
next
  assume "i < 8" and "bit m i"
  then show "m AND temp_mask i = temp_mask i" by (intro bit_word_eqI) (auto simp: bit_and_iff bit_temp_mask)
qed

lemma add_entry_cases:
  assumes "\<forall>i \<in> set js. i < 8"
  shows "add_entry js m = None \<and> (\<forall>i \<in> set js. bit m i) \<or>
    (\<exists>i \<in> set js. \<not> bit m i \<and> add_entry js m = Some (m OR temp_mask i))"
  using assms by (induction js) (auto simp: temp_mask_test)

lemma del_entry_cases:
  assumes "\<forall>i \<in> set js. i < 8"
  shows "del_entry js m = None \<and> (\<forall>i \<in> set js. \<not> bit m i) \<or>
    (\<exists>i \<in> set js. bit m i \<and> del_entry js m = Some (m AND NOT (temp_mask i)))"
  using assms by (induction js) (auto simp: temp_mask_test)

lemma length_filter_one:
  assumes "distinct js" and "i \<in> set js" and "\<not> P i"
  shows "length (filter (\<lambda>j. P j \<or> j = i) js) = Suc (length (filter P js))"
  using assms
proof (induction js)
  case (Cons j js)
  show ?case
  proof (cases "j = i")
    case True
    then have "filter (\<lambda>j. P j \<or> j = i) js = filter P js"
      using Cons.prems(1) by (intro filter_cong) auto
    then show ?thesis using True Cons.prems(3) by simp
  qed (use Cons in auto)
qed simp

lemma entries_add: "i < n \<Longrightarrow> n \<le> 8 \<Longrightarrow> \<not> bit m i \<Longrightarrow> entries n (m OR temp_mask i) = Suc (entries n m)"
proof -
  assume a: "i < n" "n \<le> 8" "\<not> bit m i"
  then have "bit (m OR temp_mask i) j \<longleftrightarrow> bit m j \<or> j = i" for j
    by (auto simp: bit_or_iff bit_temp_mask)
  then have "filter (bit (m OR temp_mask i)) [0..<n] = filter (\<lambda>j. bit m j \<or> j = i) [0..<n]"
    by (intro filter_cong) simp_all
  then show ?thesis using a by (simp add: entries_def length_filter_one)
qed

lemma entries_del: "i < n \<Longrightarrow> n \<le> 8 \<Longrightarrow> bit m i \<Longrightarrow> Suc (entries n (m AND NOT (temp_mask i))) = entries n m"
proof -
  assume a: "i < n" "n \<le> 8" "bit m i"
  have "\<not> bit (m AND NOT (temp_mask i)) i" using a by (simp add: bit_and_iff bit_not_iff bit_temp_mask)
  moreover have "(m AND NOT (temp_mask i)) OR temp_mask i = m"
    using a by (intro bit_word_eqI) (auto simp: bit_simps bit_temp_mask)
  ultimately show ?thesis using entries_add [of i n "m AND NOT (temp_mask i)"] a by simp
qed

lemma entries_full: "entries n m = n \<longleftrightarrow> (\<forall>i < n. bit m i)"
  using filter_id_conv [of "bit m" "[0..<n]"] length_filter_less [of _ "[0..<n]" "bit m"]
  by (fastforce simp: entries_def)

lemma entries_le: "entries n m \<le> n"
  unfolding entries_def using length_filter_le [of "bit m" "[0..<n]"] by simp

lemma entries_empty: "entries n m = 0 \<longleftrightarrow> (\<forall>i < n. \<not> bit m i)"
  by (auto simp: entries_def filter_empty_conv)

text \<open>
  The outcome of a filter update that was let through, in terms of the entries in use.
\<close>

definition entry_outcome :: "nat \<Rightarrow> mac_filter_action \<Rightarrow> err_t \<Rightarrow> u8 \<Rightarrow> err_t \<Rightarrow> u8 \<Rightarrow> bool" where
  "entry_outcome n act other m e m' \<longleftrightarrow>
     (case act of
        ADD_MAC_FILTER \<Rightarrow> (if entries n m < n then e = ERR_OK \<and> entries n m' = entries n m + 1 else e = ERR_MEM \<and> m' = m)
      | DEL_MAC_FILTER \<Rightarrow> (if 0 < entries n m then e = ERR_OK \<and> entries n m' + 1 = entries n m else e = ERR_MEM \<and> m' = m)
      | Other_action \<Rightarrow> e = other \<and> m' = m)"

lemma add_entry_counts:
  assumes n: "n \<le> 8"
  shows "case add_entry [0..<n] m of None \<Rightarrow> entries n m = n
    | Some m' \<Rightarrow> entries n m < n \<and> entries n m' = entries n m + 1"
proof -
  have "entries n m < n" if "i < n" "\<not> bit m i" for i
    using that entries_full [of n m] entries_le [of n m] by (metis le_neq_implies_less)
  then show ?thesis using add_entry_cases [of "[0..<n]" m] n by (auto simp: entries_full entries_add)
qed

lemma del_entry_counts:
  assumes n: "n \<le> 8"
  shows "case del_entry [0..<n] m of None \<Rightarrow> entries n m = 0
    | Some m' \<Rightarrow> 0 < entries n m \<and> entries n m' + 1 = entries n m"
  using del_entry_cases [of "[0..<n]" m] n by (auto simp: entries_empty entries_del simp flip: entries_del)

definition any_scope :: ip6_scopes where
  "any_scope = \<lparr>ip6_addr_ismulticast_linklocal = (\<lambda>a. a ! 0 = 0xFF), ip6_addr_ismulticast_iflocal = (\<lambda>_. False),
     ip6_addr_ismulticast_adminlocal = (\<lambda>_. False), ip6_addr_ismulticast_sitelocal = (\<lambda>_. False),
     ip6_addr_ismulticast_orglocal = (\<lambda>_. False), ip6_addr_ismulticast_global = (\<lambda>_. False)\<rparr>"

text \<open>
  C34: The filters for IPv4 and IPv6 count their entries and nothing else: adding succeeds exactly while
  fewer than the maximum are in use and takes one, removing succeeds exactly while one is in use and frees
  one, whatever group is given, so removing a group that was never added takes the entry of another. The
  IPv4 filter refuses no address and no action; the IPv6 filter answers \<open>ERR_ARG\<close>, with its entries
  unchanged, to an address outside the multicast scopes and to an action that is neither of the two.
\<close>

theorem mac_filter_counts_entries:
  assumes n: "n \<le> 8"
  shows "(xemacpsif_mac_filter_update b x n ip act em m h = Some (e, m', h') \<longrightarrow> entry_outcome n act ERR_OK m e m') \<and>
    (xemacpsif_mld6_mac_filter_update b x ll0 ll1 sc n ip act em m h = Some (e, m', h') \<longrightarrow>
      (if xemacpsif_ip6_addr_ismulticast sc ip then entry_outcome n act ERR_ARG m e m' else e = ERR_ARG \<and> m' = m))"
proof -
  have g: "\<not> (ip ! 0 < 224 \<and> ip ! 0 > 239)" by (simp add: word_less_nat_alt)
  note defs = xemacpsif_mac_filter_update_def xemacpsif_mld6_mac_filter_update_def entry_outcome_def
  show ?thesis
    using add_entry_counts [OF n, of m] del_entry_counts [OF n, of m] g
    by (cases act) (auto simp: defs split: option.splits if_splits)
qed

theorem mac_filter_counts_entries_witness:
  "\<exists>m' m2 h' h2. xemacpsif_mac_filter_update esim_bsp esim_ops 4 [192, 168, 0, 1] ADD_MAC_FILTER esim_em 0x05 esim0 =
      Some (ERR_OK, m', h') \<and> entries 4 m' = 3 \<and>
    xemacpsif_mld6_mac_filter_update esim_bsp esim_ops 0x33 0x33 any_scope 4 (0xFF # replicate 15 2) DEL_MAC_FILTER
      esim_em 0x05 esim0 = Some (ERR_OK, m2, h2) \<and> entries 4 m2 = 1"
proof -
  have r: "xemacpsif_mac_filter_update esim_bsp esim_ops 4 [192, 168, 0, 1] ADD_MAC_FILTER esim_em 0x05 esim0 =
      Some (ERR_OK, 0x07, esim0)"
    and r6: "xemacpsif_mld6_mac_filter_update esim_bsp esim_ops 0x33 0x33 any_scope 4 (0xFF # replicate 15 2)
      DEL_MAC_FILTER esim_em 0x05 esim0 = Some (ERR_OK, 0x04, esim0)"
    by code_simp+
  have "entries 4 0x05 = 2" "xemacpsif_ip6_addr_ismulticast any_scope (0xFF # replicate 15 2)" by code_simp+
  then have "entries 4 0x07 = 3" "entries 4 0x04 = 1"
    using mac_filter_counts_entries [of 4] r r6 by (fastforce simp: entry_outcome_def)+
  with r r6 show ?thesis by blast
qed

text \<open>Two groups share a hardware address exactly when their lowest 23 bits agree.\<close>

lemma multicast_mac_eq:
  "multicast_mac ip = multicast_mac ip' \<longleftrightarrow>
    (ip ! 1 AND 0x7F = ip' ! 1 AND 0x7F) \<and> ip ! 2 = ip' ! 2 \<and> ip ! 3 = ip' ! 3"
  by (simp add: multicast_mac_def)

end
