(* ===== verification/NetifInit.thy ===== *)
theory NetifInit
  imports EmacIf
begin

text \<open>
  Bringing the interface up, \<open>low_level_init\<close> and \<open>xemacpsif_init\<close> of \<open>IEEE1588/netif/xemacpsif.c\<close>. The heap, the
  packet queue's constructor and the tables of the board are parameters. The build has no operating
  system; the secure-monitor calls of the non-secure 64-bit build are left out.
\<close>

section \<open>Interface and state\<close>

record 'h netif_board =
  nb_malloc :: "'h \<Rightarrow> bool \<times> 'h"
  nb_create_queue :: "'h \<Rightarrow> bool \<times> 'h"
  nb_find_index :: "u64 \<Rightarrow> nat"
  nb_lookup :: "u64 \<Rightarrow> (u64 \<times> bool) option"
  nb_mtu :: u16
  nb_hdr_size :: u16
  nb_igmp :: bool
  nb_ipv6 :: bool
  nb_mld :: bool

datatype netif_flag = NETIF_FLAG_BROADCAST | NETIF_FLAG_ETHARP | NETIF_FLAG_LINK_UP | NETIF_FLAG_MLD6 | NETIF_FLAG_IGMP

datatype netif_output = No_output | Xemacpsif_output | Low_level_output | Ethip6_output

text \<open>
  \<open>netif->state\<close> is the base address that the application stored, until start-up replaces it by the
  pointer to the interface structure, here its topology index.
\<close>

datatype netif_state = Base_address u64 | Xemac nat

record netif =
  nf_state :: netif_state
  nf_mtu :: u16
  nf_flags :: "netif_flag list"
  nf_name :: string
  nf_output :: netif_output
  nf_linkoutput :: netif_output
  nf_output_ip6 :: netif_output
  nf_igmp_filter :: bool
  nf_mld_filter :: bool

section \<open>Start-up\<close>

text \<open>The assignments to the interface before the hardware is touched.\<close>

definition netif_setup :: "'h netif_board \<Rightarrow> netif \<Rightarrow> netif" where
  "netif_setup nb nf =
     (let nf1 = nf\<lparr>nf_mtu := nb_mtu nb - nb_hdr_size nb\<rparr>;
          nf2 = (if nb_igmp nb then nf1\<lparr>nf_igmp_filter := True\<rparr> else nf1);
          nf3 = (if nb_ipv6 nb \<and> nb_mld nb then nf2\<lparr>nf_mld_filter := True\<rparr> else nf2)
      in nf3\<lparr>nf_flags := [NETIF_FLAG_BROADCAST, NETIF_FLAG_ETHARP, NETIF_FLAG_LINK_UP] @
           (if nb_ipv6 nb \<and> nb_mld nb then [NETIF_FLAG_MLD6] else []) @
           (if nb_igmp nb then [NETIF_FLAG_IGMP] else [])\<rparr>)"

text \<open>
  \<open>XEmacPs_CfgInitialize\<close> stores the configuration it is given in the instance, which the record \<open>emac\<close>
  holds; its status is only reported, and that of \<open>init_dma\<close> is not looked at. The result of the look-up is
  used without a check for null.
\<close>

definition hw_setup ::
  "'h bsp \<Rightarrow> 'h xemacps \<Rightarrow> emac_config \<Rightarrow> (u64 \<times> bool) option \<Rightarrow> emac \<Rightarrow> 'h \<Rightarrow> fault + (emac \<times> 'h)" where
  "hw_setup b x cfg mac_config em h =
     (case mac_config of
        None \<Rightarrow> Inl Null_deref
      | Some (base, coherent) \<Rightarrow>
          (let (_, h1) = xe_cfg_initialize x base h;
               em1 = em\<lparr>em_base := base, em_coherent := coherent\<rparr>;
               h2 = xe_init_emacps x h1;
               (dmacrreg, h3) = xe_read_reg x (em_base em1) DMACR h2;
               h4 = xe_write_reg x (em_base em1) DMACR (dmacrreg OR 0x00000010) h3;
               h5 = xe_setup_isr x h4
           in bind_sum (init_dma b x cfg em1 h5) (\<lambda>(_, em2, h6). Inr (em2, xe_start_emacps x h6))))"

definition low_level_init ::
  "'h bsp \<Rightarrow> 'h xemacps \<Rightarrow> emac_config \<Rightarrow> 'h netif_board \<Rightarrow> u64 \<Rightarrow> netif \<Rightarrow> emac \<Rightarrow> 'h \<Rightarrow>
   fault + (err_t \<times> netif \<times> emac \<times> 'h)" where
  "low_level_init b x cfg nb mac_address nf em h =
     (let (ok1, h1) = nb_malloc nb h
      in if \<not> ok1 then Inr (ERR_MEM, nf, em, h1)
         else
           let (ok2, h2) = nb_malloc nb h1
           in if \<not> ok2 then Inr (ERR_MEM, nf, em, h2)
              else
                let (ok3, h3) = nb_create_queue nb h2
                in if \<not> ok3 then Inr (ERR_MEM, nf, em, h3)
                   else
                     let nf1 = netif_setup nb nf
                     in bind_sum (hw_setup b x cfg (nb_lookup nb mac_address) em h3) (\<lambda>(em1, h4).
                          Inr (ERR_OK, nf1\<lparr>nf_state := Xemac (nb_find_index nb mac_address)\<rparr>, em1, h4)))"

definition xemacpsif_init ::
  "'h bsp \<Rightarrow> 'h xemacps \<Rightarrow> emac_config \<Rightarrow> 'h netif_board \<Rightarrow> u64 \<Rightarrow> netif \<Rightarrow> emac \<Rightarrow> 'h \<Rightarrow>
   fault + (err_t \<times> netif \<times> emac \<times> 'h)" where
  "xemacpsif_init b x cfg nb mac_address nf em h =
     (let nf1 = nf\<lparr>nf_name := ''te'', nf_output := Xemacpsif_output, nf_linkoutput := Low_level_output\<rparr>;
          nf2 = (if nb_ipv6 nb then nf1\<lparr>nf_output_ip6 := Ethip6_output\<rparr> else nf1)
      in bind_sum (low_level_init b x cfg nb mac_address nf2 em h) (\<lambda>(_, r). Inr (ERR_OK, r)))"

section \<open>What start-up reports\<close>

definition memory_suffices :: "'h netif_board \<Rightarrow> 'h \<Rightarrow> bool" where
  "memory_suffices nb h \<longleftrightarrow>
     (let (ok1, h1) = nb_malloc nb h; (ok2, h2) = nb_malloc nb h1 in ok1 \<and> ok2 \<and> fst (nb_create_queue nb h2))"

lemma low_level_init_cases:
  assumes "low_level_init b x cfg nb a nf em h = Inr (e, nf', em', h')"
  shows "e = ERR_OK \<and> memory_suffices nb h \<and> nf' = (netif_setup nb nf)\<lparr>nf_state := Xemac (nb_find_index nb a)\<rparr> \<or>
    e = ERR_MEM \<and> \<not> memory_suffices nb h \<and> nf' = nf \<and> em' = em"
  using assms
  by (auto simp: low_level_init_def memory_suffices_def Let_def split_beta bind_sum_Inr_iff split: if_splits)

lemma netif_setup_frame:
  "nf_linkoutput (netif_setup nb nf) = nf_linkoutput nf" "nf_output (netif_setup nb nf) = nf_output nf"
  "NETIF_FLAG_ETHARP \<in> set (nf_flags (netif_setup nb nf))"
  by (simp_all add: netif_setup_def Let_def)

text \<open>
  C39: starting the interface reports success whatever happened: the returned value is always
  \<open>ERR_OK\<close> and the send function is always installed, but when the heap or the queue could not be had,
  the state pointer still holds the base address that the send function would use as the interface
  structure; with enough memory it is the interface structure, and the interface is marked for ARP.
\<close>
theorem xemacpsif_init_reports_success:
  assumes "xemacpsif_init b x cfg nb a nf em h = Inr (e, nf', em', h')" and "nf_state nf = Base_address a"
  shows "e = ERR_OK \<and> nf_linkoutput nf' = Low_level_output \<and>
    (if memory_suffices nb h
     then nf_state nf' = Xemac (nb_find_index nb a) \<and> NETIF_FLAG_ETHARP \<in> set (nf_flags nf')
     else nf_state nf' = Base_address a \<and> em' = em)"
proof -
  let ?nf1 = "nf\<lparr>nf_name := ''te'', nf_output := Xemacpsif_output, nf_linkoutput := Low_level_output\<rparr>"
  let ?nf2 = "if nb_ipv6 nb then ?nf1\<lparr>nf_output_ip6 := Ethip6_output\<rparr> else ?nf1"
  have s: "nf_state ?nf2 = Base_address a" "nf_linkoutput ?nf2 = Low_level_output"
    using assms(2) by simp_all
  obtain e1 where e: "e = ERR_OK" and l: "low_level_init b x cfg nb a ?nf2 em h = Inr (e1, nf', em', h')"
    using assms(1) by (auto simp: xemacpsif_init_def Let_def bind_sum_Inr_iff)
  from low_level_init_cases [OF l] show ?thesis
    using s e by (auto simp: netif_setup_frame)
qed

definition demo_board :: "esim netif_board" where
  "demo_board = \<lparr>nb_malloc = (\<lambda>h. (es_cnt h = 0, h\<lparr>es_cnt := es_cnt h + 1\<rparr>)), nb_create_queue = (\<lambda>h. (True, h)),
     nb_find_index = (\<lambda>a. 0), nb_lookup = (\<lambda>a. Some (a, True)), nb_mtu = 1500, nb_hdr_size = 14, nb_igmp = True,
     nb_ipv6 = False, nb_mld = False\<rparr>"

definition demo_netif :: netif where
  "demo_netif = \<lparr>nf_state = Base_address 0xFF0B0000, nf_mtu = 0, nf_flags = [], nf_name = '''', nf_output = No_output,
     nf_linkoutput = No_output, nf_output_ip6 = No_output, nf_igmp_filter = False, nf_mld_filter = False\<rparr>"

theorem xemacpsif_init_reports_success_witness:
  "\<exists>nf' em' h'. xemacpsif_init esim_bsp esim_ops esim_cfg demo_board 0xFF0B0000 demo_netif esim_em esim0 =
      Inr (ERR_OK, nf', em', h') \<and> nf_linkoutput nf' = Low_level_output \<and> nf_state nf' = Base_address 0xFF0B0000"
proof -
  have m: "\<not> memory_suffices demo_board esim0"
    by (simp add: memory_suffices_def demo_board_def esim0_def)
  have "\<exists>e nf' em' h'. xemacpsif_init esim_bsp esim_ops esim_cfg demo_board 0xFF0B0000 demo_netif esim_em esim0 =
      Inr (e, nf', em', h')"
    by (simp add: xemacpsif_init_def low_level_init_def Let_def demo_board_def esim0_def)
  then show ?thesis
    using xemacpsif_init_reports_success [of esim_bsp esim_ops esim_cfg demo_board "0xFF0B0000" demo_netif esim_em esim0] m
    by (fastforce simp: demo_netif_def)
qed

end
