(* ===== verification/TtcTimer.thy ===== *)
theory TtcTimer
  imports CInt
begin

text \<open>
  The tick timer, \<open>IEEE1588/ttc_tsu/ttc_timer.c\<close> and \<open>ttc_timer.h\<close>: setting the triple timer counter up,
  connecting its interrupt, and the interrupt handler that calls the registered function. The
  XTtcPs driver and the interrupt controller (\<open>InterruptConnect\<close>) are the fields of the parameter
  \<open>xttcps\<close>, with the identifiers and bit masks of their headers; the statics of the file are the record
  \<open>ttc\<close>. \<open>'h\<close> is everything a handler can reach. What the theory relies on of the two is the predicate
  \<open>ticker_board\<close>.
\<close>

section \<open>Interface and state\<close>

text \<open>
  The file has one driver instance, \<open>TtcPsInst\<close>; a pointer to an instance is \<open>None\<close> when it is null.
  A handler is what \<open>InterruptConnect\<close> is given: \<open>tick_handler\<close>, the only one this file connects, or
  one that belongs to other code of the board.
\<close>

datatype ttc_instance = TtcPsInst

datatype isr = Isr_tick_handler | Isr_other nat

record 'h xttcps =
  tt_lookup_config :: "i32 \<Rightarrow> 'h \<Rightarrow> u64 option"
  tt_cfg_initialize :: "u64 \<Rightarrow> 'h \<Rightarrow> bool \<times> 'h"
  tt_set_options :: "u16 \<Rightarrow> 'h \<Rightarrow> 'h"
  tt_calc_interval :: "u32 \<Rightarrow> 'h \<Rightarrow> u32 \<times> u8"
  tt_set_interval :: "u32 \<Rightarrow> 'h \<Rightarrow> 'h"
  tt_set_prescaler :: "u8 \<Rightarrow> 'h \<Rightarrow> 'h"
  tt_interrupt_connect :: "u32 \<Rightarrow> isr \<Rightarrow> ttc_instance option \<Rightarrow> 'h \<Rightarrow> bool \<times> 'h"
  tt_enable_interrupts :: "u32 \<Rightarrow> 'h \<Rightarrow> 'h"
  tt_get_status :: "'h \<Rightarrow> u32"
  tt_clear_status :: "u32 \<Rightarrow> 'h \<Rightarrow> 'h"
  tt_start :: "'h \<Rightarrow> 'h"
  tt_stop :: "'h \<Rightarrow> 'h"
  tt_other_isr :: "nat \<Rightarrow> 'h \<Rightarrow> 'h"
  tt_device_id :: i32
  tt_intr_id :: u32
  tt_interval_mode :: u16
  tt_wave_disable :: u16
  tt_ixr_interval :: u32

record TmrCntrSetup =
  OutputHz :: u32
  Interval :: u32
  Prescaler :: u8
  Options :: u16

text \<open>\<open>ttcps_tick\<close> is the member of the structure \<open>sXttc_handler\<close>.\<close>

record 'h ttc =
  SettingsTable :: TmrCntrSetup
  ttcps_tick :: "ttc_instance option"
  TickCallback :: "('h \<Rightarrow> 'h) option"
  ttc_env :: 'h

definition TICK_TIMER_FREQ_HZ :: u32 where "TICK_TIMER_FREQ_HZ = 1000"

definition ttc_boot :: "'h \<Rightarrow> 'h ttc" where
  "ttc_boot h = \<lparr>SettingsTable = \<lparr>OutputHz = TICK_TIMER_FREQ_HZ, Interval = 0, Prescaler = 0, Options = 0\<rparr>,
     ttcps_tick = None, TickCallback = None, ttc_env = h\<rparr>"

section \<open>Operations\<close>

definition on_env :: "('h \<Rightarrow> 'h) \<Rightarrow> 'h ttc \<Rightarrow> 'h ttc" where
  "on_env f t = t\<lparr>ttc_env := f (ttc_env t)\<rparr>"

text \<open>
  The driver's register macros read the base address through the instance pointer, so a null pointer
  faults there.
\<close>

definition with_instance :: "ttc_instance option \<Rightarrow> 'a \<Rightarrow> fault + 'a" where
  "with_instance p v = (case p of None \<Rightarrow> Inl Null_deref | Some TtcPsInst \<Rightarrow> Inr v)"

text \<open>
  \<open>True\<close> is \<open>XST_SUCCESS\<close>. \<open>Timer\<close> is \<open>&TtcPsInst\<close> throughout \<open>setup_timer\<close>, so no call of it sees a
  null instance.
\<close>

definition setup_timer :: "'h xttcps \<Rightarrow> i32 \<Rightarrow> 'h ttc \<Rightarrow> bool \<times> 'h ttc" where
  "setup_timer x DeviceID t =
     (case tt_lookup_config x DeviceID (ttc_env t) of
        None \<Rightarrow> (False, t)
      | Some base \<Rightarrow>
          (let (ok, h1) = tt_cfg_initialize x base (ttc_env t);
               t1 = t\<lparr>ttc_env := h1\<rparr>
           in if \<not> ok then (False, t1)
              else
                (let t2 = on_env (tt_set_options x (Options (SettingsTable t1))) t1;
                     (iv, ps) = tt_calc_interval x (OutputHz (SettingsTable t2)) (ttc_env t2);
                     t3 = t2\<lparr>SettingsTable := (SettingsTable t2)\<lparr>Interval := iv, Prescaler := ps\<rparr>\<rparr>;
                     t4 = on_env (tt_set_interval x (Interval (SettingsTable t3))) t3;
                     t5 = on_env (tt_set_prescaler x (Prescaler (SettingsTable t4))) t4
                 in (True, t5))))"

definition setup_ticker :: "'h xttcps \<Rightarrow> 'h ttc \<Rightarrow> fault + (bool \<times> 'h ttc)" where
  "setup_ticker x t =
     (let TtcPsTick = ttcps_tick t;
          t1 = t\<lparr>SettingsTable := (SettingsTable t)\<lparr>Options := Options (SettingsTable t) OR
                   (tt_interval_mode x OR tt_wave_disable x)\<rparr>\<rparr>;
          (ok, t2) = setup_timer x (tt_device_id x) t1
      in if \<not> ok then Inr (False, t2)
         else
           (let (ok', h) = tt_interrupt_connect x (tt_intr_id x) Isr_tick_handler TtcPsTick (ttc_env t2);
                t3 = t2\<lparr>ttc_env := h\<rparr>
            in if \<not> ok' then Inr (False, t3)
               else bind_sum (with_instance TtcPsTick (on_env (tt_enable_interrupts x (tt_ixr_interval x)) t3))
                      (\<lambda>t4. Inr (True, t4))))"

definition tick_handler :: "'h xttcps \<Rightarrow> ttc_instance option \<Rightarrow> 'h ttc \<Rightarrow> fault + 'h ttc" where
  "tick_handler x CallBackRef t =
     bind_sum (with_instance CallBackRef (tt_get_status x (ttc_env t))) (\<lambda>StatusEvent.
     bind_sum (with_instance CallBackRef (on_env (tt_clear_status x StatusEvent) t)) (\<lambda>t1.
       case TickCallback t1 of None \<Rightarrow> Inl Null_deref | Some f \<Rightarrow> Inr (on_env f t1)))"

definition init_ttc_timer :: "'h xttcps \<Rightarrow> 'h ttc \<Rightarrow> fault + (bool \<times> 'h ttc)" where
  "init_ttc_timer x t = setup_ticker x (t\<lparr>ttcps_tick := Some TtcPsInst\<rparr>)"

definition ttcps_start :: "'h xttcps \<Rightarrow> 'h ttc \<Rightarrow> 'h ttc" where
  "ttcps_start x t = on_env (tt_start x) t"

definition ttcps_stop :: "'h xttcps \<Rightarrow> 'h ttc \<Rightarrow> 'h ttc" where
  "ttcps_stop x t = on_env (tt_stop x) t"

definition register_ttc_handler :: "('h \<Rightarrow> 'h) option \<Rightarrow> 'h ttc \<Rightarrow> 'h ttc" where
  "register_ttc_handler cal t = t\<lparr>TickCallback := cal\<rparr>"

section \<open>The timer and the interrupt controller\<close>

text \<open>
  What can be seen of the environment: the handler connected to an interrupt, whether the timer's
  interval interrupt is enabled, whether the timer runs, its interrupt status, and how often the
  callback has been called with the interrupt acknowledged. \<open>ticker_board\<close> is what the driver and the
  interrupt controller document: configuring the device stops it, connecting an interrupt enters the
  handler and its argument when it succeeds and changes nothing when it fails, clearing the status
  clears the bits written, and no call does more than its own effect.
\<close>

record 'h ticker_view =
  tv_vector :: "'h \<Rightarrow> u32 \<Rightarrow> (isr \<times> ttc_instance option) option"
  tv_enabled :: "'h \<Rightarrow> bool"
  tv_running :: "'h \<Rightarrow> bool"
  tv_status :: "'h \<Rightarrow> u32"
  tv_calls :: "'h \<Rightarrow> nat"

definition same_view :: "'h ticker_view \<Rightarrow> 'h \<Rightarrow> 'h \<Rightarrow> bool" where
  "same_view v h h' \<longleftrightarrow> tv_vector v h' = tv_vector v h \<and> tv_enabled v h' = tv_enabled v h \<and>
     tv_running v h' = tv_running v h \<and> tv_status v h' = tv_status v h \<and> tv_calls v h' = tv_calls v h"

definition cfg_law :: "'h xttcps \<Rightarrow> 'h ticker_view \<Rightarrow> bool" where
  "cfg_law x v \<longleftrightarrow> (\<forall>b h. let (ok, h') = tt_cfg_initialize x b h in
     tv_vector v h' = tv_vector v h \<and> tv_calls v h' = tv_calls v h \<and>
     tv_running v h' = (if ok then False else tv_running v h))"

definition connect_law :: "'h xttcps \<Rightarrow> 'h ticker_view \<Rightarrow> bool" where
  "connect_law x v \<longleftrightarrow> (\<forall>i f p h. let (ok, h') = tt_interrupt_connect x i f p h in
     tv_vector v h' = (if ok then (tv_vector v h)(i \<mapsto> (f, p)) else tv_vector v h) \<and>
     tv_running v h' = tv_running v h \<and> tv_calls v h' = tv_calls v h)"

definition control_law :: "'h xttcps \<Rightarrow> 'h ticker_view \<Rightarrow> bool" where
  "control_law x v \<longleftrightarrow>
     (\<forall>m h. let h' = tt_enable_interrupts x m h in
        tv_vector v h' = tv_vector v h \<and> tv_running v h' = tv_running v h \<and> tv_calls v h' = tv_calls v h \<and>
        (tv_enabled v h' \<longleftrightarrow> tv_enabled v h \<or> m AND tt_ixr_interval x \<noteq> 0)) \<and>
     (\<forall>h. let h' = tt_start x h in
        tv_vector v h' = tv_vector v h \<and> tv_enabled v h' = tv_enabled v h \<and> tv_running v h' \<and> tv_calls v h' = tv_calls v h) \<and>
     (\<forall>h. let h' = tt_stop x h in
        tv_vector v h' = tv_vector v h \<and> tv_enabled v h' = tv_enabled v h \<and> \<not> tv_running v h' \<and> tv_calls v h' = tv_calls v h)"

definition status_law :: "'h xttcps \<Rightarrow> 'h ticker_view \<Rightarrow> bool" where
  "status_law x v \<longleftrightarrow>
     (\<forall>h. tt_get_status x h = tv_status v h) \<and>
     (\<forall>m h. let h' = tt_clear_status x m h in
        tv_vector v h' = tv_vector v h \<and> tv_enabled v h' = tv_enabled v h \<and> tv_running v h' = tv_running v h \<and>
        tv_calls v h' = tv_calls v h \<and> tv_status v h' = tv_status v h AND NOT m)"

definition ticker_board :: "'h xttcps \<Rightarrow> 'h ticker_view \<Rightarrow> bool" where
  "ticker_board x v \<longleftrightarrow> tt_ixr_interval x \<noteq> 0 \<and> cfg_law x v \<and> connect_law x v \<and> control_law x v \<and> status_law x v \<and>
     (\<forall>w h. same_view v h (tt_set_options x w h)) \<and> (\<forall>w h. same_view v h (tt_set_interval x w h)) \<and>
     (\<forall>w h. same_view v h (tt_set_prescaler x w h))"

text \<open>
  The callback counts itself when it is called with the interrupt acknowledged; it leaves the timer
  and the interrupt controller alone. The end of an interval sets the status bit.
\<close>

definition counting_callback :: "'h ticker_view \<Rightarrow> ('h \<Rightarrow> 'h) \<Rightarrow> bool" where
  "counting_callback v f \<longleftrightarrow> (\<forall>h. tv_vector v (f h) = tv_vector v h \<and> tv_enabled v (f h) = tv_enabled v h \<and>
     tv_running v (f h) = tv_running v h \<and>
     tv_calls v (f h) = (if tv_status v h = 0 then tv_calls v h + 1 else tv_calls v h))"

definition interval_end :: "'h xttcps \<Rightarrow> 'h ticker_view \<Rightarrow> ('h \<Rightarrow> 'h) \<Rightarrow> bool" where
  "interval_end x v e \<longleftrightarrow> (\<forall>h. tv_vector v (e h) = tv_vector v h \<and> tv_enabled v (e h) = tv_enabled v h \<and>
     tv_running v (e h) = tv_running v h \<and> tv_calls v (e h) = tv_calls v h \<and>
     tv_status v (e h) = tv_status v h OR tt_ixr_interval x)"

text \<open>
  A run of the timer after its start-up: the program starts and stops it, and an interval elapses. An
  elapsed interval of a running timer with its interrupt enabled makes the processor call what is
  connected to the interrupt, with the argument given to \<open>InterruptConnect\<close>.
\<close>

datatype ttc_event = Ev_start | Ev_stop | Ev_interval

definition ttc_interrupt :: "'h xttcps \<Rightarrow> 'h ticker_view \<Rightarrow> 'h ttc \<Rightarrow> fault + 'h ttc" where
  "ttc_interrupt x v t =
     (case tv_vector v (ttc_env t) (tt_intr_id x) of
        None \<Rightarrow> Inr t
      | Some (Isr_tick_handler, p) \<Rightarrow> tick_handler x p t
      | Some (Isr_other i, p) \<Rightarrow> Inr (on_env (tt_other_isr x i) t))"

fun ttc_event_step :: "'h xttcps \<Rightarrow> 'h ticker_view \<Rightarrow> ('h \<Rightarrow> 'h) \<Rightarrow> ttc_event \<Rightarrow> 'h ttc \<Rightarrow> fault + 'h ttc" where
  "ttc_event_step x v e Ev_start t = Inr (ttcps_start x t)"
| "ttc_event_step x v e Ev_stop t = Inr (ttcps_stop x t)"
| "ttc_event_step x v e Ev_interval t =
     (if tv_running v (ttc_env t) \<and> tv_enabled v (ttc_env t) then ttc_interrupt x v (on_env e t) else Inr t)"

fun ttc_run :: "'h xttcps \<Rightarrow> 'h ticker_view \<Rightarrow> ('h \<Rightarrow> 'h) \<Rightarrow> ttc_event list \<Rightarrow> 'h ttc \<Rightarrow> fault + 'h ttc" where
  "ttc_run x v e [] t = Inr t"
| "ttc_run x v e (ev # evs) t = bind_sum (ttc_event_step x v e ev t) (ttc_run x v e evs)"

text \<open>The number of intervals that end while the timer is started.\<close>

fun ticks_due :: "bool \<Rightarrow> ttc_event list \<Rightarrow> nat" where
  "ticks_due on [] = 0"
| "ticks_due on (Ev_start # evs) = ticks_due True evs"
| "ticks_due on (Ev_stop # evs) = ticks_due False evs"
| "ticks_due on (Ev_interval # evs) = (if on then 1 else 0) + ticks_due on evs"

section \<open>Start-up\<close>

lemma setup_timer_frame:
  "TickCallback (snd (setup_timer x d t)) = TickCallback t"
  "ttcps_tick (snd (setup_timer x d t)) = ttcps_tick t"
  "OutputHz (SettingsTable (snd (setup_timer x d t))) = OutputHz (SettingsTable t)"
  "Options (SettingsTable (snd (setup_timer x d t))) = Options (SettingsTable t)"
  by (simp_all add: setup_timer_def on_env_def Let_def split_beta split: option.split)

lemma setup_timer_view:
  assumes "ticker_board x v"
  shows "tv_vector v (ttc_env (snd (setup_timer x d t))) = tv_vector v (ttc_env t)"
    and "tv_calls v (ttc_env (snd (setup_timer x d t))) = tv_calls v (ttc_env t)"
    and "fst (setup_timer x d t) \<Longrightarrow> \<not> tv_running v (ttc_env (snd (setup_timer x d t)))"
  using assms unfolding ticker_board_def cfg_law_def same_view_def
  by (simp_all add: setup_timer_def on_env_def Let_def split_beta split: option.splits if_splits)

lemma init_ttc_timer_unfold:
  "init_ttc_timer x t =
     (let t1 = t\<lparr>ttcps_tick := Some TtcPsInst,
                 SettingsTable := (SettingsTable t)\<lparr>Options := Options (SettingsTable t) OR
                   (tt_interval_mode x OR tt_wave_disable x)\<rparr>\<rparr>;
          (ok, t2) = setup_timer x (tt_device_id x) t1;
          (ok', h) = tt_interrupt_connect x (tt_intr_id x) Isr_tick_handler (Some TtcPsInst) (ttc_env t2)
      in if \<not> ok then Inr (False, t2) else if \<not> ok' then Inr (False, t2\<lparr>ttc_env := h\<rparr>)
         else Inr (True, t2\<lparr>ttc_env := tt_enable_interrupts x (tt_ixr_interval x) h\<rparr>))"
  by (simp add: init_ttc_timer_def setup_ticker_def with_instance_def on_env_def Let_def split_beta)

text \<open>
  Starting up never faults and leaves the registered callback alone; when it reports success the timer
  is stopped, its interrupt is enabled and connected to the handler with the driver instance, and when
  it reports failure nothing has been connected.
\<close>

definition ticker_up :: "'h xttcps \<Rightarrow> 'h ticker_view \<Rightarrow> 'h \<Rightarrow> bool" where
  "ticker_up x v h \<longleftrightarrow> tv_enabled v h \<and>
     tv_vector v h (tt_intr_id x) = Some (Isr_tick_handler, Some TtcPsInst)"

lemma init_ttc_timer_view:
  assumes b: "ticker_board x v"
  obtains ok t' where "init_ttc_timer x t = Inr (ok, t')"
    and "TickCallback t' = TickCallback t" and "tv_calls v (ttc_env t') = tv_calls v (ttc_env t)"
    and "ok \<Longrightarrow> ticker_up x v (ttc_env t') \<and> \<not> tv_running v (ttc_env t')"
    and "\<not> ok \<Longrightarrow> tv_vector v (ttc_env t') = tv_vector v (ttc_env t)"
proof -
  let ?t1 = "t\<lparr>ttcps_tick := Some TtcPsInst, SettingsTable := (SettingsTable t)\<lparr>Options :=
    Options (SettingsTable t) OR (tt_interval_mode x OR tt_wave_disable x)\<rparr>\<rparr>"
  obtain ok t2 where st: "setup_timer x (tt_device_id x) ?t1 = (ok, t2)" by fastforce
  have t2: "TickCallback t2 = TickCallback t" "tv_vector v (ttc_env t2) = tv_vector v (ttc_env t)"
    "tv_calls v (ttc_env t2) = tv_calls v (ttc_env t)" "ok \<Longrightarrow> \<not> tv_running v (ttc_env t2)"
    using setup_timer_frame(1) [of x "tt_device_id x" ?t1] setup_timer_view [OF b, of "tt_device_id x" ?t1]
    by (simp_all add: st)
  obtain ok' h where ic: "tt_interrupt_connect x (tt_intr_id x) Isr_tick_handler (Some TtcPsInst) (ttc_env t2)
      = (ok', h)" by fastforce
  have "connect_law x v" using b by (simp add: ticker_board_def)
  note law = this [unfolded connect_law_def, rule_format, of "tt_intr_id x" Isr_tick_handler "Some TtcPsInst" "ttc_env t2",
    unfolded ic Let_def split_conv]
  have h: "tv_vector v h = (if ok' then (tv_vector v (ttc_env t2))(tt_intr_id x \<mapsto> (Isr_tick_handler, Some TtcPsInst))
      else tv_vector v (ttc_env t2)) \<and> tv_running v h = tv_running v (ttc_env t2) \<and> tv_calls v h = tv_calls v (ttc_env t2)"
    using law by simp
  have en: "tv_vector v (tt_enable_interrupts x (tt_ixr_interval x) h) = tv_vector v h"
    "tv_running v (tt_enable_interrupts x (tt_ixr_interval x) h) = tv_running v h"
    "tv_calls v (tt_enable_interrupts x (tt_ixr_interval x) h) = tv_calls v h"
    "tv_enabled v (tt_enable_interrupts x (tt_ixr_interval x) h)"
    using b by (simp_all add: ticker_board_def control_law_def Let_def)
  have i: "init_ttc_timer x t = Inr (ok \<and> ok', if \<not> ok then t2 else if \<not> ok' then t2\<lparr>ttc_env := h\<rparr>
      else t2\<lparr>ttc_env := tt_enable_interrupts x (tt_ixr_interval x) h\<rparr>)"
    unfolding init_ttc_timer_unfold Let_def st split_conv ic by simp
  show thesis
    by (rule that [OF i]) (use t2 h en in \<open>auto simp: ticker_up_def\<close>)
qed

lemma init_ttc_timer_succeeds:
  assumes "\<forall>h. tt_lookup_config x (tt_device_id x) h \<noteq> None" "\<forall>b h. fst (tt_cfg_initialize x b h)"
    and "\<forall>i f p h. fst (tt_interrupt_connect x i f p h)" and "init_ttc_timer x t = Inr (ok, t')"
  shows ok
proof -
  obtain base where "tt_lookup_config x (tt_device_id x) (ttc_env t) = Some base" using assms(1) by blast
  then show ?thesis
    using assms(2-) by (auto simp: init_ttc_timer_unfold setup_timer_def Let_def split_beta)
qed

section \<open>Ticks\<close>

lemma start_stop_view:
  assumes "ticker_board x v"
  shows "ticker_up x v (ttc_env (ttcps_start x t)) = ticker_up x v (ttc_env t)"
    "ticker_up x v (ttc_env (ttcps_stop x t)) = ticker_up x v (ttc_env t)"
    "tv_vector v (ttc_env (ttcps_start x t)) = tv_vector v (ttc_env t)"
    "tv_vector v (ttc_env (ttcps_stop x t)) = tv_vector v (ttc_env t)"
    "tv_running v (ttc_env (ttcps_start x t))" "\<not> tv_running v (ttc_env (ttcps_stop x t))"
    "tv_calls v (ttc_env (ttcps_start x t)) = tv_calls v (ttc_env t)"
    "tv_calls v (ttc_env (ttcps_stop x t)) = tv_calls v (ttc_env t)"
    "TickCallback (ttcps_start x t) = TickCallback t" "TickCallback (ttcps_stop x t) = TickCallback t"
  using assms by (simp_all add: ttcps_start_def ttcps_stop_def on_env_def ticker_up_def ticker_board_def
      control_law_def Let_def)

lemma acknowledged: "((s :: u32) OR m) AND NOT s AND NOT m = 0"
  by (rule bit_word_eqI) (auto simp: bit_simps)

lemma tick_view:
  assumes b: "ticker_board x v" and e: "interval_end x v e" and up: "ticker_up x v (ttc_env t)"
  shows "TickCallback t = Some f \<Longrightarrow> counting_callback v f \<Longrightarrow>
      \<exists>t'. ttc_interrupt x v (on_env e t) = Inr t' \<and> TickCallback t' = TickCallback t \<and> ticker_up x v (ttc_env t') \<and>
        tv_running v (ttc_env t') = tv_running v (ttc_env t) \<and> tv_calls v (ttc_env t') = tv_calls v (ttc_env t) + 1"
    and "TickCallback t = None \<Longrightarrow> ttc_interrupt x v (on_env e t) = Inl Null_deref"
  using assms
  by (simp_all add: ticker_board_def status_law_def interval_end_def counting_callback_def ticker_up_def
      ttc_interrupt_def tick_handler_def with_instance_def on_env_def Let_def acknowledged)

lemma ttc_run_calls:
  assumes b: "ticker_board x v" and e: "interval_end x v e" and f: "counting_callback v f"
  shows "TickCallback t = Some f \<Longrightarrow> ticker_up x v (ttc_env t) \<Longrightarrow>
    \<exists>t'. ttc_run x v e evs t = Inr t' \<and>
      tv_calls v (ttc_env t') = tv_calls v (ttc_env t) + ticks_due (tv_running v (ttc_env t)) evs"
proof (induction evs arbitrary: t)
  case (Cons ev evs)
  have enabled: "tv_enabled v (ttc_env t)" using Cons.prems(2) by (simp add: ticker_up_def)
  show ?case
  proof (cases ev)
    case Ev_interval
    then show ?thesis
      using Cons.IH [of t] Cons.prems tick_view(1) [OF b e Cons.prems(2,1) f] Cons.IH enabled
      by (cases "tv_running v (ttc_env t)") (auto, force)
  qed (use Cons.IH [of "ttcps_start x t"] Cons.IH [of "ttcps_stop x t"] Cons.prems start_stop_view [OF b, of t] in auto)
qed simp

lemma ttc_run_no_callback:
  assumes b: "ticker_board x v" and e: "interval_end x v e"
  shows "TickCallback t = None \<Longrightarrow> ticker_up x v (ttc_env t) \<Longrightarrow>
    (ttc_run x v e evs t = Inl Null_deref) = (0 < ticks_due (tv_running v (ttc_env t)) evs)"
proof (induction evs arbitrary: t)
  case (Cons ev evs)
  have enabled: "tv_enabled v (ttc_env t)" using Cons.prems(2) by (simp add: ticker_up_def)
  show ?case
    using Cons.prems enabled start_stop_view [OF b, of t] tick_view(2) [OF b e Cons.prems(2,1)]
    by (cases ev) (simp_all add: Cons.IH)
qed simp

lemma ttc_run_unconnected:
  assumes b: "ticker_board x v" and e: "interval_end x v e"
  shows "tv_vector v (ttc_env t) (tt_intr_id x) = None \<Longrightarrow>
    \<exists>t'. ttc_run x v e evs t = Inr t' \<and> tv_calls v (ttc_env t') = tv_calls v (ttc_env t)"
proof (induction evs arbitrary: t)
  case (Cons ev evs)
  have "tv_vector v (ttc_env (on_env e t)) = tv_vector v (ttc_env t)" "tv_calls v (ttc_env (on_env e t)) = tv_calls v (ttc_env t)"
    using e by (simp_all add: interval_end_def on_env_def)
  then show ?case
    using Cons.prems Cons.IH [of "ttcps_start x t"] Cons.IH [of "ttcps_stop x t"] Cons.IH [of t] Cons.IH [of "on_env e t"]
      start_stop_view [OF b, of t]
    by (cases ev) (auto simp: ttc_interrupt_def)
qed simp

text \<open>
  C40: on a board whose timer driver and interrupt controller keep their documentation, and with nothing
  connected to the timer's interrupt before, \<open>init_ttc_timer\<close> returns, and with success when the device is found,
  configured and connected. After success, any sequence of starts, stops and elapsed intervals calls the
  registered callback exactly once, with the interrupt already acknowledged, for each interval that ends
  while the timer is started, and after failure never; with no callback registered the first such
  interval calls a null pointer.
\<close>
theorem ticker_calls_callback:
  assumes "ticker_board x v" and "interval_end x v e" and "tv_vector v h (tt_intr_id x) = None"
  shows "\<exists>ok t. init_ttc_timer x (register_ttc_handler cb (ttc_boot h)) = Inr (ok, t) \<and>
    ((\<forall>h. tt_lookup_config x (tt_device_id x) h \<noteq> None) \<and> (\<forall>b h. fst (tt_cfg_initialize x b h)) \<and>
       (\<forall>i f p h. fst (tt_interrupt_connect x i f p h)) \<longrightarrow> ok) \<and>
    (ok \<longrightarrow> (\<forall>f evs. cb = Some f \<and> counting_callback v f \<longrightarrow>
       (\<exists>t'. ttc_run x v e evs t = Inr t' \<and> tv_calls v (ttc_env t') = tv_calls v h + ticks_due False evs))) \<and>
    (ok \<and> cb = None \<longrightarrow> (\<forall>evs. (ttc_run x v e evs t = Inl Null_deref) = (0 < ticks_due False evs))) \<and>
    (\<not> ok \<longrightarrow> (\<forall>evs. \<exists>t'. ttc_run x v e evs t = Inr t' \<and> tv_calls v (ttc_env t') = tv_calls v h))"
proof -
  let ?t = "register_ttc_handler cb (ttc_boot h)"
  have t: "TickCallback ?t = cb" "ttc_env ?t = h" by (simp_all add: register_ttc_handler_def ttc_boot_def)
  obtain ok t' where i: "init_ttc_timer x ?t = Inr (ok, t')"
    and f: "TickCallback t' = cb" "tv_calls v (ttc_env t') = tv_calls v h"
    and up: "ok \<Longrightarrow> ticker_up x v (ttc_env t') \<and> \<not> tv_running v (ttc_env t')"
    and down: "\<not> ok \<Longrightarrow> tv_vector v (ttc_env t') = tv_vector v h"
    by (rule init_ttc_timer_view [OF assms(1), of ?t]) (simp_all add: t)
  show ?thesis
    using i f up down init_ttc_timer_succeeds [OF _ _ _ i] ttc_run_calls [OF assms(1,2), of _ t']
      ttc_run_no_callback [OF assms(1,2), of t'] ttc_run_unconnected [OF assms(1,2), of t'] assms(3)
    by (intro exI [of _ ok] exI [of _ t']) auto
qed

text \<open>A board on which the timer works, to evaluate the run on.\<close>

record demo_env =
  de_vector :: "u32 \<Rightarrow> (isr \<times> ttc_instance option) option"
  de_enabled :: bool
  de_running :: bool
  de_status :: u32
  de_calls :: nat

definition demo_view :: "demo_env ticker_view" where
  "demo_view = \<lparr>tv_vector = de_vector, tv_enabled = de_enabled, tv_running = de_running,
     tv_status = de_status, tv_calls = de_calls\<rparr>"

definition demo_ttc :: "demo_env xttcps" where
  "demo_ttc = \<lparr>tt_lookup_config = \<lambda>d h. if d = 1 then Some 0xff120000 else None,
     tt_cfg_initialize = \<lambda>b h. (True, h\<lparr>de_running := False\<rparr>),
     tt_set_options = \<lambda>w h. h, tt_calc_interval = \<lambda>f h. (50000, 0), tt_set_interval = \<lambda>w h. h,
     tt_set_prescaler = \<lambda>w h. h,
     tt_interrupt_connect = \<lambda>i f p h. (True, h\<lparr>de_vector := (de_vector h)(i \<mapsto> (f, p))\<rparr>),
     tt_enable_interrupts = \<lambda>m h. h\<lparr>de_enabled := de_enabled h \<or> m AND 1 \<noteq> 0\<rparr>,
     tt_get_status = de_status, tt_clear_status = \<lambda>m h. h\<lparr>de_status := de_status h AND NOT m\<rparr>,
     tt_start = \<lambda>h. h\<lparr>de_running := True\<rparr>, tt_stop = \<lambda>h. h\<lparr>de_running := False\<rparr>,
     tt_other_isr = \<lambda>i h. h, tt_device_id = 1, tt_intr_id = 73, tt_interval_mode = 2,
     tt_wave_disable = 32, tt_ixr_interval = 1\<rparr>"

definition demo_interval :: "demo_env \<Rightarrow> demo_env" where
  "demo_interval h = h\<lparr>de_status := de_status h OR 1\<rparr>"

definition demo_callback :: "demo_env \<Rightarrow> demo_env" where
  "demo_callback h = (if de_status h = 0 then h\<lparr>de_calls := de_calls h + 1\<rparr> else h)"

lemma demo_laws:
  "ticker_board demo_ttc demo_view" "interval_end demo_ttc demo_view demo_interval"
  "counting_callback demo_view demo_callback"
  by (simp_all add: ticker_board_def cfg_law_def connect_law_def control_law_def status_law_def same_view_def
      interval_end_def counting_callback_def demo_ttc_def demo_view_def demo_interval_def demo_callback_def)

theorem ticker_calls_callback_witness:
  "\<exists>t t'. init_ttc_timer demo_ttc (register_ttc_handler (Some demo_callback) (ttc_boot \<lparr>de_vector = \<lambda>_. None,
       de_enabled = False, de_running = False, de_status = 0, de_calls = 0\<rparr>)) = Inr (True, t) \<and>
     ttc_run demo_ttc demo_view demo_interval [Ev_interval, Ev_start, Ev_interval, Ev_interval, Ev_stop, Ev_interval] t
       = Inr t' \<and> de_calls (ttc_env t') = 2"
proof -
  let ?h = "\<lparr>de_vector = \<lambda>_. None, de_enabled = False, de_running = False, de_status = 0, de_calls = 0\<rparr>"
  let ?evs = "[Ev_interval, Ev_start, Ev_interval, Ev_interval, Ev_stop, Ev_interval]"
  have good: "(\<forall>h. tt_lookup_config demo_ttc (tt_device_id demo_ttc) h \<noteq> None) \<and>
      (\<forall>b h. fst (tt_cfg_initialize demo_ttc b h)) \<and> (\<forall>i f p h. fst (tt_interrupt_connect demo_ttc i f p h))"
    by (simp add: demo_ttc_def)
  have "tv_vector demo_view ?h (tt_intr_id demo_ttc) = None" by (simp add: demo_view_def)
  then obtain ok t where i: "init_ttc_timer demo_ttc (register_ttc_handler (Some demo_callback) (ttc_boot ?h)) = Inr (ok, t)"
    and up: "(\<forall>h. tt_lookup_config demo_ttc (tt_device_id demo_ttc) h \<noteq> None) \<and>
      (\<forall>b h. fst (tt_cfg_initialize demo_ttc b h)) \<and> (\<forall>i f p h. fst (tt_interrupt_connect demo_ttc i f p h)) \<longrightarrow> ok"
    and run: "ok \<longrightarrow> (\<forall>f evs. Some demo_callback = Some f \<and> counting_callback demo_view f \<longrightarrow>
       (\<exists>t'. ttc_run demo_ttc demo_view demo_interval evs t = Inr t' \<and>
          tv_calls demo_view (ttc_env t') = tv_calls demo_view ?h + ticks_due False evs))"
    using ticker_calls_callback [OF demo_laws(1,2), of ?h "Some demo_callback"] by blast
  have ok using up good by blast
  with run demo_laws(3) obtain t' where "ttc_run demo_ttc demo_view demo_interval ?evs t = Inr t'"
    "tv_calls demo_view (ttc_env t') = tv_calls demo_view ?h + ticks_due False ?evs" by blast
  with i \<open>ok\<close> show ?thesis by (simp add: demo_view_def)
qed

end
