(* ===== verification/EmacRecv.thy ===== *)
theory EmacRecv
  imports EmacIf
begin

text \<open>
  Draining the receive ring comes to an end: \<open>emacps_recv_handler\<close> of \<open>netif/xemacpsif_dma.c\<close> over the
  documented behaviour of the receive ring.
\<close>

section \<open>The receive ring\<close>

text \<open>
  As for the transmit ring. Frames arrive while the handler runs: \<open>pend\<close> counts the received frames that have not
  been taken back together with those that will still arrive before the handler next finds the ring empty. Taking a batch back lowers it by the
  batch, and nothing raises it. That such a finite number exists is the hypothesis: the handler loops until
  it finds the ring empty, so that traffic which fills the ring as fast as it is drained keeps it in its loop for
  ever. A descriptor that is allocated lies in the ring.
\<close>

definition rx_ring :: "'h bsp \<Rightarrow> 'h xemacps \<Rightarrow> nat \<Rightarrow> u64 \<Rightarrow> u64 \<Rightarrow> ('h \<Rightarrow> nat) \<Rightarrow> bool" where
  "rx_ring b x n base sep pend \<longleftrightarrow>
     ring_layout x RxRing n base sep \<and>
     (\<forall>h. (\<exists>k < n. snd (fst (xe_from_hw x RxRing n h)) = bd_at base sep k) \<and>
          pend (snd (xe_from_hw x RxRing n h)) + fst (fst (xe_from_hw x RxRing n h)) \<le> pend h) \<and>
     (\<forall>h bd. fst (xe_alloc x RxRing 1 h) = Some bd \<longrightarrow> (\<exists>k < n. bd = bd_at base sep k)) \<and>
     (\<forall>h. pend (snd (xe_alloc x RxRing 1 h)) \<le> pend h) \<and>
     (\<forall>h bd. pend (snd (xe_to_hw x RxRing 1 bd h)) \<le> pend h) \<and>
     (\<forall>h bd. pend (xe_unalloc x RxRing 1 bd h) \<le> pend h) \<and>
     (\<forall>h m bd. pend (snd (xe_free x RxRing m bd h)) \<le> pend h) \<and>
     (\<forall>h m. pend (snd (xe_pool_alloc x m h)) \<le> pend h) \<and>
     (\<forall>h p. pend (xe_pbuf_free x p h) \<le> pend h) \<and>
     (\<forall>h p m. pend (xe_pbuf_realloc x p m h) \<le> pend h) \<and>
     (\<forall>h p. pend (snd (xe_pq_enqueue x p h)) \<le> pend h) \<and>
     (\<forall>h a m. pend (xe_dcache_inval x a m h) \<le> pend h) \<and>
     (\<forall>h bd a v. pend (xe_bd_write x bd a v h) \<le> pend h) \<and>
     (\<forall>h a r. pend (snd (xe_read_reg x a r h)) \<le> pend h) \<and>
     (\<forall>h a r v. pend (xe_write_reg x a r v h) \<le> pend h) \<and>
     (\<forall>h a. pend (snd (xil_in32 b a h)) \<le> pend h)"

lemma rx_ring_layout: "rx_ring b x n base sep pend \<Longrightarrow> ring_layout x RxRing n base sep"
  by (simp add: rx_ring_def)

lemma rx_ring_pend:
  assumes "rx_ring b x n base sep pend"
  shows "pend (snd (xe_alloc x RxRing 1 h)) \<le> pend h" "pend (snd (xe_to_hw x RxRing 1 bd h)) \<le> pend h"
    "pend (xe_unalloc x RxRing 1 bd h) \<le> pend h" "pend (snd (xe_free x RxRing m bd h)) \<le> pend h"
    "pend (snd (xe_pool_alloc x m h)) \<le> pend h" "pend (xe_pbuf_free x p h) \<le> pend h"
    "pend (xe_pbuf_realloc x p' m h) \<le> pend h" "pend (snd (xe_pq_enqueue x p' h)) \<le> pend h"
    "pend (xe_dcache_inval x a m h) \<le> pend h" "pend (xe_bd_write x bd a v h) \<le> pend h"
    "pend (snd (xe_read_reg x a r h)) \<le> pend h" "pend (xe_write_reg x a r v h) \<le> pend h"
    "pend (snd (xil_in32 b a h)) \<le> pend h" "pend (inval_unless_coherent x em a m h) \<le> pend h"
  using assms by (simp_all add: rx_ring_def inval_unless_coherent_def)

lemma rx_from_hw_at:
  assumes "rx_ring b x n base sep pend"
  obtains m k h1 where "xe_from_hw x RxRing n h = ((m, bd_at base sep k), h1)" "k < n" "pend h1 + m \<le> pend h"
  using assms unfolding rx_ring_def by (metis prod.collapse)

text \<open>
  No slot of the interface is null, as is so once the ring has been filled. A slot may be stale: when
  no new buffer can be had, it keeps the pointer to the buffer whose frame has been taken out of the ring.
\<close>

definition rx_filled :: "emac_config \<Rightarrow> nat \<Rightarrow> emac \<Rightarrow> bool" where
  "rx_filled cfg index em \<longleftrightarrow> index + cfg_n_rx cfg \<le> length (rx_pbufs_storage em) \<and>
     (\<forall>k < cfg_n_rx cfg. rx_pbufs_storage em ! (index + k) \<noteq> None)"

section \<open>One turn\<close>

lemma recv_batch_returns:
  assumes ring: "rx_ring b x (cfg_n_rx cfg) base sep pend" and "k < cfg_n_rx cfg" and fill: "rx_filled cfg index em"
  shows "\<exists>h'. recv_batch x index n (bd_at base sep k) em h = Inr h' \<and> pend h' \<le> pend h"
  using assms(2)
proof (induction n arbitrary: k h)
  case 0
  then show ?case by simp
next
  case (Suc n)
  let ?bd = "bd_at base sep k"
  obtain p where p: "rx_pbufs_storage em ! (index + k) = Some p" "index + k < length (rx_pbufs_storage em)"
    using fill Suc.prems by (auto simp: rx_filled_def)
  define h2 where "h2 = inval_unless_coherent x em (xe_pbuf_payload x p (xe_pbuf_realloc x p (xe_bd_get_length x ?bd h) h))
      (xe_bd_get_length x ?bd h) (xe_pbuf_realloc x p (xe_bd_get_length x ?bd h) h)"
  define h4 where "h4 = (if \<not> fst (xe_pq_enqueue x p h2) then xe_pbuf_free x (Some p) (snd (xe_pq_enqueue x p h2))
      else snd (xe_pq_enqueue x p h2))"
  note le = rx_ring_pend [OF ring, THEN order.trans]
  have "pend h2 \<le> pend h" unfolding h2_def by (rule le order.refl)+
  moreover have "pend h4 \<le> pend h2" unfolding h4_def by (auto intro!: le)
  ultimately have pd: "pend h4 \<le> pend h" by (rule order.trans [rotated])
  have nx: "xe_next x RxRing ?bd h4 = bd_at base sep (Suc k mod cfg_n_rx cfg)"
    using rx_ring_layout [OF ring] Suc.prems by (simp add: ring_layout_def)
  have "recv_batch x index (Suc n) ?bd em h = recv_batch x index n (bd_at base sep (Suc k mod cfg_n_rx cfg)) em h4"
    unfolding nx [symmetric] h4_def h2_def
    using p by (simp add: bd_index_at [OF rx_ring_layout [OF ring] Suc.prems] slot_get_def Let_def split_beta)
  then show ?case using Suc.IH [of "Suc k mod cfg_n_rx cfg" h4] Suc.prems pd by (auto intro: order.trans)
qed

lemma setup_rx_loop_returns:
  assumes ring: "rx_ring b x (cfg_n_rx cfg) base sep pend" and "rx_filled cfg index em"
  shows "\<exists>em' h'. setup_rx_loop x cfg index n em h = Inr (em', h') \<and> pend h' \<le> pend h \<and>
    rx_filled cfg index em' \<and> em_base em' = em_base em"
  using assms(2)
proof (induction n arbitrary: em h)
  case 0
  then show ?case by simp
next
  case (Suc n)
  note pd = rx_ring_pend [OF ring]
  obtain po h1 where a: "xe_pool_alloc x (cfg_max_frame cfg) h = (po, h1)" by fastforce
  obtain bdo h2 where c: "xe_alloc x RxRing 1 h1 = (bdo, h2)" by fastforce
  have p12: "pend h1 \<le> pend h" "pend h2 \<le> pend h"
    using pd(5) [of "cfg_max_frame cfg" h] pd(1) [of h1] a c by simp_all
  show ?case
  proof (cases "po = None \<or> bdo = None")
    case True
    have "pend (xe_pbuf_free x po h2) \<le> pend h" by (rule order.trans [OF pd(6) p12(2)])
    then show ?thesis using True Suc.prems p12 by (auto simp: a c [simplified] split: option.splits)
  next
    case False
    then obtain p bd where s: "po = Some p" "bdo = Some bd" by auto
    obtain k where k: "k < cfg_n_rx cfg" "bd = bd_at base sep k"
      using ring c s unfolding rx_ring_def by (metis fst_conv)
    obtain ok h3 where t: "xe_to_hw x RxRing 1 bd h2 = (ok, h3)" by fastforce
    have p3: "pend h3 \<le> pend h" using pd(2) [of bd h2] t p12 by simp
    let ?em = "em\<lparr>rx_pbufs_storage := (rx_pbufs_storage em)[index + k := Some p]\<rparr>"
    have f: "rx_filled cfg index ?em" "index + k < length (rx_pbufs_storage em)"
      using Suc.prems k by (auto simp: rx_filled_def nth_list_update)
    show ?thesis
    proof (cases ok)
      case True
      let ?pay = "xe_pbuf_payload x p h3"
      define h7 where "h7 = xe_bd_write x bd 0 (ucast (if k = cfg_n_rx cfg - 1 then ?pay OR cfg_rxbuf_wrap cfg else ?pay))
        (xe_bd_write x bd (cfg_bd_addr_hi cfg) (ucast (drop_bit 32 ?pay))
          (xe_bd_write x bd 4 0 (inval_unless_coherent x em ?pay (cfg_max_frame cfg) h3)))"
      have "XEMACPS_BD_TO_INDEX x RxRing bd h' = k" for h'
        unfolding k(2) by (rule bd_index_at [OF rx_ring_layout [OF ring] k(1)])
      then have "setup_rx_loop x cfg index (Suc n) em h = setup_rx_loop x cfg index n ?em h7"
        using True f(2) by (simp add: a c [simplified] s t [simplified] Let_def h7_def)
      moreover have "pend h7 \<le> pend h"
        unfolding h7_def by (rule order.trans [OF pd(10)] order.trans [OF pd(14)] p3)+
      ultimately show ?thesis using Suc.IH [OF f(1), of h7] by (auto intro: order.trans)
    next
      case False
      have "pend (xe_unalloc x RxRing 1 bd (xe_pbuf_free x (Some p) h3)) \<le> pend h"
        by (rule order.trans [OF pd(3)] order.trans [OF pd(6)] p3)+
      then show ?thesis using False Suc.prems by (simp add: a c [simplified] s t [simplified] Let_def)
    qed
  qed
qed


lemma base_index_same: "em_base em' = em_base em \<Longrightarrow>
    get_base_index_rxpbufsstorage cfg em' = get_base_index_rxpbufsstorage cfg em"
  by (simp add: get_base_index_rxpbufsstorage_def)

lemma setup_rx_no_buffer:
  assumes "\<forall>h. fst (xe_pool_alloc x (cfg_max_frame cfg) h) = None" and "setup_rx_loop x cfg index n em h = Inr (em', h')"
  shows "rx_pbufs_storage em' = rx_pbufs_storage em"
proof (cases n)
  case (Suc k)
  obtain h1 where "xe_pool_alloc x (cfg_max_frame cfg) h = (None, h1)" using assms(1) by (metis prod.collapse)
  then show ?thesis using assms(2) Suc by simp
qed (use assms(2) in simp)

text \<open>One turn of the loop either finds nothing received, or takes a batch back and has less left.\<close>

definition same_slots_if_starved :: "'h xemacps \<Rightarrow> emac_config \<Rightarrow> emac \<Rightarrow> emac \<Rightarrow> bool" where
  "same_slots_if_starved x cfg em em' \<longleftrightarrow>
     ((\<forall>h. fst (xe_pool_alloc x (cfg_max_frame cfg) h) = None) \<longrightarrow> rx_pbufs_storage em' = rx_pbufs_storage em)"

lemma recv_turn_progress:
  assumes ring: "rx_ring b x (cfg_n_rx cfg) base sep pend"
    and index: "get_base_index_rxpbufsstorage cfg em = Inr index" and fill: "rx_filled cfg index em"
  shows "(\<exists>bd h1. recv_turn x cfg index (em, h) = Inl (Inr (em, h1)) \<and> xe_from_hw x RxRing (cfg_n_rx cfg) h = ((0, bd), h1)) \<or>
    (\<exists>em2 h2. recv_turn x cfg index (em, h) = Inr (em2, h2) \<and> pend h2 < pend h \<and>
       rx_filled cfg index em2 \<and> em_base em2 = em_base em \<and> same_slots_if_starved x cfg em em2)"
proof -
  obtain m k h1 where g: "xe_from_hw x RxRing (cfg_n_rx cfg) h = ((m, bd_at base sep k), h1)" "k < cfg_n_rx cfg"
    and pd: "pend h1 + m \<le> pend h"
    by (rule rx_from_hw_at [OF ring])
  show ?thesis
  proof (cases "m = 0")
    case True
    then show ?thesis using g(1) by (auto simp: recv_turn_def)
  next
    case False
    obtain h2 where b: "recv_batch x index m (bd_at base sep k) em h1 = Inr h2" "pend h2 \<le> pend h1"
      using recv_batch_returns [OF ring g(2) fill] by blast
    let ?h3 = "snd (xe_free x RxRing m (bd_at base sep k) h2)"
    obtain em2 h4 where l: "setup_rx_loop x cfg index (xe_free_cnt x RxRing ?h3) em ?h3 = Inr (em2, h4)" "pend h4 \<le> pend ?h3"
      "rx_filled cfg index em2" "em_base em2 = em_base em"
      using setup_rx_loop_returns [OF ring fill] by blast
    then have "setup_rx_bds x cfg em ?h3 = Inr (em2, h4)" using index by (simp add: setup_rx_bds_def)
    moreover have "same_slots_if_starved x cfg em em2"
      using setup_rx_no_buffer [OF _ l(1)] by (simp add: same_slots_if_starved_def)
    moreover have "pend h4 < pend h"
      using False pd b(2) l(2) rx_ring_pend(4) [OF ring, of m "bd_at base sep k" h2] by linarith
    ultimately show ?thesis using False b(1) l(3,4) by (simp add: recv_turn_def g(1))
  qed
qed

section \<open>The handler\<close>

lemma recv_runs_out:
  assumes ring: "rx_ring b x (cfg_n_rx cfg) base sep pend"
    and index: "get_base_index_rxpbufsstorage cfg em = Inr index" and fill: "rx_filled cfg index em"
  shows "\<exists>em' h' h0 bd. forever (recv_turn x cfg index) (em, h) = Some (Inr (em', h')) \<and>
    xe_from_hw x RxRing (cfg_n_rx cfg) h0 = ((0, bd), h') \<and> rx_filled cfg index em' \<and> same_slots_if_starved x cfg em em'"
proof -
  let ?P = "\<lambda>s. rx_filled cfg index (fst s) \<and> em_base (fst s) = em_base em \<and> same_slots_if_starved x cfg em (fst s)"
  let ?Q = "\<lambda>r. \<exists>em' h' h0 bd. r = Inr (em', h') \<and> xe_from_hw x RxRing (cfg_n_rx cfg) h0 = ((0, bd), h') \<and>
    rx_filled cfg index em' \<and> same_slots_if_starved x cfg em em'"
  have "\<exists>r. forever (recv_turn x cfg index) (em, h) = Some r \<and> ?Q r"
  proof (rule forever_total [where P = ?P and m = "\<lambda>s. pend (snd s)"])
    fix s :: "emac \<times> 'a" assume P: "?P s"
    obtain e h0 where s: "s = (e, h0)" by (cases s)
    have "get_base_index_rxpbufsstorage cfg e = Inr index" using P index base_index_same [of e em cfg] by (simp add: s)
    note t = recv_turn_progress [OF ring this, of h0]
    show "?P s' \<and> pend (snd s') < pend (snd s)" if "recv_turn x cfg index s = Inr s'" for s'
      using t P that by (auto simp: s same_slots_if_starved_def)
    show "?Q r" if "recv_turn x cfg index s = Inl r" for r
      using t P that by (auto simp: s)
  qed (use fill in \<open>simp add: same_slots_if_starved_def\<close>)
  then show ?thesis by blast
qed

lemma recv_handler_drains:
  assumes ring: "rx_ring b x (cfg_n_rx cfg) base sep pend"
    and index: "get_base_index_rxpbufsstorage cfg em = Inr index" and fill: "rx_filled cfg index em"
  shows "\<exists>em' h' h0 bd. emacps_recv_handler b x cfg em h = Some (Inr (em', h')) \<and>
    xe_from_hw x RxRing (cfg_n_rx cfg) h0 = ((0, bd), h') \<and> rx_filled cfg index em' \<and>
    ((\<forall>k. fst (xe_pool_alloc x (cfg_max_frame cfg) k) = None) \<longrightarrow> rx_pbufs_storage em' = rx_pbufs_storage em)"
proof -
  define em1 where "em1 v = em\<lparr>last_rx_frms_cntr := v\<rparr>" for v
  have e: "get_base_index_rxpbufsstorage cfg (em1 v) = Inr index" "rx_filled cfg index (em1 v)"
    "rx_pbufs_storage (em1 v) = rx_pbufs_storage em" for v
    using index fill base_index_same [of "em1 v" em cfg] by (simp_all add: em1_def rx_filled_def)
  have "\<exists>v h4. emacps_recv_handler b x cfg em h = forever (recv_turn x cfg index) (em1 v, h4)"
  proof -
    obtain g h1 where g: "gigeversion b em h = (g, h1)" by fastforce
    obtain r h2 where r: "xe_read_reg x (em_base em) RXSR h1 = (r, h2)" by fastforce
    let ?h3 = "xe_write_reg x (em_base em) RXSR r h2"
    obtain v where "fst (resetrx_on_no_rxdata b x cfg em ?h3) = em1 v"
      using resetrx_effects [of b x cfg em ?h3] by (auto simp: em1_def)
    then obtain h4 where "resetrx_on_no_rxdata b x cfg em ?h3 = (em1 v, h4)" by (metis prod.collapse)
    moreover have "em = em1 (last_rx_frms_cntr em)" by (simp add: em1_def)
    ultimately show ?thesis
      by (cases "g \<le> 2") (simp add: emacps_recv_handler_def g r index Let_def; metis)+
  qed
  then obtain v h4 where "emacps_recv_handler b x cfg em h = forever (recv_turn x cfg index) (em1 v, h4)" by blast
  then show ?thesis
    using recv_runs_out [OF ring e(1,2), of v h4] unfolding same_slots_if_starved_def e(3) by metis
qed

text \<open>
  C22: the receive interrupt comes to an end. With the ring as documented, only finitely many frames arriving
  while the handler runs, and no slot of the interface null, the handler returns without a fault for every number of received frames, whether
  or not new buffers can be had and the queue takes the frames; its last look at the ring found nothing, and no
  slot is null, so that the next interrupt does not read a null pointer either. When no buffers can be
  had at all, the slots are exactly those from before: the code leaves in them the pointers to buffers
  that it has handed to the queue or freed.
\<close>
theorem recv_handler_completes:
  assumes ring: "rx_ring b x (cfg_n_rx cfg) base sep pend"
    and index: "get_base_index_rxpbufsstorage cfg em = Inr index" and fill: "rx_filled cfg index em"
  shows "\<exists>em' h' h0 bd. emacps_recv_handler b x cfg em h = Some (Inr (em', h')) \<and>
    xe_from_hw x RxRing (cfg_n_rx cfg) h0 = ((0, bd), h') \<and> rx_filled cfg index em' \<and>
    ((\<forall>k. fst (xe_pool_alloc x (cfg_max_frame cfg) k) = None) \<longrightarrow> rx_pbufs_storage em' = rx_pbufs_storage em)"
  by (rule recv_handler_drains [OF assms])

text \<open>A controller with two frames received; every descriptor handed out is the first of the ring.\<close>

definition rsim_ops :: "esim xemacps" where
  "rsim_ops = esim_ops\<lparr>xe_from_hw := (\<lambda>g n h. ((es_cnt h, 0), h\<lparr>es_cnt := 0\<rparr>)), xe_free_cnt := (\<lambda>g h. 2),
     xe_alloc := (\<lambda>g n h. (Some 0, h)), xe_to_hw := (\<lambda>g n bd h. (True, h)), xe_pool_alloc := (\<lambda>n h. (Some 9, h))\<rparr>"

lemma rsim_ring: "rx_ring esim_bsp rsim_ops 4 0 64 es_cnt"
proof -
  have "xe_next rsim_ops RxRing (bd_at 0 64 k) h = bd_at 0 64 (Suc k mod 4)" if "k < 4" for k h
    using tx_ring_layout [OF esim_ring] that by (simp add: ring_layout_def rsim_ops_def esim_ops_def)
  moreover have "\<exists>k < 4. 0 = bd_at 0 64 k" by (intro exI [of _ 0]) (simp add: bd_at_def)
  ultimately show ?thesis
    unfolding rx_ring_def ring_layout_def by (auto simp: rsim_ops_def esim_ops_def esim_bsp_def)
qed

theorem recv_handler_completes_witness:
  "\<exists>em' h'. emacps_recv_handler esim_bsp rsim_ops esim_cfg (esim_em\<lparr>rx_pbufs_storage := replicate 16 (Some 3)\<rparr>)
      (esim0\<lparr>es_cnt := 2\<rparr>) = Some (Inr (em', h')) \<and> es_cnt h' = 0"
proof -
  let ?em = "esim_em\<lparr>rx_pbufs_storage := replicate 16 (Some 3)\<rparr>"
  have "rx_ring esim_bsp rsim_ops (cfg_n_rx esim_cfg) 0 64 es_cnt" using rsim_ring by (simp add: esim_cfg_def)
  moreover have "get_base_index_rxpbufsstorage esim_cfg ?em = Inr 0"
    by (simp add: get_base_index_rxpbufsstorage_def esim_cfg_def esim_em_def)
  moreover have "rx_filled esim_cfg 0 ?em" by (simp add: rx_filled_def esim_cfg_def)
  ultimately obtain em' h' h0 bd where r: "emacps_recv_handler esim_bsp rsim_ops esim_cfg ?em (esim0\<lparr>es_cnt := 2\<rparr>) =
      Some (Inr (em', h'))" "xe_from_hw rsim_ops RxRing (cfg_n_rx esim_cfg) h0 = ((0, bd), h')"
    using recv_handler_completes [of esim_bsp rsim_ops esim_cfg 0 64 es_cnt ?em 0] by blast
  from r(2) have "es_cnt h' = 0" by (auto simp: rsim_ops_def)
  with r(1) show ?thesis by blast
qed

end
