(* ===== verification/EmacSafe.thy ===== *)
theory EmacSafe
  imports EmacRecv EmacSetup
begin

text \<open>
  Type safety of the Ethernet driver: the shape of its statics (the two arrays of buffer pointers and the
  interface's part in them), that every event keeps it and none stops with a fault or runs on for ever,
  that setting the rings up establishes it, and what error recovery releases (\<open>xemacpsif_dma.c\<close>, \<open>xemacpsif.c\<close>).
\<close>

section \<open>Well-formed driver state\<close>

text \<open>
  The arrays have four parts, one for each interface the controller can have, and the interface's base
  address is one of those the design defines. Every slot of the receive part holds a buffer.
\<close>

definition emac_typed :: "emac_config \<Rightarrow> emac \<Rightarrow> bool" where
  "emac_typed cfg em \<longleftrightarrow>
     length (tx_pbufs_storage em) = 4 * cfg_n_tx cfg \<and> length (rx_pbufs_storage em) = 4 * cfg_n_rx cfg \<and>
     length (cfg_bases cfg) \<le> 4 \<and> Some (em_base em) \<in> set (cfg_bases cfg)"

definition rx_slots_filled :: "emac_config \<Rightarrow> emac \<Rightarrow> bool" where
  "rx_slots_filled cfg em \<longleftrightarrow>
     (\<exists>index. get_base_index_rxpbufsstorage cfg em = Inr index \<and> rx_filled cfg index em)"

lemma base_index_range:
  assumes "Some a \<in> set cs"
  shows "\<exists>j < length cs. base_index n k cs a i = Some ((k + j) * n)"
  using assms
proof (induction cs arbitrary: k i)
  case (Cons c cs)
  show ?case
  proof (cases "Some a \<in> set cs")
    case True
    then obtain j where "j < length cs"
      "base_index n (Suc k) cs a (if c = Some a then Some (k * n) else i) = Some ((Suc k + j) * n)"
      using Cons.IH by blast
    then show ?thesis by (intro exI [of _ "Suc j"]) simp
  next
    case False
    then have "\<forall>c \<in> set cs. c \<noteq> Some a" by metis
    then show ?thesis using Cons.prems False by (intro exI [of _ 0]) (simp add: base_index_last)
  qed
qed simp

lemma typed_tx_index:
  assumes "emac_typed cfg em"
  obtains index where "get_base_index_txpbufsstorage cfg em = Inr index"
    "index + cfg_n_tx cfg \<le> length (tx_pbufs_storage em)"
proof -
  obtain j where j: "j < length (cfg_bases cfg)"
    "base_index (cfg_n_tx cfg) 0 (cfg_bases cfg) (em_base em) None = Some (j * cfg_n_tx cfg)"
    using base_index_range [of "em_base em" "cfg_bases cfg" "cfg_n_tx cfg" 0 None] assms by (auto simp: emac_typed_def)
  have "Suc j * cfg_n_tx cfg \<le> 4 * cfg_n_tx cfg"
    using j(1) assms by (intro mult_le_mono1) (simp add: emac_typed_def)
  then show thesis using j that assms by (simp add: get_base_index_txpbufsstorage_def emac_typed_def)
qed


section \<open>What the transmit and the receive path leave alone\<close>

definition tx_frame :: "emac \<Rightarrow> nat \<times> nat option list \<times> u64" where
  "tx_frame em = (length (tx_pbufs_storage em), rx_pbufs_storage em, em_base em)"

definition rx_frame :: "emac \<Rightarrow> nat option list \<times> nat \<times> u64" where
  "rx_frame em = (tx_pbufs_storage em, length (rx_pbufs_storage em), em_base em)"

lemma tx_frame_update [simp]: "tx_frame (em\<lparr>tx_pbufs_storage := (tx_pbufs_storage em)[i := v]\<rparr>) = tx_frame em"
  by (simp add: tx_frame_def)

lemma rx_frame_update [simp]:
  "rx_frame (em\<lparr>rx_pbufs_storage := (rx_pbufs_storage em)[i := v]\<rparr>) = rx_frame em"
  "rx_frame (em\<lparr>last_rx_frms_cntr := c\<rparr>) = rx_frame em"
  by (simp_all add: rx_frame_def)

lemma sent_loop_frame: "sent_loop x cfg index n bd em h = Inr (em', h') \<Longrightarrow> tx_frame em' = tx_frame em"
proof (induction n arbitrary: bd em h)
  case (Suc n)
  then obtain bd' i h3 where
    "sent_loop x cfg index n bd' (em\<lparr>tx_pbufs_storage := (tx_pbufs_storage em)[i := None]\<rparr>) h3 = Inr (em', h')"
    by (auto simp: Let_def bind_sum_Inr_iff)
  from Suc.IH [OF this] show ?case by simp
qed simp

lemma sgsend_loop_frame:
  "sgsend_loop x cfg index qs bd lst em h = Inr (r, em', h') \<Longrightarrow> tx_frame em' = tx_frame em"
proof (induction qs arbitrary: bd lst em h)
  case (Cons q qs)
  let ?i = "index + XEMACPS_BD_TO_INDEX x TxRing bd h"
  have i: "slot_get (tx_pbufs_storage em) ?i = Inr (tx_pbufs_storage em ! ?i)"
    using Cons.prems by (auto simp: Let_def bind_sum_Inr_iff slot_get_Inr)
  show ?case
  proof (cases "tx_pbufs_storage em ! ?i")
    case None
    then obtain bd' lst' h5 where
      "sgsend_loop x cfg index qs bd' lst' (em\<lparr>tx_pbufs_storage := (tx_pbufs_storage em)[?i := Some q]\<rparr>) h5 = Inr (r, em', h')"
      using Cons.prems i by (auto simp: Let_def)
    from Cons.IH [OF this] show ?thesis by simp
  qed (use Cons.prems i in \<open>simp add: Let_def\<close>)
qed simp

lemma free_tx_loop_frame: "free_tx_loop x js em h = Inr (em', h') \<Longrightarrow> tx_frame em' = tx_frame em"
  by (induction js arbitrary: em h) (auto simp: bind_sum_Inr_iff split: if_splits)

lemma setup_rx_loop_frame: "setup_rx_loop x cfg index n em h = Inr (em', h') \<Longrightarrow> rx_frame em' = rx_frame em"
proof (induction n arbitrary: em h)
  case (Suc n)
  obtain po h1 where a: "xe_pool_alloc x (cfg_max_frame cfg) h = (po, h1)" by fastforce
  obtain bdo h2 where c: "xe_alloc x RxRing (Suc 0) h1 = (bdo, h2)" by fastforce
  show ?case
  proof (cases "po = None \<or> bdo = None")
    case False
    then obtain p bd where s: "po = Some p" "bdo = Some bd" by auto
    obtain ok h3 where t: "xe_to_hw x RxRing (Suc 0) bd h2 = (ok, h3)" by fastforce
    show ?thesis
    proof (cases ok)
      case True
      then obtain i h7 where
        "setup_rx_loop x cfg index n (em\<lparr>rx_pbufs_storage := (rx_pbufs_storage em)[i := Some p]\<rparr>) h7 = Inr (em', h')"
        using Suc.prems by (auto simp: a c s t Let_def split: if_splits)
      from Suc.IH [OF this] show ?thesis by simp
    qed (use Suc.prems in \<open>simp add: a c s t Let_def\<close>)
  qed (use Suc.prems in \<open>auto simp: a c split: option.splits\<close>)
qed simp

text \<open>The loops until the ring is empty.\<close>

lemma process_sent_frame:
  assumes "process_sent_bds x cfg em h = Some (Inr (em', h'))"
  shows "tx_frame em' = tx_frame em"
proof -
  let ?P = "\<lambda>s. tx_frame (fst s) = tx_frame em"
  let ?Q = "\<lambda>r. \<forall>s. r = Inr s \<longrightarrow> ?P s"
  obtain index where "forever (sent_turn x cfg index) (em, h) = Some (Inr (em', h'))"
    using assms by (auto simp: process_sent_bds_def split: sum.splits)
  then have "?Q (Inr (em', h') :: fault + (emac \<times> 'a))"
    by (rule forever_keeps [where P = ?P])
      (auto simp: sent_turn_def Let_def split_beta split: if_splits sum.splits dest!: sent_loop_frame)
  then show ?thesis by simp
qed

lemma recv_handler_frame:
  assumes "emacps_recv_handler b x cfg em h = Some (Inr (em', h'))"
  shows "rx_frame em' = rx_frame em"
proof -
  let ?P = "\<lambda>s. rx_frame (fst s) = rx_frame em"
  let ?Q = "\<lambda>r. \<forall>s. r = Inr s \<longrightarrow> ?P s"
  obtain index v h4 where l: "forever (recv_turn x cfg index) (em\<lparr>last_rx_frms_cntr := v\<rparr>, h4) = Some (Inr (em', h'))"
  proof -
    obtain index where ix: "get_base_index_rxpbufsstorage cfg em = Inr index"
      using assms by (auto simp: emacps_recv_handler_def split_beta split: sum.splits)
    define h3 where "h3 = (let h1 = snd (gigeversion b em h) in
      xe_write_reg x (em_base em) RXSR (fst (xe_read_reg x (em_base em) RXSR h1)) (snd (xe_read_reg x (em_base em) RXSR h1)))"
    obtain v where v: "fst (resetrx_on_no_rxdata b x cfg em h3) = em\<lparr>last_rx_frms_cntr := v\<rparr>"
      using resetrx_effects [of b x cfg em h3] by auto
    define s where "s = (if fst (gigeversion b em h) \<le> 2 then resetrx_on_no_rxdata b x cfg em h3 else (em, h3))"
    have "\<exists>v. fst s = em\<lparr>last_rx_frms_cntr := v\<rparr>"
      using v by (auto simp: s_def intro: exI [of _ "last_rx_frms_cntr em"])
    moreover have "forever (recv_turn x cfg index) s = Some (Inr (em', h'))"
      using assms ix unfolding s_def h3_def Let_def
      by (simp add: emacps_recv_handler_def Let_def split_beta split del: if_split)
    ultimately show thesis using that by (metis prod.collapse)
  qed
  from l have "?Q (Inr (em', h') :: fault + (emac \<times> 'a))"
    by (rule forever_keeps [where P = ?P])
      (auto simp: recv_turn_def setup_rx_bds_def Let_def split_beta bind_sum_Inr_iff split: if_splits sum.splits
        dest!: setup_rx_loop_frame)
  then show ?thesis by simp
qed


section \<open>Every operation returns\<close>

text \<open>
  The rings as documented, a descriptor that is allocated lies in its ring, and a chain of buffers starts
  with the buffer it is asked for. The predicate speaks of the time between two creations of the rings: the
  states \<open>'h\<close> are those in which the rings lie where \<open>XEmacPs_BdRingCreate\<close> last put them. None of the events
  of a run creates a ring; \<open>init_dma\<close> and the recovery do, and are treated without this predicate below.
\<close>

definition driver_rings :: "'h bsp \<Rightarrow> 'h xemacps \<Rightarrow> emac_config \<Rightarrow> bool" where
  "driver_rings b x cfg \<longleftrightarrow>
     (\<exists>base sep pend. tx_ring x (cfg_n_tx cfg) base sep pend \<and>
        (\<forall>n h bd. fst (xe_alloc x TxRing n h) = Some bd \<longrightarrow> (\<exists>k < cfg_n_tx cfg. bd = bd_at base sep k))) \<and>
     (\<exists>base sep pend. rx_ring b x (cfg_n_rx cfg) base sep pend) \<and>
     (\<forall>p h. xe_pbuf_chain x p h \<noteq> [])"

lemma sgsend_loop_returns:
  assumes ring: "ring_layout x TxRing (cfg_n_tx cfg) base sep"
    and "k < cfg_n_tx cfg" and "index + cfg_n_tx cfg \<le> length (tx_pbufs_storage em)"
  shows "\<exists>d em' h'. sgsend_loop x cfg index qs (bd_at base sep k) lst em h = Inr (d, em', h') \<and>
    (qs \<noteq> [] \<or> lst \<noteq> None \<longrightarrow> d \<noteq> Some None)"
  using assms(2,3)
proof (induction qs arbitrary: k lst em h)
  case (Cons q qs)
  let ?bd = "bd_at base sep k"
  have i: "index + k < length (tx_pbufs_storage em)" using Cons.prems by simp
  note at = bd_index_at [OF ring Cons.prems(1)]
  show ?case
  proof (cases "tx_pbufs_storage em ! (index + k)")
    case None
    define h1 where "h1 = (if \<not> em_coherent em
      then xe_dcache_flush x (xe_pbuf_payload x q h) (unat (xe_pbuf_len x q h)) h else h)"
    define h2 where "h2 = xe_bd_set_address_tx x ?bd (xe_pbuf_payload x q h1) h1"
    define h3 where "h3 = xe_bd_set_length x ?bd (if unat (xe_pbuf_len x q h2) > cfg_max_frame cfg - 18
      then of_nat (cfg_max_frame cfg - 18) AND 0x3FFF else ucast (xe_pbuf_len x q h2) AND 0x3FFF) h2"
    define h5 where "h5 = xe_bd_clear_last x ?bd (xe_pbuf_ref x q h3)"
    let ?em = "em\<lparr>tx_pbufs_storage := (tx_pbufs_storage em)[index + k := Some q]\<rparr>"
    have nx: "xe_next x TxRing ?bd h5 = bd_at base sep (Suc k mod cfg_n_tx cfg)"
      using ring Cons.prems(1) by (simp add: ring_layout_def)
    have "sgsend_loop x cfg index (q # qs) ?bd lst em h =
        sgsend_loop x cfg index qs (bd_at base sep (Suc k mod cfg_n_tx cfg)) (Some ?bd) ?em h5"
      unfolding nx [symmetric] h5_def h3_def h2_def h1_def
      using i None by (simp add: at slot_get_def Let_def)
    then show ?thesis
      using Cons.IH [of "Suc k mod cfg_n_tx cfg" ?em "Some ?bd" h5] Cons.prems by simp
  qed (use i in \<open>simp add: at slot_get_def Let_def\<close>)
qed simp

lemma sgsend_returns:
  assumes rings: "driver_rings b x cfg" and typed: "emac_typed cfg em"
  shows "\<exists>ok em' h'. emacps_sgsend x cfg p em h = Inr (ok, em', h') \<and> tx_frame em' = tx_frame em"
proof -
  obtain base sep pend where ring: "tx_ring x (cfg_n_tx cfg) base sep pend"
    and al: "\<forall>n h bd. fst (xe_alloc x TxRing n h) = Some bd \<longrightarrow> (\<exists>k < cfg_n_tx cfg. bd = bd_at base sep k)"
    and ch: "xe_pbuf_chain x p h \<noteq> []"
    using rings unfolding driver_rings_def by blast
  obtain index where ix: "get_base_index_txpbufsstorage cfg em = Inr index"
    "index + cfg_n_tx cfg \<le> length (tx_pbufs_storage em)"
    by (rule typed_tx_index [OF typed])
  let ?qs = "xe_pbuf_chain x p h"
  obtain bds h1 where a: "xe_alloc x TxRing (length ?qs) h = (bds, h1)" by fastforce
  show ?thesis
  proof (cases bds)
    case None
    then show ?thesis by (auto simp: emacps_sgsend_def ix a)
  next
    case (Some bd)
    then have "fst (xe_alloc x TxRing (length ?qs) h) = Some bd" by (simp add: a)
    with al obtain k where k: "k < cfg_n_tx cfg" "bd = bd_at base sep k" by blast
    obtain d em' h' where l: "sgsend_loop x cfg index ?qs bd None em h1 = Inr (d, em', h')" "d \<noteq> Some None"
      using sgsend_loop_returns [OF tx_ring_layout [OF ring] k(1) ix(2), of ?qs None h1] ch k(2) by blast
    have "tx_frame em' = tx_frame em" by (rule sgsend_loop_frame [OF l(1)])
    then show ?thesis
      using l by (auto simp: emacps_sgsend_def ix a Some Let_def split_beta split: option.splits)
  qed
qed

lemma sgsend_frame:
  assumes "emacps_sgsend x cfg p em h = Inr (ok, em', h')"
  shows "tx_frame em' = tx_frame em"
  using assms
  by (auto simp: emacps_sgsend_def bind_sum_Inr_iff Let_def split_beta dest!: sgsend_loop_frame split: option.splits)

lemma emac_typed_tx: "emac_typed cfg em \<Longrightarrow> tx_frame em' = tx_frame em \<Longrightarrow> emac_typed cfg em'"
  by (simp add: emac_typed_def tx_frame_def)

lemma emac_typed_rx: "emac_typed cfg em \<Longrightarrow> rx_frame em' = rx_frame em \<Longrightarrow> emac_typed cfg em'"
  by (simp add: emac_typed_def rx_frame_def)

lemma rx_slots_tx: "rx_slots_filled cfg em \<Longrightarrow> tx_frame em' = tx_frame em \<Longrightarrow> rx_slots_filled cfg em'"
  by (simp add: rx_slots_filled_def rx_filled_def get_base_index_rxpbufsstorage_def tx_frame_def)

lemma process_sent_returns:
  assumes rings: "driver_rings b x cfg" and typed: "emac_typed cfg em"
  shows "\<exists>em' h'. process_sent_bds x cfg em h = Some (Inr (em', h')) \<and> tx_frame em' = tx_frame em"
proof -
  obtain base sep pend where ring: "tx_ring x (cfg_n_tx cfg) base sep pend"
    using rings unfolding driver_rings_def by blast
  obtain index where ix: "get_base_index_txpbufsstorage cfg em = Inr index"
    "index + cfg_n_tx cfg \<le> length (tx_pbufs_storage em)"
    by (rule typed_tx_index [OF typed])
  obtain em' h' where "process_sent_bds x cfg em h = Some (Inr (em', h'))"
    using sent_runs_out [OF ring ix(2), of h] by (auto simp: process_sent_bds_def ix)
  then show ?thesis using process_sent_frame [of x cfg em h em' h'] by simp
qed

lemma low_level_output_returns:
  assumes rings: "driver_rings b x cfg" and typed: "emac_typed cfg em"
  shows "\<exists>e em' h'. low_level_output x cfg p em h = Some (Inr (e, em', h')) \<and> tx_frame em' = tx_frame em"
proof -
  obtain em1 h1 where s: "(if is_tx_space_available x h \<le> 5 then process_sent_bds x cfg em h else Some (Inr (em, h))) =
      Some (Inr (em1, h1))" and f: "tx_frame em1 = tx_frame em"
    using process_sent_returns [OF rings typed, of h] by (cases "is_tx_space_available x h \<le> 5") auto
  obtain ok em2 h2 where "emacps_sgsend x cfg p em1 h1 = Inr (ok, em2, h2)" "tx_frame em2 = tx_frame em1"
    using sgsend_returns [OF rings emac_typed_tx [OF typed f]] by blast
  then show ?thesis
    using f by (simp add: low_level_output_def s unbuffered_low_level_output_def)
qed

lemma free_tx_loop_returns:
  "\<forall>i \<in> set js. i < length (tx_pbufs_storage em) \<Longrightarrow> \<exists>em' h'. free_tx_loop x js em h = Inr (em', h')"
  by (induction js arbitrary: em h) (simp_all add: slot_get_def)

lemma HandleTxErrors_returns:
  assumes typed: "emac_typed cfg em"
  shows "\<exists>em' h'. HandleTxErrors x cfg em h = Inr (em', h') \<and> tx_frame em' = tx_frame em"
proof -
  obtain index where ix: "get_base_index_txpbufsstorage cfg em = Inr index"
    "index + cfg_n_tx cfg \<le> length (tx_pbufs_storage em)"
    by (rule typed_tx_index [OF typed])
  have "\<exists>em' h'. free_onlytx_pbufs x cfg em k = Inr (em', h') \<and> tx_frame em' = tx_frame em" for k
    using free_tx_loop_returns [of "[index ..< index + cfg_n_tx cfg]" em x k] ix
    by (auto simp: free_onlytx_pbufs_def dest: free_tx_loop_frame)
  then obtain em' h' where "free_onlytx_pbufs x cfg em (xe_write_reg x (em_base em) NWCTRL
      (fst (xe_read_reg x (em_base em) NWCTRL h) AND NOT (cfg_txen_mask cfg)) (snd (xe_read_reg x (em_base em) NWCTRL h))) =
      Inr (em', h')" "tx_frame em' = tx_frame em" by blast
  then show ?thesis by (simp add: HandleTxErrors_def Let_def split_beta)
qed


lemma recv_handler_returns:
  assumes rings: "driver_rings b x cfg" and filled: "rx_slots_filled cfg em"
  shows "\<exists>em' h'. emacps_recv_handler b x cfg em h = Some (Inr (em', h')) \<and> rx_frame em' = rx_frame em \<and>
    rx_slots_filled cfg em'"
proof -
  obtain base sep pend where ring: "rx_ring b x (cfg_n_rx cfg) base sep pend"
    using rings unfolding driver_rings_def by blast
  obtain index where ix: "get_base_index_rxpbufsstorage cfg em = Inr index" "rx_filled cfg index em"
    using filled by (auto simp: rx_slots_filled_def)
  obtain em' h' where r: "emacps_recv_handler b x cfg em h = Some (Inr (em', h'))" "rx_filled cfg index em'"
    using recv_handler_drains [OF ring ix, of h] by blast
  note f = recv_handler_frame [OF r(1)]
  then have "get_base_index_rxpbufsstorage cfg em' = Inr index"
    using ix(1) base_index_same [of em' em cfg] by (simp add: rx_frame_def)
  then show ?thesis using r f by (auto simp: rx_slots_filled_def)
qed

text \<open>The state between two events.\<close>

definition emac_ok :: "emac_config \<Rightarrow> emac \<Rightarrow> bool" where
  "emac_ok cfg em \<longleftrightarrow> emac_typed cfg em \<and> rx_slots_filled cfg em"

lemma drv_step_ok:
  assumes rings: "driver_rings b x cfg" and ok: "emac_ok cfg em"
  shows "\<exists>em' h'. drv_step b x cfg e (em, h) = Some (Inr (em', h')) \<and> emac_ok cfg em' \<and> em_base em' = em_base em"
proof -
  have t: "emac_typed cfg em" and f: "rx_slots_filled cfg em" using ok by (simp_all add: emac_ok_def)
  have tx: "emac_ok cfg em' \<and> em_base em' = em_base em" if "tx_frame em' = tx_frame em" for em'
    using emac_typed_tx [OF t that] rx_slots_tx [OF f that] that by (simp add: emac_ok_def tx_frame_def)
  have rx: "emac_ok cfg em' \<and> em_base em' = em_base em" if "rx_frame em' = rx_frame em" "rx_slots_filled cfg em'" for em'
    using emac_typed_rx [OF t that(1)] that by (simp add: emac_ok_def rx_frame_def)
  show ?thesis
  proof (cases e)
    case (Tx_packet p)
    obtain r em' h' where "low_level_output x cfg p em h = Some (Inr (r, em', h'))" "tx_frame em' = tx_frame em"
      using low_level_output_returns [OF rings t, of p h] by blast
    then show ?thesis using tx [of em'] Tx_packet by simp
  next
    case Tx_irq
    obtain em' h' where "emacps_send_handler x cfg em h = Some (Inr (em', h'))" "tx_frame em' = tx_frame em"
      using process_sent_returns [OF rings t] unfolding emacps_send_handler_def Let_def split_beta by blast
    then show ?thesis using tx [of em'] Tx_irq by simp
  next
    case Rx_irq
    moreover obtain em' h' where "emacps_recv_handler b x cfg em h = Some (Inr (em', h'))" "rx_frame em' = rx_frame em"
      "rx_slots_filled cfg em'" using recv_handler_returns [OF rings f, of h] by blast
    ultimately show ?thesis using rx [of em'] by simp
  next
    case Tx_error
    obtain em' h' where "HandleTxErrors x cfg em h = Inr (em', h')" "tx_frame em' = tx_frame em"
      using HandleTxErrors_returns [OF t, where x = x and h = h] by blast
    then show ?thesis using tx [of em'] Tx_error by simp
  qed
qed

lemma drv_run_ok:
  assumes rings: "driver_rings b x cfg" and "emac_ok cfg em"
  shows "\<exists>em' h'. drv_run b x cfg es (em, h) = Some (Inr (em', h')) \<and> emac_ok cfg em' \<and> em_base em' = em_base em"
  using assms(2)
proof (induction es arbitrary: em h)
  case (Cons e es)
  obtain em1 h1 where s: "drv_step b x cfg e (em, h) = Some (Inr (em1, h1))" "emac_ok cfg em1" "em_base em1 = em_base em"
    using drv_step_ok [OF rings Cons.prems, of e h] by blast
  then show ?case using Cons.IH [of em1 h1] by simp
qed simp

text \<open>
  C10: the driver is type safe. With rings as documented and well-formed statics, every sequence of packets
  to send, transmit and receive interrupts and transmit errors runs to its end: no index leaves an array,
  no unset index and no null pointer is used, no loop runs on for ever, on the failure returns as well;
  and the statics are well-formed again, so that the next event finds what the first one found.
\<close>
theorem driver_type_safe:
  assumes rings: "driver_rings b x cfg" and "emac_typed cfg em" and "rx_slots_filled cfg em"
  shows "\<exists>em' h'. drv_run b x cfg es (em, h) = Some (Inr (em', h')) \<and>
    emac_typed cfg em' \<and> rx_slots_filled cfg em' \<and> em_base em' = em_base em"
  using drv_run_ok [OF rings, of em es h] assms(2,3) by (simp add: emac_ok_def)

section \<open>Start-up fills the receive ring\<close>

text \<open>
  A new ring hands its descriptors out in order, from the first on: \<open>head\<close> is the number of the next one.
\<close>

definition rx_in_order :: "'h xemacps \<Rightarrow> nat \<Rightarrow> ('h \<Rightarrow> nat) \<Rightarrow> bool" where
  "rx_in_order x n head \<longleftrightarrow>
     0 < n \<and>
     (\<forall>h a. head (snd (xe_create x RxRing a n h)) = 0) \<and>
     (\<forall>h a m. head (snd (xe_create x TxRing a m h)) = head h) \<and>
     (\<forall>h g t. head (snd (xe_clone x g t h)) = head h) \<and>
     (\<forall>h bd h1. xe_alloc x RxRing 1 h = (Some bd, h1) \<longrightarrow> head h1 = Suc (head h) mod n \<and>
        XEMACPS_BD_TO_INDEX x RxRing bd (snd (xe_to_hw x RxRing 1 bd h1)) = head h) \<and>
     (\<forall>h bd. head (snd (xe_to_hw x RxRing 1 bd h)) = head h) \<and>
     (\<forall>h m. head (snd (xe_pool_alloc x m h)) = head h) \<and>
     (\<forall>h bd a v. head (xe_bd_write x bd a v h) = head h) \<and>
     (\<forall>h bd a. head (xe_bd_set_address_rx x bd a h) = head h) \<and>
     (\<forall>h a m. head (xe_dcache_inval x a m h) = head h)"

lemma rx_in_order_head:
  assumes "rx_in_order x n head"
  shows "head (snd (xe_create x RxRing a n h)) = 0" "head (snd (xe_create x TxRing a m h)) = head h"
    "head (snd (xe_clone x g t h)) = head h" "head (snd (xe_to_hw x RxRing (Suc 0) bd h)) = head h"
    "head (snd (xe_pool_alloc x m h)) = head h" "head (xe_bd_write x bd a' v h) = head h"
    "head (xe_bd_set_address_rx x bd a h) = head h" "head (xe_dcache_inval x a m h) = head h"
    "head (inval_unless_coherent x em a m h) = head h"
  using assms by (simp_all add: rx_in_order_def inval_unless_coherent_def)

definition filled_upto :: "nat \<Rightarrow> nat \<Rightarrow> emac \<Rightarrow> bool" where
  "filled_upto index m em \<longleftrightarrow> (\<forall>k < m. rx_pbufs_storage em ! (index + k) \<noteq> None)"

lemma init_rx_loop_fills:
  assumes order: "rx_in_order x (cfg_n_rx cfg) head"
    and "index + cfg_n_rx cfg \<le> length (rx_pbufs_storage em)" and "m + n = cfg_n_rx cfg"
    and "0 < n \<longrightarrow> head h = m" and "filled_upto index m em"
  shows "\<exists>ok em' h'. init_rx_loop x cfg index n em h = Inr (ok, em', h') \<and> rx_frame em' = rx_frame em \<and>
    (ok \<longrightarrow> filled_upto index (cfg_n_rx cfg) em')"
  using assms(2-5)
proof (induction n arbitrary: m em h)
  case 0
  then show ?case by (simp add: ex_bool_eq)
next
  case (Suc n)
  note hd = rx_in_order_head [OF order]
  obtain po h1 where a: "xe_pool_alloc x (cfg_max_frame cfg) h = (po, h1)" by fastforce
  obtain bdo h2 where c: "xe_alloc x RxRing (Suc 0) h1 = (bdo, h2)" by fastforce
  have m: "head h1 = m" "m < cfg_n_rx cfg" using Suc.prems hd(5) [of "cfg_max_frame cfg" h] by (simp_all add: a)
  show ?case
  proof (cases "po = None \<or> bdo = None")
    case True
    then show ?thesis by (auto simp: a c split: option.splits)
  next
    case False
    then obtain p bd where s: "po = Some p" "bdo = Some bd" by auto
    obtain ok h3 where t: "xe_to_hw x RxRing (Suc 0) bd h2 = (ok, h3)" by fastforce
    have ix: "XEMACPS_BD_TO_INDEX x RxRing bd h3 = m" and h3: "head h3 = Suc m mod cfg_n_rx cfg"
      using order c s m t hd(4) [of bd h2] unfolding rx_in_order_def One_nat_def by (metis snd_conv)+
    show ?thesis
    proof (cases ok)
      case True
      let ?em = "em\<lparr>rx_pbufs_storage := (rx_pbufs_storage em)[index + m := Some p]\<rparr>"
      define h4 where "h4 = xe_bd_write x bd 0 0 h3"
      define h6 where "h6 = xe_bd_write x bd 4 0 (if m = cfg_n_rx cfg - 1 then xe_bd_write x bd 0 0x00000002 h4 else h4)"
      define h8 where "h8 = xe_bd_set_address_rx x bd (xe_pbuf_payload x p h6)
        (inval_unless_coherent x em (xe_pbuf_payload x p h6) (cfg_max_frame cfg) h6)"
      have "init_rx_loop x cfg index (Suc n) em h = init_rx_loop x cfg index n ?em h8"
        using True Suc.prems(1) m(2) by (simp add: a c s t ix Let_def h8_def h6_def h4_def)
      moreover have "head h8 = Suc m mod cfg_n_rx cfg" by (simp add: h8_def h6_def h4_def hd h3)
      moreover have "filled_upto index (Suc m) ?em"
        using Suc.prems m(2) by (auto simp: filled_upto_def nth_list_update less_Suc_eq)
      ultimately show ?thesis
        using Suc.IH [of ?em "Suc m" h8] Suc.prems by (auto simp: rx_frame_def)
    qed (simp add: a c s t Let_def ex_bool_eq)
  qed
qed

lemma init_rings_fills:
  assumes order: "rx_in_order x (cfg_n_rx cfg) head" and len: "index + cfg_n_rx cfg \<le> length (rx_pbufs_storage em)"
  shows "\<exists>ok em' h'. init_rings x cfg index em h = Inr (ok, em', h') \<and> rx_frame em' = rx_frame em \<and>
    (ok \<longrightarrow> rx_filled cfg index em')"
proof -
  note hd = rx_in_order_head [OF order]
  define h4 where "h4 = snd (xe_clone x TxRing (cfg_txbuf_used cfg) (snd (xe_create x TxRing (tx_bdspace em) (cfg_n_tx cfg)
    (snd (xe_clone x RxRing 0 (snd (xe_create x RxRing (rx_bdspace em) (cfg_n_rx cfg) h)))))))"
  have "head h4 = 0" by (simp add: h4_def hd)
  then obtain ok em' h' where l: "init_rx_loop x cfg index (cfg_n_rx cfg) em h4 = Inr (ok, em', h')"
    "rx_frame em' = rx_frame em" "ok \<longrightarrow> filled_upto index (cfg_n_rx cfg) em'"
    using init_rx_loop_fills [OF order len, of 0 "cfg_n_rx cfg" h4] by (auto simp: filled_upto_def)
  have "rx_filled cfg index em'" if ok
    using that l len by (simp add: rx_filled_def filled_upto_def rx_frame_def)
  then show ?thesis using l by (auto simp: init_rings_def split_beta Let_def h4_def ex_bool_eq)
qed

lemma typed_rx_index:
  assumes "emac_typed cfg em"
  obtains index where "get_base_index_rxpbufsstorage cfg em = Inr index"
    "index + cfg_n_rx cfg \<le> length (rx_pbufs_storage em)"
proof -
  obtain j where j: "j < length (cfg_bases cfg)"
    "base_index (cfg_n_rx cfg) 0 (cfg_bases cfg) (em_base em) None = Some (j * cfg_n_rx cfg)"
    using base_index_range [of "em_base em" "cfg_bases cfg" "cfg_n_rx cfg" 0 None] assms by (auto simp: emac_typed_def)
  have "Suc j * cfg_n_rx cfg \<le> 4 * cfg_n_rx cfg"
    using j(1) assms by (intro mult_le_mono1) (simp add: emac_typed_def)
  then show thesis using j that assms by (simp add: get_base_index_rxpbufsstorage_def emac_typed_def)
qed

lemma init_dma_typed:
  assumes order: "rx_in_order x (cfg_n_rx cfg) head" and typed: "emac_typed cfg em"
  shows "\<exists>ok em' h'. init_dma b x cfg em h = Inr (ok, em', h') \<and> emac_typed cfg em' \<and>
    tx_pbufs_storage em' = tx_pbufs_storage em \<and> (ok \<longrightarrow> rx_slots_filled cfg em')"
proof -
  obtain index where ix: "get_base_index_rxpbufsstorage cfg em = Inr index"
    "index + cfg_n_rx cfg \<le> length (rx_pbufs_storage em)"
    by (rule typed_rx_index [OF typed])
  obtain gige h1 where gv: "gigeversion b em h = (gige, h1)" by fastforce
  obtain em1 h2 where at: "(if bd_space_attr_set em = 0
      then (em\<lparr>bd_space_attr_set := 1\<rparr>, xe_set_tlb x (cfg_bd_space cfg) h1) else (em, h1)) = (em1, h2)" by fastforce
  obtain r t em2 where cl: "claim_bd_space cfg gige em1 = (r, t, em2)" by (metis surj_pair)
  have "rx_frame em1 = rx_frame em" "rx_pbufs_storage em1 = rx_pbufs_storage em"
    using at by (auto simp: rx_frame_def split: if_splits)
  then have f2: "rx_frame em2 = rx_frame em" "rx_pbufs_storage em2 = rx_pbufs_storage em"
    using cl by (auto simp: rx_frame_def claim_bd_space_def bd_area_def Let_def split: if_splits)
  obtain ok em3 h3 where i: "init_rings x cfg index em2 h2 = Inr (ok, em3, h3)" "rx_frame em3 = rx_frame em"
    "ok \<longrightarrow> rx_filled cfg index em3"
    using init_rings_fills [OF order, of index em2 h2] ix(2) f2 by auto
  have q: "init_queues x cfg gige r t em3 h3 = (em3\<lparr>emac_intr_num := cfg_emac_intr cfg\<rparr>,
      snd (init_queues x cfg gige r t em3 h3))" by (simp add: init_queues_def Let_def)
  have fin: "emac_typed cfg em' \<and> tx_pbufs_storage em' = tx_pbufs_storage em" if "rx_frame em' = rx_frame em" for em'
    using that emac_typed_rx [OF typed that] by (simp add: rx_frame_def)
  have frame: "rx_frame (em3\<lparr>emac_intr_num := v\<rparr>) = rx_frame em" for v
    using i(2) by (simp add: rx_frame_def)
  have filled: "rx_slots_filled cfg (em3\<lparr>emac_intr_num := v\<rparr>)" if ok for v
  proof -
    have "em_base em3 = em_base em" using i(2) by (simp add: rx_frame_def)
    then have "get_base_index_rxpbufsstorage cfg (em3\<lparr>emac_intr_num := v\<rparr>) = Inr index"
      using ix(1) by (simp add: get_base_index_rxpbufsstorage_def)
    then show ?thesis using i(3) that by (auto simp: rx_slots_filled_def rx_filled_def)
  qed
  show ?thesis
  proof (cases "rx_bdspace em2 = 0 \<or> tx_bdspace em2 = 0")
    case True
    then have "init_dma b x cfg em h = Inr (False, em2, h2)" by (simp add: init_dma_def ix gv at cl)
    then show ?thesis using fin [OF f2(1)] by (simp add: ex_bool_eq)
  next
    case False
    then have d: "init_dma b x cfg em h = (if \<not> ok then Inr (False, em3, h3)
        else Inr (True, em3\<lparr>emac_intr_num := cfg_emac_intr cfg\<rparr>, snd (init_queues x cfg gige r t em3 h3)))"
      using q by (simp add: init_dma_def ix gv at cl i split_beta)
    show ?thesis using fin [OF i(2)] fin [OF frame] filled unfolding d by (cases ok) auto
  qed
qed


lemma free_rx_loop_returns:
  "\<forall>i \<in> set js. i < length (rx_pbufs_storage em) \<Longrightarrow> \<exists>h'. free_rx_loop x js em h = Inr h'"
  by (induction js arbitrary: h) (simp_all add: slot_get_def)

lemma HandleEmacPsError_typed:
  assumes order: "rx_in_order x (cfg_n_rx cfg) head" and typed: "emac_typed cfg em"
  shows "\<exists>em' h'. HandleEmacPsError b x cfg em h = Inr (em', h') \<and> emac_typed cfg em'"
proof -
  obtain i where i: "get_base_index_txpbufsstorage cfg em = Inr i" "i + cfg_n_tx cfg \<le> length (tx_pbufs_storage em)"
    by (rule typed_tx_index [OF typed])
  obtain em1 h1 where t: "free_tx_loop x [i ..< i + cfg_n_tx cfg] em h = Inr (em1, h1)"
    using free_tx_loop_returns [of "[i ..< i + cfg_n_tx cfg]" em x h] i by auto
  have typed1: "emac_typed cfg em1" by (rule emac_typed_tx [OF typed free_tx_loop_frame [OF t]])
  obtain j where j: "get_base_index_rxpbufsstorage cfg em1 = Inr j" "j + cfg_n_rx cfg \<le> length (rx_pbufs_storage em1)"
    by (rule typed_rx_index [OF typed1])
  obtain h2 where "free_rx_loop x [j ..< j + cfg_n_rx cfg] em1 h1 = Inr h2"
    using free_rx_loop_returns [of "[j ..< j + cfg_n_rx cfg]" em1 x h1] j by auto
  then have f: "free_txrx_pbufs x cfg em h = Inr (em1, h2)"
    by (simp add: free_txrx_pbufs_def i t j)
  have "\<exists>ok em2 h3. init_dma b x cfg em1 k = Inr (ok, em2, h3) \<and> emac_typed cfg em2" for k
    using init_dma_typed [OF order typed1, of b k] by blast
  from this [of "xe_setup_isr x (xe_write_reg x (em_base em1) DMACR (fst (xe_read_reg x (em_base em1) DMACR
      (xe_init_emacps_on_error x (snd (xe_cfg_initialize x (em_base em1) h2)))) OR 0x01000000)
      (snd (xe_read_reg x (em_base em1) DMACR (xe_init_emacps_on_error x (snd (xe_cfg_initialize x (em_base em1) h2))))))"]
  show ?thesis by (auto simp: HandleEmacPsError_def f Let_def split_beta)
qed

text \<open>
  C11: setting the rings up establishes the conditions on the statics that the driver's events rest on. On a
  receive ring that hands its descriptors out in order from the first on once it is created, and from
  well-formed statics, \<open>init_dma\<close> returns without a fault and leaves them well-formed,
  whichever step of it fails; and when it reports success every slot of the receive part holds a buffer.
  Recovery from a controller error, which sets the rings up again, returns with well-formed statics as well.
\<close>
theorem init_dma_fills_ring:
  assumes "rx_in_order x (cfg_n_rx cfg) head" and "emac_typed cfg em"
  shows "(\<exists>ok em1 h1. init_dma b x cfg em h = Inr (ok, em1, h1) \<and> emac_typed cfg em1 \<and>
      tx_pbufs_storage em1 = tx_pbufs_storage em \<and> (ok \<longrightarrow> rx_slots_filled cfg em1)) \<and>
    (\<exists>em2 h2. HandleEmacPsError b x cfg em h = Inr (em2, h2) \<and> emac_typed cfg em2)"
  using init_dma_typed [OF assms, of b h] HandleEmacPsError_typed [OF assms, of b h] by blast

section \<open>A controller that sends and receives\<close>

text \<open>
  Both rings have four descriptors. What is handed to the transmitter is sent at once; \<open>ds_rxdone\<close> of
  the receive descriptors with the hardware have a frame. Buffers come from the stack's pool.
\<close>

record dsim = sim +
  ds_used :: nat
  ds_done :: nat
  ds_head :: nat
  ds_tail :: nat
  ds_rxdone :: nat
  ds_rxfree :: nat
  ds_rxhead :: nat
  ds_rxtail :: nat
  ds_refs :: int
  ds_rxhw :: int

definition dsim_alloc :: "ring \<Rightarrow> nat \<Rightarrow> dsim \<Rightarrow> u64 option \<times> dsim" where
  "dsim_alloc g n h =
     (case g of
        TxRing \<Rightarrow> (if ds_used h + n \<le> 4
          then (Some (of_nat (64 * (ds_head h mod 4))), h\<lparr>ds_used := ds_used h + n, ds_head := (ds_head h + n) mod 4\<rparr>)
          else (None, h))
      | RxRing \<Rightarrow> (if n \<le> ds_rxfree h
          then (Some (of_nat (64 * (ds_rxhead h mod 4))),
            h\<lparr>ds_rxfree := ds_rxfree h - n, ds_rxhead := (ds_rxhead h mod 4 + n) mod 4\<rparr>)
          else (None, h)))"

definition dsim_from_hw :: "ring \<Rightarrow> dsim \<Rightarrow> (nat \<times> u64) \<times> dsim" where
  "dsim_from_hw g h =
     (case g of
        TxRing \<Rightarrow> ((ds_done h, of_nat (64 * (ds_tail h mod 4))), h\<lparr>ds_tail := (ds_tail h + ds_done h) mod 4, ds_done := 0\<rparr>)
      | RxRing \<Rightarrow> ((ds_rxdone h, of_nat (64 * (ds_rxtail h mod 4))),
          h\<lparr>ds_rxtail := (ds_rxtail h + ds_rxdone h) mod 4, ds_rxhw := ds_rxhw h - int (ds_rxdone h), ds_rxdone := 0\<rparr>))"

definition dsim_ops :: "dsim xemacps" where
  "dsim_ops =
     \<lparr>xe_read_reg = (\<lambda>a r h. (0, h)), xe_write_reg = (\<lambda>a r v h. h),
      xe_free_cnt = (\<lambda>g h. if g = TxRing then 4 - ds_used h else ds_rxfree h),
      xe_alloc = dsim_alloc,
      xe_unalloc = (\<lambda>g n bd h. if g = TxRing then h else h\<lparr>ds_rxfree := ds_rxfree h + n\<rparr>),
      xe_to_hw = (\<lambda>g n bd h. (True, if g = TxRing then h\<lparr>ds_done := ds_done h + n\<rparr> else h\<lparr>ds_rxhw := ds_rxhw h + int n\<rparr>)),
      xe_from_hw = (\<lambda>g n h. dsim_from_hw g h),
      xe_free = (\<lambda>g n bd h. (True, if g = TxRing then h\<lparr>ds_used := ds_used h - n\<rparr> else h\<lparr>ds_rxfree := ds_rxfree h + n\<rparr>)),
      xe_next = (\<lambda>g bd h. if bd = 192 then 0 else bd + 64),
      xe_base = (\<lambda>g h. 0), xe_separation = (\<lambda>g h. 64),
      xe_create = (\<lambda>g a n h. (True, if g = TxRing then h\<lparr>ds_used := 0, ds_done := 0, ds_head := 0, ds_tail := 0\<rparr>
        else h\<lparr>ds_rxfree := n, ds_rxhead := 0, ds_rxtail := 0, ds_rxdone := 0\<rparr>)),
      xe_clone = (\<lambda>g t h. (True, h)), xe_ptr_reset = (\<lambda>g a h. h),
      xe_set_queue_ptr = (\<lambda>a n g h. h), xe_bd_write = (\<lambda>bd a v h. h), xe_bd_clear = (\<lambda>bd h. h),
      xe_bd_set_status = (\<lambda>bd v h. h), xe_bd_set_address_tx = (\<lambda>bd a h. h),
      xe_bd_set_address_rx = (\<lambda>bd a h. h), xe_bd_set_length = (\<lambda>bd v h. h), xe_bd_get_length = (\<lambda>bd h. 64),
      xe_bd_set_last = (\<lambda>bd h. h), xe_bd_clear_last = (\<lambda>bd h. h), xe_bd_clear_tx_used = (\<lambda>bd h. h),
      xe_pool_alloc = (\<lambda>n h. (Some (sim_clock h), h\<lparr>ds_refs := ds_refs h + 1\<rparr>)),
      xe_pbuf_free = (\<lambda>p h. h\<lparr>ds_refs := ds_refs h - held p\<rparr>),
      xe_pbuf_ref = (\<lambda>p h. h\<lparr>ds_refs := ds_refs h + 1\<rparr>),
      xe_pbuf_chain = (\<lambda>p h. [p]), xe_pbuf_payload = (\<lambda>p h. 4096), xe_pbuf_len = (\<lambda>p h. 60),
      xe_pbuf_realloc = (\<lambda>p n h. h), xe_dcache_flush = (\<lambda>a n h. h), xe_dcache_inval = (\<lambda>a n h. h),
      xe_pq_enqueue = (\<lambda>p h. (True, h\<lparr>sim_queue := sim_queue h @ [p], ds_refs := ds_refs h - 1\<rparr>)),
      xe_pq_qlength = (\<lambda>h. length (sim_queue h)),
      xe_pq_dequeue = (\<lambda>h. case sim_queue h of [] \<Rightarrow> (None, h)
         | p # ps \<Rightarrow> (Some p, h\<lparr>sim_queue := ps, sim_refs := sim_refs h + 1\<rparr>)),
      xe_stop = (\<lambda>h. h), xe_start = (\<lambda>h. h), xe_set_options = (\<lambda>v h. (0, h)), xe_clear_options = (\<lambda>v h. (0, h)),
      xe_set_hash = (\<lambda>m h. h), xe_delete_hash = (\<lambda>m h. h), xe_wait_tx_idle = Some,
      xe_cfg_initialize = (\<lambda>a h. (True, h)), xe_init_emacps = (\<lambda>h. h), xe_init_emacps_on_error = (\<lambda>h. h),
      xe_setup_isr = (\<lambda>h. h), xe_start_emacps = (\<lambda>h. h), xe_set_tlb = (\<lambda>a h. h), xe_gic_register = (\<lambda>v h. h),
      xe_gic_enable = (\<lambda>v h. h), xe_gic_disable = (\<lambda>v h. h)\<rparr>"

definition dsim0 :: dsim where
  "dsim0 = \<lparr>sim_clock = 0, sim_left = 4, sim_refs = 0, sim_pcbs = 0, sim_store = [], sim_sent = [], sim_queue = [],
     ds_used = 0, ds_done = 0, ds_head = 0, ds_tail = 0, ds_rxdone = 2, ds_rxfree = 0, ds_rxhead = 0, ds_rxtail = 0,
     ds_refs = 4, ds_rxhw = 4\<rparr>"

definition dsim_em :: emac where
  "dsim_em = esim_em\<lparr>rx_pbufs_storage := replicate 16 (Some 3)\<rparr>"

lemma bd_at_mod: "k < 4 \<Longrightarrow> xe_next dsim_ops g (bd_at 0 64 k) h = bd_at 0 64 (Suc k mod 4)"
proof -
  assume "k < 4"
  then consider "k = 0" | "k = 1" | "k = 2" | "k = 3" by linarith
  then show ?thesis by cases (simp_all add: dsim_ops_def bd_at_def)
qed

lemma bd_at_64: "\<exists>k < 4. of_nat (64 * (t mod 4)) = bd_at 0 64 k"
  by (intro exI [of _ "t mod 4"]) (simp add: bd_at_def)

lemma dsim_layout: "ring_layout dsim_ops g 4 0 64"
  using bd_at_mod by (auto simp: ring_layout_def) (simp_all add: dsim_ops_def)

lemma dsim_tx_ring: "tx_ring dsim_ops 4 0 64 ds_done"
  using dsim_layout bd_at_64
  by (auto simp: tx_ring_def) (auto simp: dsim_ops_def dsim_from_hw_def)

lemma dsim_rx_ring: "rx_ring sim_bsp dsim_ops 4 0 64 ds_rxdone"
  using dsim_layout bd_at_64
  by (auto simp: rx_ring_def) (auto simp: dsim_ops_def dsim_from_hw_def dsim_alloc_def sim_bsp_def split: if_splits)

lemma dsim_rings: "driver_rings sim_bsp dsim_ops esim_cfg"
proof -
  have "\<exists>k < 4. bd = bd_at 0 64 k" if "fst (xe_alloc dsim_ops TxRing n h) = Some bd" for n h bd
    using that bd_at_64 by (auto simp: dsim_ops_def dsim_alloc_def split: if_splits)
  moreover have "xe_pbuf_chain dsim_ops p h \<noteq> []" for p h by (simp add: dsim_ops_def)
  ultimately show ?thesis
    using dsim_tx_ring dsim_rx_ring unfolding driver_rings_def by (auto simp: esim_cfg_def)
qed

lemma dsim_account: "emac_account sim_bsp dsim_ops ds_refs ds_rxhw"
  unfolding emac_account_def
  by (auto simp: dsim_ops_def sim_bsp_def dsim_alloc_def dsim_from_hw_def split: ring.split) (metis ring.exhaust)+

lemma dsim_order: "rx_in_order dsim_ops 4 (\<lambda>h. ds_rxhead h mod 4)"
proof -
  have "XEMACPS_BD_TO_INDEX dsim_ops RxRing (of_nat (64 * (k mod 4))) h = k mod 4" for k h
    using bd_index_at [OF dsim_layout, of "k mod 4"] by (simp add: bd_at_def mult.commute)
  then show ?thesis
    unfolding rx_in_order_def
    by (auto simp: dsim_ops_def dsim_alloc_def mod_simps split: if_splits)
qed

lemma dsim_typed: "emac_typed esim_cfg dsim_em" "rx_slots_filled esim_cfg dsim_em"
  by (simp_all add: emac_typed_def rx_slots_filled_def rx_filled_def get_base_index_rxpbufsstorage_def dsim_em_def
      esim_cfg_def esim_em_def)

theorem driver_type_safe_witness:
  "\<exists>em' h'. drv_run sim_bsp dsim_ops esim_cfg [Tx_packet 7, Rx_irq, Tx_error, Tx_packet 8, Tx_irq] (dsim_em, dsim0) =
      Some (Inr (em', h')) \<and> rx_slots_filled esim_cfg em'"
  using driver_type_safe [OF dsim_rings dsim_typed] by blast

theorem init_dma_fills_ring_witness:
  "\<exists>em1 h1. init_dma sim_bsp dsim_ops esim_cfg esim_em dsim0 = Inr (True, em1, h1) \<and> rx_slots_filled esim_cfg em1"
proof -
  have "rx_in_order dsim_ops (cfg_n_rx esim_cfg) (\<lambda>h. ds_rxhead h mod 4)" using dsim_order by (simp add: esim_cfg_def)
  moreover have "emac_typed esim_cfg esim_em" by (simp add: emac_typed_def esim_cfg_def esim_em_def)
  ultimately obtain ok em1 h1 where i: "init_dma sim_bsp dsim_ops esim_cfg esim_em dsim0 = Inr (ok, em1, h1)"
    "ok \<longrightarrow> rx_slots_filled esim_cfg em1"
    using init_dma_fills_ring [of dsim_ops esim_cfg _ esim_em sim_bsp dsim0] by blast
  moreover have "case init_dma sim_bsp dsim_ops esim_cfg esim_em dsim0 of Inr (ok, r) \<Rightarrow> ok | _ \<Rightarrow> False" by code_simp
  ultimately show ?thesis by auto
qed

section \<open>Error recovery releases every slot\<close>

text \<open>With every slot filled, recovery gives back one receive buffer for each descriptor of the ring.\<close>

lemma rx_held_filled: "rx_filled cfg j em \<Longrightarrow> rx_held [j ..< j + cfg_n_rx cfg] em = int (cfg_n_rx cfg)"
proof -
  assume f: "rx_filled cfg j em"
  have "held (rx_pbufs_storage em ! i) = 1" if "i \<in> set [j ..< j + cfg_n_rx cfg]" for i
  proof -
    have "rx_pbufs_storage em ! (j + (i - j)) \<noteq> None"
      using f that unfolding rx_filled_def by (metis add_less_cancel_left atLeastLessThan_iff le_add_diff_inverse set_upt)
    then show ?thesis using that by auto
  qed
  then have "map (\<lambda>i. held (rx_pbufs_storage em ! i)) [j ..< j + cfg_n_rx cfg] = map (\<lambda>_. 1) [j ..< j + cfg_n_rx cfg]"
    by (rule map_cong [OF refl])
  then show ?thesis unfolding rx_held_def by (simp only:) (simp add: sum_list_triv)
qed

lemma free_txrx_returns:
  assumes typed: "emac_typed cfg em" and filled: "rx_slots_filled cfg em"
  shows "\<exists>j em' h'. get_base_index_rxpbufsstorage cfg em = Inr j \<and> rx_filled cfg j em \<and>
    free_txrx_pbufs x cfg em h = Inr (em', h')"
proof -
  obtain i where i: "get_base_index_txpbufsstorage cfg em = Inr i" "i + cfg_n_tx cfg \<le> length (tx_pbufs_storage em)"
    by (rule typed_tx_index [OF typed])
  then obtain em1 h1 where t: "free_tx_loop x [i ..< i + cfg_n_tx cfg] em h = Inr (em1, h1)"
    using free_tx_loop_returns [of "[i ..< i + cfg_n_tx cfg]" em x h] by auto
  obtain j where j: "get_base_index_rxpbufsstorage cfg em = Inr j" "rx_filled cfg j em"
    using filled by (auto simp: rx_slots_filled_def)
  have "get_base_index_rxpbufsstorage cfg em1 = Inr j" "rx_pbufs_storage em1 = rx_pbufs_storage em"
    using j(1) free_tx_loop_places [OF t] by (simp_all add: get_base_index_rxpbufsstorage_def ring_places_def)
  moreover obtain h2 where "free_rx_loop x [j ..< j + cfg_n_rx cfg] em1 h1 = Inr h2"
    using free_rx_loop_returns [of "[j ..< j + cfg_n_rx cfg]" em1 x h1] j(2) calculation(2)
    by (auto simp: rx_filled_def)
  ultimately have "free_txrx_pbufs x cfg em h = Inr (em1, h2)" by (simp add: free_txrx_pbufs_def i t)
  then show ?thesis using j by blast
qed

text \<open>
  C32: error recovery releases one receive buffer for every slot of the interface, not for every buffer it
  owns. After any sequence of packets, interrupts and transmit errors from a state whose account is
  balanced, \<open>free_txrx_pbufs\<close> runs to its end without clearing a receive slot, and what is left of the references is
  the filled transmit slots plus the descriptors with the hardware less the length of the receive ring.
  So it is right only while the ring is full: when receive buffers could not be had in between, the slots that
  were not refilled point to buffers already handed to the queue or freed, and recovery frees these again.
\<close>
theorem recovery_frees_by_slot:
  assumes rings: "driver_rings b x cfg" and acc: "emac_account b x refs rxhw"
    and typed: "emac_typed cfg em" and filled: "rx_slots_filled cfg em" and "refs h = tx_held em + rxhw h"
  shows "\<exists>em1 h1 em2 h2. drv_run b x cfg es (em, h) = Some (Inr (em1, h1)) \<and>
    free_txrx_pbufs x cfg em1 h1 = Inr (em2, h2) \<and> rx_pbufs_storage em2 = rx_pbufs_storage em1 \<and>
    refs h2 = tx_held em2 + rxhw h2 - int (cfg_n_rx cfg)"
proof -
  obtain em1 h1 where r: "drv_run b x cfg es (em, h) = Some (Inr (em1, h1))" "emac_ok cfg em1"
    using drv_run_ok [OF rings, of em es h] typed filled by (auto simp: emac_ok_def)
  obtain j em2 h2 where j: "get_base_index_rxpbufsstorage cfg em1 = Inr j" "rx_filled cfg j em1"
    and f: "free_txrx_pbufs x cfg em1 h1 = Inr (em2, h2)"
    using free_txrx_returns [of cfg em1 x h1] r(2) by (auto simp: emac_ok_def)
  have "refs h1 = tx_held em1 + rxhw h1"
    using drv_run_balance [OF acc r(1)] assms(5) by (simp add: balance_def)
  then show ?thesis
    using r(1) f free_txrx_repeats [OF acc j(1) f] rx_held_filled [OF j(2)] by simp
qed

text \<open>The controller above with no buffer left in the pool: two frames are received and not replaced.\<close>

definition starved_ops :: "dsim xemacps" where
  "starved_ops = dsim_ops\<lparr>xe_pool_alloc := \<lambda>n h. (None, h)\<rparr>"

lemma starved_layout: "ring_layout starved_ops g 4 0 64"
  using dsim_layout [of g] by (simp add: ring_layout_def starved_ops_def)

lemma starved_rings: "driver_rings sim_bsp starved_ops esim_cfg"
proof -
  have "tx_ring starved_ops 4 0 64 ds_done" using dsim_tx_ring starved_layout
    by (simp add: tx_ring_def starved_ops_def)
  moreover have "rx_ring sim_bsp starved_ops 4 0 64 ds_rxdone"
    using dsim_rx_ring starved_layout by (simp add: rx_ring_def starved_ops_def)
  moreover have "\<exists>k < 4. bd = bd_at 0 64 k" if "fst (xe_alloc starved_ops TxRing n h) = Some bd" for n h bd
    using that bd_at_64 by (auto simp: starved_ops_def dsim_ops_def dsim_alloc_def split: if_splits)
  moreover have "xe_pbuf_chain starved_ops p h \<noteq> []" for p h by (simp add: starved_ops_def dsim_ops_def)
  ultimately show ?thesis unfolding driver_rings_def by (auto simp: esim_cfg_def)
qed

lemma starved_account: "emac_account sim_bsp starved_ops ds_refs ds_rxhw"
  using dsim_account unfolding emac_account_def starved_ops_def by simp

theorem recovery_frees_by_slot_witness:
  "\<exists>em1 h1 em2 h2. drv_run sim_bsp starved_ops esim_cfg [Rx_irq] (dsim_em, dsim0) = Some (Inr (em1, h1)) \<and>
    free_txrx_pbufs starved_ops esim_cfg em1 h1 = Inr (em2, h2) \<and> ds_refs h2 = tx_held em2 - 2"
proof -
  have "ds_refs dsim0 = tx_held dsim_em + ds_rxhw dsim0"
    by (simp add: dsim0_def dsim_em_def esim_em_def tx_held_def sum_list_replicate)
  then obtain em1 h1 em2 h2 where r: "drv_run sim_bsp starved_ops esim_cfg [Rx_irq] (dsim_em, dsim0) = Some (Inr (em1, h1))"
      "free_txrx_pbufs starved_ops esim_cfg em1 h1 = Inr (em2, h2)"
      "ds_refs h2 = tx_held em2 + ds_rxhw h2 - int (cfg_n_rx esim_cfg)"
    using recovery_frees_by_slot [OF starved_rings starved_account dsim_typed, of dsim0 "[Rx_irq]"] by blast
  have "case drv_run sim_bsp starved_ops esim_cfg [Rx_irq] (dsim_em, dsim0) of
      Some (Inr (em1, h1)) \<Rightarrow> (case free_txrx_pbufs starved_ops esim_cfg em1 h1 of
        Inr (em2, h2) \<Rightarrow> ds_rxhw h2 = 2 | _ \<Rightarrow> False) | _ \<Rightarrow> False"
    by code_simp
  with r show ?thesis by (simp add: esim_cfg_def)
qed

end
