(* ===== verification/EmacBlocking.thy ===== *)
theory EmacBlocking
  imports EmacSafe
begin

text \<open>
  The build with \<open>LWIP_UDP_OPT_BLOCK_TX_TILL_COMPLETE\<close>, in which a packet may ask to be waited for: the
  parts of \<open>netif/xemacpsif_dma.c\<close> and \<open>netif/xemacpsif.c\<close> under that option. The state is the driver's with
  the array \<open>notifyinfo\<close> beside it; what the option leaves alone is taken from \<open>Emac\<close>.
\<close>

section \<open>Operations\<close>

definition get_base_index_tasknotifyinfo :: "emac_config \<Rightarrow> emac \<Rightarrow> fault + nat" where
  "get_base_index_tasknotifyinfo cfg em =
     (case base_index (cfg_n_tx cfg) 0 (cfg_bases cfg) (em_base em) None of
        None \<Rightarrow> Inl Uninit_read | Some i \<Rightarrow> Inr i)"

definition notify_set :: "nat \<Rightarrow> u32 \<Rightarrow> u32 list \<Rightarrow> fault + u32 list" where
  "notify_set i v nt = (if i < length nt then Inr (nt[i := v]) else Inl Index_range)"

fun sent_loop_b ::
  "'h xemacps \<Rightarrow> emac_config \<Rightarrow> nat \<Rightarrow> nat \<Rightarrow> nat \<Rightarrow> u64 \<Rightarrow> emac \<times> u32 list \<Rightarrow> 'h \<Rightarrow>
   fault + ((emac \<times> u32 list) \<times> 'h)" where
  "sent_loop_b x cfg index tni 0 bd s h = Inr (s, h)"
| "sent_loop_b x cfg index tni (Suc n) bd s h =
     (let (em, nt) = s;
          bdindex = XEMACPS_BD_TO_INDEX x TxRing bd h;
          h1 = xe_bd_write x bd 0 0 h;
          h2 = xe_bd_write x bd 4 (if bdindex = cfg_n_tx cfg - 1 then 0xC0000000 else 0x80000000) h1
      in bind_sum (slot_get (tx_pbufs_storage em) (index + bdindex)) (\<lambda>p.
           let h3 = (if p \<noteq> None then xe_pbuf_free x p h2 else h2)
           in bind_sum (notify_set (tni + bdindex) 0 nt) (\<lambda>nt1.
                let em1 = em\<lparr>tx_pbufs_storage := (tx_pbufs_storage em)[index + bdindex := None]\<rparr>
                in sent_loop_b x cfg index tni n (xe_next x TxRing bd h3) (em1, nt1) h3)))"

definition sent_turn_b ::
  "'h xemacps \<Rightarrow> emac_config \<Rightarrow> nat \<Rightarrow> nat \<Rightarrow> (emac \<times> u32 list) \<times> 'h \<Rightarrow>
   (fault + ((emac \<times> u32 list) \<times> 'h)) + ((emac \<times> u32 list) \<times> 'h)" where
  "sent_turn_b x cfg index tni st =
     (let (s, h) = st;
          ((n_bds, txbdset), h1) = xe_from_hw x TxRing (cfg_n_tx cfg) h
      in if n_bds = 0 then Inl (Inr (s, h1))
         else (case sent_loop_b x cfg index tni n_bds txbdset s h1 of
                 Inl f \<Rightarrow> Inl (Inl f)
               | Inr (s2, h2) \<Rightarrow> Inr (s2, snd (xe_free x TxRing n_bds txbdset h2))))"

definition process_sent_bds_b ::
  "'h xemacps \<Rightarrow> emac_config \<Rightarrow> emac \<times> u32 list \<Rightarrow> 'h \<Rightarrow> (fault + ((emac \<times> u32 list) \<times> 'h)) option" where
  "process_sent_bds_b x cfg s h =
     (case get_base_index_txpbufsstorage cfg (fst s) of
        Inl f \<Rightarrow> Some (Inl f)
      | Inr index \<Rightarrow>
          (case get_base_index_tasknotifyinfo cfg (fst s) of
             Inl f \<Rightarrow> Some (Inl f)
           | Inr tni \<Rightarrow> forever (sent_turn_b x cfg index tni) (s, h)))"

definition emacps_send_handler_b ::
  "'h xemacps \<Rightarrow> emac_config \<Rightarrow> emac \<times> u32 list \<Rightarrow> 'h \<Rightarrow> (fault + ((emac \<times> u32 list) \<times> 'h)) option" where
  "emacps_send_handler_b x cfg s h =
     (let (regval, h1) = xe_read_reg x (em_base (fst s)) TXSR h;
          h2 = xe_write_reg x (em_base (fst s)) TXSR regval h1
      in process_sent_bds_b x cfg s h2)"

text \<open>
  The fill loop is that of the build without the option, with the index of the last descriptor kept: the
  entry of the descriptor that carries the end of the packet is what the sender waits for.
\<close>

fun sgsend_loop_b ::
  "'h xemacps \<Rightarrow> emac_config \<Rightarrow> nat \<Rightarrow> nat list \<Rightarrow> u64 \<Rightarrow> u64 option \<Rightarrow> nat \<Rightarrow> emac \<Rightarrow> 'h \<Rightarrow>
   fault + ((u64 option \<times> nat) option \<times> emac \<times> 'h)" where
  "sgsend_loop_b x cfg index [] txbd last_txbd bdindex em h = Inr (Some (last_txbd, bdindex), em, h)"
| "sgsend_loop_b x cfg index (q # qs) txbd last_txbd bdindex' em h =
     (let bdindex = XEMACPS_BD_TO_INDEX x TxRing txbd h
      in bind_sum (slot_get (tx_pbufs_storage em) (index + bdindex)) (\<lambda>old.
           if old \<noteq> None then Inr (None, em, h)
           else
             let h1 = (if \<not> em_coherent em
                       then xe_dcache_flush x (xe_pbuf_payload x q h) (unat (xe_pbuf_len x q h)) h else h);
                 h2 = xe_bd_set_address_tx x txbd (xe_pbuf_payload x q h1) h1;
                 max_fr_size = cfg_max_frame cfg - 18;
                 h3 = xe_bd_set_length x txbd
                        (if unat (xe_pbuf_len x q h2) > max_fr_size
                         then of_nat max_fr_size AND 0x3FFF
                         else ucast (xe_pbuf_len x q h2) AND 0x3FFF) h2;
                 em1 = em\<lparr>tx_pbufs_storage := (tx_pbufs_storage em)[index + bdindex := Some q]\<rparr>;
                 h4 = xe_pbuf_ref x q h3;
                 h5 = xe_bd_clear_last x txbd h4
             in sgsend_loop_b x cfg index qs (xe_next x TxRing txbd h5) (Some txbd) bdindex em1 h5))"

text \<open>
  \<open>block\<close> is the argument \<open>block_till_tx_complete\<close>; the second component of the result is what
  \<open>*to_block_index\<close> was set to, \<open>None\<close> when the call did not set it.
\<close>

definition emacps_sgsend_b ::
  "'h xemacps \<Rightarrow> emac_config \<Rightarrow> nat \<Rightarrow> bool \<Rightarrow> emac \<times> u32 list \<Rightarrow> 'h \<Rightarrow>
   fault + (bool \<times> nat option \<times> (emac \<times> u32 list) \<times> 'h)" where
  "emacps_sgsend_b x cfg p block s h =
     (let (em, nt) = s
      in bind_sum (get_base_index_txpbufsstorage cfg em) (\<lambda>index.
         bind_sum (get_base_index_tasknotifyinfo cfg em) (\<lambda>tni.
           let qs = xe_pbuf_chain x p h;
               (bds, h1) = xe_alloc x TxRing (length qs) h
           in (case bds of
                 None \<Rightarrow> Inr (False, None, (em, nt), h1)
               | Some txbdset \<Rightarrow>
                   bind_sum (sgsend_loop_b x cfg index qs txbdset None 0 em h1) (\<lambda>(filled, em2, h2).
                     case filled of
                       None \<Rightarrow> Inr (False, None, (em2, nt), h2)
                     | Some (last_txbd, bdindex) \<Rightarrow>
                         bind_sum (if block then notify_set (tni + bdindex) 1 nt else Inr nt) (\<lambda>nt1.
                           case last_txbd of
                             None \<Rightarrow> Inl Null_deref
                           | Some lst \<Rightarrow>
                               (let (ok, h3) = sgsend_commit x cfg qs txbdset lst (em_base em2) h2
                                in Inr (ok, if block then Some (tni + bdindex) else None, (em2, nt1), h3))))))))"

definition unbuffered_low_level_output_b ::
  "'h xemacps \<Rightarrow> emac_config \<Rightarrow> nat \<Rightarrow> bool \<Rightarrow> emac \<times> u32 list \<Rightarrow> 'h \<Rightarrow>
   fault + (err_t \<times> nat option \<times> (emac \<times> u32 list) \<times> 'h)" where
  "unbuffered_low_level_output_b x cfg p block s h =
     bind_sum (emacps_sgsend_b x cfg p block s h) (\<lambda>(ok, i, s1, h1). Inr (if \<not> ok then ERR_MEM else ERR_OK, i, s1, h1))"


text \<open>
  \<open>usleep\<close> lets time pass; a transmit interrupt that has become pending runs the send handler before the
  sender goes on.
\<close>

record 'h sleeper =
  sl_usleep :: "'h \<Rightarrow> 'h"
  sl_tx_irq :: "'h \<Rightarrow> bool"

definition sleep_turn ::
  "'h xemacps \<Rightarrow> emac_config \<Rightarrow> 'h sleeper \<Rightarrow> (emac \<times> u32 list) \<times> 'h \<Rightarrow> (fault + ((emac \<times> u32 list) \<times> 'h)) option" where
  "sleep_turn x cfg sl st =
     (let (s, h) = st; h1 = sl_usleep sl h
      in if sl_tx_irq sl h1 then emacps_send_handler_b x cfg s h1 else Some (Inr (s, h1)))"

text \<open>The wait with its counter; \<open>True\<close> is the break that sets \<open>ERR_TIMEOUT\<close>.\<close>

fun wait_tx_done ::
  "'h xemacps \<Rightarrow> emac_config \<Rightarrow> 'h sleeper \<Rightarrow> nat \<Rightarrow> nat \<Rightarrow> (emac \<times> u32 list) \<times> 'h \<Rightarrow>
   (fault + (bool \<times> (emac \<times> u32 list) \<times> 'h)) option" where
  "wait_tx_done x cfg sl i 0 st = Some (Inr (True, st))"
| "wait_tx_done x cfg sl i (Suc notfifyblocksleepcntr) st =
     (case slot_get (snd (fst st)) i of
        Inl f \<Rightarrow> Some (Inl f)
      | Inr v \<Rightarrow>
          if v \<noteq> 1 then Some (Inr (False, st))
          else (case sleep_turn x cfg sl st of
                  None \<Rightarrow> None
                | Some (Inl f) \<Rightarrow> Some (Inl f)
                | Some (Inr st') \<Rightarrow> wait_tx_done x cfg sl i notfifyblocksleepcntr st'))"

text \<open>
  \<open>low_level_output\<close> up to the end of its protected part: \<open>None\<close> in the result is the jump to
  \<open>return_pack_dropped\<close>, otherwise the error value and \<open>to_block_index\<close>. \<open>block\<close> is the flag
  \<open>NETIF_ENABLE_BLOCKING_TX_FOR_PACKET\<close> of the interface, which the sender clears on its way out.
\<close>

definition low_level_send_b ::
  "'h xemacps \<Rightarrow> emac_config \<Rightarrow> nat \<Rightarrow> bool \<Rightarrow> emac \<times> u32 list \<Rightarrow> 'h \<Rightarrow>
   (fault + ((err_t \<times> nat option) option \<times> (emac \<times> u32 list) \<times> 'h)) option" where
  "low_level_send_b x cfg p block s h =
     (case (if is_tx_space_available x h \<le> 5 then process_sent_bds_b x cfg s h else Some (Inr (s, h))) of
        None \<Rightarrow> None
      | Some (Inl f) \<Rightarrow> Some (Inl f)
      | Some (Inr (s1, h1)) \<Rightarrow>
          Some (if is_tx_space_available x h1 \<noteq> 0
                then bind_sum (unbuffered_low_level_output_b x cfg p block s1 h1) (\<lambda>(e, i, st). Inr (Some (e, i), st))
                else Inr (None, s1, h1)))"

definition block_tx_sleeps :: nat where "block_tx_sleeps = 900000"

definition low_level_output_b ::
  "'h xemacps \<Rightarrow> emac_config \<Rightarrow> 'h sleeper \<Rightarrow> nat \<Rightarrow> bool \<Rightarrow> emac \<times> u32 list \<Rightarrow> 'h \<Rightarrow>
   (fault + (err_t \<times> bool \<times> (emac \<times> u32 list) \<times> 'h)) option" where
  "low_level_output_b x cfg sl p block s h =
     (case low_level_send_b x cfg p block s h of
        None \<Rightarrow> None
      | Some (Inl f) \<Rightarrow> Some (Inl f)
      | Some (Inr (None, st)) \<Rightarrow> Some (Inr (ERR_MEM, block, st))
      | Some (Inr (Some (e, to_block_index), st)) \<Rightarrow>
          if \<not> block then Some (Inr (e, False, st))
          else (case to_block_index of
                  None \<Rightarrow> Some (Inl Uninit_read)
                | Some i \<Rightarrow>
                    map_option (map_sum id (\<lambda>(timeout, st'). (if timeout then ERR_TIMEOUT else e, False, st')))
                      (wait_tx_done x cfg sl i block_tx_sleeps st)))"

section \<open>Without the request the build behaves as the plain one\<close>

text \<open>What remains of a state when the notification array is left out.\<close>

definition plain :: "(emac \<times> u32 list) \<times> 'h \<Rightarrow> emac \<times> 'h" where
  "plain st = (fst (fst st), snd st)"

definition notify_fits :: "emac \<times> u32 list \<Rightarrow> bool" where
  "notify_fits s \<longleftrightarrow> length (snd s) = length (tx_pbufs_storage (fst s))"

lemma plain_simp [simp]: "plain ((em, nt), h) = (em, h)"
  by (simp add: plain_def)

lemma tasknotify_index: "get_base_index_tasknotifyinfo cfg em = get_base_index_txpbufsstorage cfg em"
  by (simp add: get_base_index_tasknotifyinfo_def get_base_index_txpbufsstorage_def)

lemma sent_loop_b_plain:
  assumes "notify_fits s"
  shows "map_sum id plain (sent_loop_b x cfg index index n bd s h) = sent_loop x cfg index n bd (fst s) h \<and>
    (\<forall>s' h'. sent_loop_b x cfg index index n bd s h = Inr (s', h') \<longrightarrow> notify_fits s')"
  using assms
proof (induction n arbitrary: bd s h)
  case 0
  then show ?case by (simp add: plain_def)
next
  case (Suc n)
  obtain em nt where s: "s = (em, nt)" by fastforce
  let ?i = "index + XEMACPS_BD_TO_INDEX x TxRing bd h"
  let ?em1 = "em\<lparr>tx_pbufs_storage := (tx_pbufs_storage em)[?i := None]\<rparr>"
  show ?case
  proof (cases "?i < length (tx_pbufs_storage em)")
    case True
    have nf: "notify_fits (?em1, nt[?i := 0])" using Suc.prems by (simp add: s notify_fits_def)
    show ?thesis
      using Suc.IH [OF nf] True Suc.prems
      by (simp add: s Let_def slot_get_def notify_set_def notify_fits_def)
  qed (simp add: s Let_def slot_get_def)
qed

lemma sent_turn_b_plain:
  assumes "notify_fits (fst st)"
  shows "sent_turn x cfg index (plain st) =
      map_sum (map_sum id plain) plain (sent_turn_b x cfg index index st)"
    and "sent_turn_b x cfg index index st = Inr st' \<Longrightarrow> notify_fits (fst st')"
    and "sent_turn_b x cfg index index st = Inl (Inr st') \<Longrightarrow> notify_fits (fst st')"
proof -
  obtain s h where st: "st = (s, h)" by fastforce
  obtain n bd h1 where g: "xe_from_hw x TxRing (cfg_n_tx cfg) h = ((n, bd), h1)" by (metis surj_pair)
  have nf: "notify_fits s" using assms by (simp add: st)
  note l = sent_loop_b_plain [OF nf, of x cfg index n bd h1]
  show "sent_turn x cfg index (plain st) = map_sum (map_sum id plain) plain (sent_turn_b x cfg index index st)"
    using l [THEN conjunct1, symmetric] by (cases "sent_loop_b x cfg index index n bd s h1")
      (auto simp: st plain_def sent_turn_def sent_turn_b_def g)
  show "notify_fits (fst st')" if "sent_turn_b x cfg index index st = Inr st'"
    using that l nf by (auto simp: st sent_turn_b_def g split: if_splits sum.splits)
  show "notify_fits (fst st')" if "sent_turn_b x cfg index index st = Inl (Inr st')"
    using that nf by (auto simp: st sent_turn_b_def g split: if_splits sum.splits)
qed

lemma process_sent_b_plain:
  assumes "notify_fits s"
  shows "map_option (map_sum id plain) (process_sent_bds_b x cfg s h) = process_sent_bds x cfg (fst s) h"
    and "process_sent_bds_b x cfg s h = Some (Inr st') \<Longrightarrow> notify_fits (fst st')"
proof -
  have fm: "forever (sent_turn x cfg index) (plain (s, h)) = map_option (map_sum id plain) (forever (sent_turn_b x cfg index index) (s, h))"
    for index
    by (rule forever_map [where P = "\<lambda>st. notify_fits (fst st)"]) (use assms sent_turn_b_plain in auto)
  show "map_option (map_sum id plain) (process_sent_bds_b x cfg s h) = process_sent_bds x cfg (fst s) h"
    using fm by (simp add: process_sent_bds_b_def process_sent_bds_def tasknotify_index plain_def split: sum.split)
  show "notify_fits (fst st')" if r: "process_sent_bds_b x cfg s h = Some (Inr st')"
  proof -
    obtain index where "forever (sent_turn_b x cfg index index) (s, h) = Some (Inr st')"
      using r by (auto simp: process_sent_bds_b_def tasknotify_index split: sum.splits)
    then have "\<forall>st. Inr st' = (Inr st :: fault + _) \<longrightarrow> notify_fits (fst st)"
      by (rule forever_keeps [where P = "\<lambda>st. notify_fits (fst st)"]) (use assms sent_turn_b_plain(2,3) in auto)
    then show ?thesis by simp
  qed
qed

lemma sgsend_loop_b_plain:
  "map_sum id (\<lambda>(d, s). (map_option fst d, s)) (sgsend_loop_b x cfg index qs bd lst k em h) =
     sgsend_loop x cfg index qs bd lst em h"
proof (induction qs arbitrary: bd lst k em h)
  case (Cons q qs)
  show ?case
    by (cases "slot_get (tx_pbufs_storage em) (index + XEMACPS_BD_TO_INDEX x TxRing bd h)")
      (simp_all add: Let_def, use Cons.IH in \<open>auto simp: id_def\<close>)
qed simp

lemma sgsend_b_plain:
  "emacps_sgsend x cfg p (fst s) h =
     map_sum id (\<lambda>(ok, i, st). (ok, plain st)) (emacps_sgsend_b x cfg p False s h)"
  and sgsend_b_fits: "emacps_sgsend_b x cfg p False s h = Inr (ok, i, s', h') \<Longrightarrow> snd s' = snd s"
proof -
  obtain em nt where s: "s = (em, nt)" by fastforce
  obtain bds h1 where a: "xe_alloc x TxRing (length (xe_pbuf_chain x p h)) h = (bds, h1)" by fastforce
  note l = sgsend_loop_b_plain [of x cfg _ "xe_pbuf_chain x p h" _ None 0 em h1, symmetric]
  show "emacps_sgsend x cfg p (fst s) h = map_sum id (\<lambda>(ok, i, st). (ok, plain st)) (emacps_sgsend_b x cfg p False s h)"
    by (simp add: s emacps_sgsend_def emacps_sgsend_b_def tasknotify_index a l Let_def split_beta bind_sum_def
        split: sum.split option.split)
  show "snd s' = snd s" if r: "emacps_sgsend_b x cfg p False s h = Inr (ok, i, s', h')"
  proof (cases bds)
    case None
    then show ?thesis using r by (auto simp: s emacps_sgsend_b_def a bind_sum_Inr_iff)
  next
    case (Some bd)
    obtain index d em2 h2 where l: "get_base_index_txpbufsstorage cfg em = Inr index"
      "sgsend_loop_b x cfg index (xe_pbuf_chain x p h) bd None 0 em h1 = Inr (d, em2, h2)"
      using r Some by (auto simp: s emacps_sgsend_b_def a tasknotify_index bind_sum_Inr_iff Let_def)
    consider "d = None" | k where "d = Some (None, k)" | lst k where "d = Some (Some lst, k)"
      by (cases d) (auto, metis not_Some_eq)
    then show ?thesis
      by cases (use r Some l in \<open>auto simp: s emacps_sgsend_b_def a tasknotify_index split_beta Let_def\<close>)
  qed
qed


text \<open>
  C19: the option for blocking transmission changes nothing for a packet that does not ask for it: sending
  it and handling the transmit interrupt return, fail and fault exactly as in the build without the
  option, and run on for ever exactly when that does, with the same state of the driver and the same
  register accesses; only the notification array is kept beside it.
\<close>
theorem blocking_off_is_plain:
  assumes "notify_fits s"
  shows "map_option (map_sum id (\<lambda>(e, f, st). (e, plain st))) (low_level_output_b x cfg sl p False s h) =
      low_level_output x cfg p (fst s) h \<and>
    map_option (map_sum id plain) (emacps_send_handler_b x cfg s h) = emacps_send_handler x cfg (fst s) h"
proof
  note ps = process_sent_b_plain(1) [OF assms, of x cfg]
  show "map_option (map_sum id plain) (emacps_send_handler_b x cfg s h) = emacps_send_handler x cfg (fst s) h"
    by (simp add: emacps_send_handler_b_def emacps_send_handler_def Let_def split_beta ps)
  have out: "map_sum id (\<lambda>(e, i, st). (e, plain st)) (unbuffered_low_level_output_b x cfg p False s1 h1) =
      unbuffered_low_level_output x cfg p (fst s1) h1" for s1 h1
    using sgsend_b_plain [of x cfg p s1 h1]
    by (cases "emacps_sgsend_b x cfg p False s1 h1")
      (auto simp: unbuffered_low_level_output_b_def unbuffered_low_level_output_def plain_def)
  define r where "r = (if is_tx_space_available x h \<le> 5 then process_sent_bds_b x cfg s h else Some (Inr (s, h)))"
  have r: "(if is_tx_space_available x h \<le> 5 then process_sent_bds x cfg (fst s) h else Some (Inr (fst s, h))) =
      map_option (map_sum id plain) r"
    using ps [of h] by (simp add: r_def plain_def)
  consider "r = None" | f where "r = Some (Inl f)" | s1 h1 where "r = Some (Inr (s1, h1))"
    by (metis option.exhaust sum.exhaust surj_pair)
  then show "map_option (map_sum id (\<lambda>(e, f, st). (e, plain st))) (low_level_output_b x cfg sl p False s h) =
      low_level_output x cfg p (fst s) h"
  proof cases
    case (3 s1 h1)
    then show ?thesis
      using out [of s1 h1] by (cases "unbuffered_low_level_output_b x cfg p False s1 h1")
        (auto simp: low_level_output_b_def low_level_send_b_def low_level_output_def r_def [symmetric] r plain_def)
  qed (simp_all add: low_level_output_b_def low_level_send_b_def low_level_output_def r_def [symmetric] r)
qed


definition blocking_em :: "emac \<times> u32 list" where
  "blocking_em = (dsim_em, replicate 16 0)"

definition eager_irq :: "'h sleeper" where
  "eager_irq = \<lparr>sl_usleep = (\<lambda>h. h), sl_tx_irq = (\<lambda>h. True)\<rparr>"

theorem blocking_off_is_plain_witness:
  "map_option (map_sum id (\<lambda>(e, f, st). (e, plain st)))
      (low_level_output_b dsim_ops esim_cfg eager_irq 7 False blocking_em dsim0) =
    low_level_output dsim_ops esim_cfg 7 dsim_em dsim0"
proof -
  have "notify_fits blocking_em" by (simp add: notify_fits_def blocking_em_def dsim_em_def esim_em_def)
  from blocking_off_is_plain [OF this, of dsim_ops esim_cfg eager_irq 7 dsim0]
  have "map_option (map_sum id (\<lambda>(e, f, st). (e, plain st)))
      (low_level_output_b dsim_ops esim_cfg eager_irq 7 False blocking_em dsim0) =
    low_level_output dsim_ops esim_cfg 7 (fst blocking_em) dsim0" by (rule conjunct1)
  then show ?thesis by (simp add: blocking_em_def)
qed

section \<open>The wait for the transmission\<close>

fun sleeps ::
  "'h xemacps \<Rightarrow> emac_config \<Rightarrow> 'h sleeper \<Rightarrow> nat \<Rightarrow> (emac \<times> u32 list) \<times> 'h \<Rightarrow>
   (fault + ((emac \<times> u32 list) \<times> 'h)) option" where
  "sleeps x cfg sl 0 st = Some (Inr st)"
| "sleeps x cfg sl (Suc k) st =
     (case sleep_turn x cfg sl st of
        None \<Rightarrow> None | Some (Inl f) \<Rightarrow> Some (Inl f) | Some (Inr st') \<Rightarrow> sleeps x cfg sl k st')"

definition blocking_ok :: "emac_config \<Rightarrow> emac \<times> u32 list \<Rightarrow> bool" where
  "blocking_ok cfg s \<longleftrightarrow> emac_typed cfg (fst s) \<and> notify_fits s"

lemma blocking_ok_length: "blocking_ok cfg s \<Longrightarrow> length (snd s) = 4 * cfg_n_tx cfg"
  by (simp add: blocking_ok_def notify_fits_def emac_typed_def)

lemma process_sent_b_returns:
  assumes rings: "driver_rings b x cfg" and ok: "blocking_ok cfg s"
  shows "\<exists>s' h'. process_sent_bds_b x cfg s h = Some (Inr (s', h')) \<and> blocking_ok cfg s'"
proof -
  have nf: "notify_fits s" and ty: "emac_typed cfg (fst s)" using ok by (simp_all add: blocking_ok_def)
  obtain em' h' where p: "process_sent_bds x cfg (fst s) h = Some (Inr (em', h'))" "tx_frame em' = tx_frame (fst s)"
    using process_sent_returns [OF rings ty, of h] by blast
  then obtain st where st: "process_sent_bds_b x cfg s h = Some (Inr st)" "plain st = (em', h')"
    using process_sent_b_plain(1) [OF nf, of x cfg h] by (cases "process_sent_bds_b x cfg s h") (auto simp: map_sum_def split: sum.splits)
  then show ?thesis
    using process_sent_b_plain(2) [OF nf st(1)] emac_typed_tx [OF ty p(2)]
    by (cases st) (auto simp: blocking_ok_def plain_def)
qed

lemma sleep_turn_returns:
  assumes rings: "driver_rings b x cfg" and ok: "blocking_ok cfg (fst st)"
  shows "\<exists>st'. sleep_turn x cfg sl st = Some (Inr st') \<and> blocking_ok cfg (fst st')"
proof -
  have "\<exists>st'. emacps_send_handler_b x cfg (fst st) k = Some (Inr st') \<and> blocking_ok cfg (fst st')" for k
    using process_sent_b_returns [OF rings ok] by (fastforce simp: emacps_send_handler_b_def Let_def split_beta)
  then show ?thesis using ok by (cases "fst st") (simp add: sleep_turn_def Let_def split_beta)
qed

lemma wait_ends:
  assumes rings: "driver_rings b x cfg" and "blocking_ok cfg (fst st)" and i: "i < 4 * cfg_n_tx cfg"
  shows "\<exists>k st'. k \<le> n \<and> sleeps x cfg sl k st = Some (Inr st') \<and> wait_tx_done x cfg sl i n st = Some (Inr (k = n, st')) \<and>
    (\<forall>j < k. \<exists>sj. sleeps x cfg sl j st = Some (Inr sj) \<and> snd (fst sj) ! i = 1) \<and> (k < n \<longrightarrow> snd (fst st') ! i \<noteq> 1)"
  using assms(2)
proof (induction n arbitrary: st)
  case (Suc n)
  have g: "slot_get (snd (fst st)) i = Inr (snd (fst st) ! i)"
    using blocking_ok_length [OF Suc.prems] i by (simp add: slot_get_def)
  show ?case
  proof (cases "snd (fst st) ! i = 1")
    case False
    then show ?thesis using g by (intro exI [of _ 0]) simp
  next
    case True
    obtain st1 where t: "sleep_turn x cfg sl st = Some (Inr st1)" "blocking_ok cfg (fst st1)"
      using sleep_turn_returns [OF rings Suc.prems] by blast
    obtain k st' where ih: "k \<le> n" "sleeps x cfg sl k st1 = Some (Inr st')" "wait_tx_done x cfg sl i n st1 = Some (Inr (k = n, st'))"
      "\<forall>j < k. \<exists>sj. sleeps x cfg sl j st1 = Some (Inr sj) \<and> snd (fst sj) ! i = 1" "k < n \<longrightarrow> snd (fst st') ! i \<noteq> 1"
      using Suc.IH [OF t(2)] by blast
    have "\<exists>sj. sleeps x cfg sl j st = Some (Inr sj) \<and> snd (fst sj) ! i = 1" if "j < Suc k" for j
      using that ih(4) True t(1) by (cases j) auto
    then show ?thesis
      using ih True t(1) g by (intro exI [of _ "Suc k"] exI [of _ st']) simp
  qed
qed auto

lemma sgsend_loop_b_index:
  assumes "sgsend_loop_b x cfg index qs bd lst k em h = Inr (Some (l, k'), em', h')"
  shows "(qs = [] \<and> k' = k) \<or> index + k' < length (tx_pbufs_storage em)"
  using assms
proof (induction qs arbitrary: bd lst k em h)
  case (Cons q qs)
  let ?i = "XEMACPS_BD_TO_INDEX x TxRing bd h"
  have i: "slot_get (tx_pbufs_storage em) (index + ?i) = Inr None"
    using Cons.prems by (auto simp: Let_def bind_sum_Inr_iff split: if_splits)
  then obtain bd' h5 where
    "sgsend_loop_b x cfg index qs bd' (Some bd) ?i (em\<lparr>tx_pbufs_storage := (tx_pbufs_storage em)[index + ?i := Some q]\<rparr>) h5 =
      Inr (Some (l, k'), em', h')"
    using Cons.prems by (auto simp: Let_def)
  from Cons.IH [OF this] i show ?case by (auto simp: slot_get_Inr)
qed simp

lemma sgsend_b_returns:
  assumes rings: "driver_rings b x cfg" and ok: "blocking_ok cfg s"
  shows "\<exists>r i s' h'. emacps_sgsend_b x cfg p True s h = Inr (r, i, s', h') \<and> blocking_ok cfg s' \<and>
    (\<forall>j. i = Some j \<longrightarrow> j < 4 * cfg_n_tx cfg)"
proof -
  obtain em nt where s: "s = (em, nt)" by fastforce
  have typed: "emac_typed cfg em" and len: "length nt = length (tx_pbufs_storage em)"
    "length (tx_pbufs_storage em) = 4 * cfg_n_tx cfg"
    using ok by (simp_all add: s blocking_ok_def notify_fits_def emac_typed_def)
  obtain base sep pend where ring: "tx_ring x (cfg_n_tx cfg) base sep pend"
    and al: "\<forall>n h bd. fst (xe_alloc x TxRing n h) = Some bd \<longrightarrow> (\<exists>k < cfg_n_tx cfg. bd = bd_at base sep k)"
    and ch: "xe_pbuf_chain x p h \<noteq> []"
    using rings unfolding driver_rings_def by blast
  obtain index where ix: "get_base_index_txpbufsstorage cfg em = Inr index"
    "index + cfg_n_tx cfg \<le> length (tx_pbufs_storage em)"
    by (rule typed_tx_index [OF typed])
  let ?qs = "xe_pbuf_chain x p h"
  obtain bds h1 where a: "xe_alloc x TxRing (length ?qs) h = (bds, h1)" by fastforce
  show ?thesis
  proof (cases bds)
    case None
    then show ?thesis using ok by (simp add: s emacps_sgsend_b_def tasknotify_index ix a ex_bool_eq)
  next
    case (Some bd)
    then have "fst (xe_alloc x TxRing (length ?qs) h) = Some bd" by (simp add: a)
    with al obtain k where k: "k < cfg_n_tx cfg" "bd = bd_at base sep k" by blast
    obtain d em' h' where l: "sgsend_loop x cfg index ?qs bd None em h1 = Inr (d, em', h')" "d \<noteq> Some None"
      using sgsend_loop_returns [OF tx_ring_layout [OF ring] k(1) ix(2), of ?qs None h1] ch k(2) by blast
    obtain d2 where l2: "sgsend_loop_b x cfg index ?qs bd None 0 em h1 = Inr (d2, em', h')" "d = map_option fst d2"
      using sgsend_loop_b_plain [of x cfg index ?qs bd None 0 em h1] l(1)
      by (cases "sgsend_loop_b x cfg index ?qs bd None 0 em h1") auto
    have f: "tx_frame em' = tx_frame em" by (rule sgsend_loop_frame [OF l(1)])
    have ok': "blocking_ok cfg (em', nt')" if "length nt' = length nt" for nt'
      using emac_typed_tx [OF typed f] that len(1) f by (simp add: blocking_ok_def notify_fits_def tx_frame_def)
    consider "d2 = None" | lst k' where "d2 = Some (Some lst, k')"
      using l(2) l2(2) by (cases d2) auto
    then show ?thesis
    proof cases
      case 1
      then show ?thesis using ok' by (simp add: s emacps_sgsend_b_def tasknotify_index ix a Some l2 ex_bool_eq)
    next
      case (2 lst k')
      then have "index + k' < length nt" using sgsend_loop_b_index [OF l2(1) [unfolded 2]] ch len by auto
      then show ?thesis
        using ok' len 2 by (simp add: s emacps_sgsend_b_def tasknotify_index ix a Some l2 Let_def split_beta notify_set_def)
    qed
  qed
qed

lemma send_b_returns:
  assumes rings: "driver_rings b x cfg" and ok: "blocking_ok cfg s"
  shows "\<exists>q st. low_level_send_b x cfg p True s h = Some (Inr (q, st)) \<and> blocking_ok cfg (fst st) \<and>
    (\<forall>e i. q = Some (e, Some i) \<longrightarrow> i < 4 * cfg_n_tx cfg)"
proof -
  obtain s1 h1 where p: "(if is_tx_space_available x h \<le> 5 then process_sent_bds_b x cfg s h else Some (Inr (s, h))) =
      Some (Inr (s1, h1))" "blocking_ok cfg s1"
    using process_sent_b_returns [OF rings ok, of h] ok by (cases "is_tx_space_available x h \<le> 5") auto
  obtain r i s2 h2 where "emacps_sgsend_b x cfg p True s1 h1 = Inr (r, i, s2, h2)" "blocking_ok cfg s2"
    "\<forall>j. i = Some j \<longrightarrow> j < 4 * cfg_n_tx cfg"
    using sgsend_b_returns [OF rings p(2), of p h1] by blast
  then show ?thesis
    using p by (cases s1; cases s2) (simp add: low_level_send_b_def unbuffered_low_level_output_b_def)
qed

text \<open>
  C20: every blocking send comes to an end, after at most 900000 sleeps of a microsecond. It returns as soon
  as the entry of the packet's last descriptor is no longer one, with the error value of the submission,
  and with a time-out after exactly 900000 sleeps through which the entry stayed one, even if the last of
  them cleared it. But when the submission failed before its entry was chosen, the index that the wait
  reads was never set; and when there was no room, the sender leaves with the request for blocking still
  in the interface.
\<close>
theorem blocking_send_outcomes:
  assumes rings: "driver_rings b x cfg" and typed: "emac_typed cfg (fst s)" and fits: "notify_fits s"
  shows "\<exists>q st. low_level_send_b x cfg p True s h = Some (Inr (q, st)) \<and>
    (q = None \<longrightarrow> low_level_output_b x cfg sl p True s h = Some (Inr (ERR_MEM, True, st))) \<and>
    (\<forall>e. q = Some (e, None) \<longrightarrow> low_level_output_b x cfg sl p True s h = Some (Inl Uninit_read)) \<and>
    (\<forall>e i. q = Some (e, Some i) \<longrightarrow>
      (\<exists>k st'. k \<le> 900000 \<and> sleeps x cfg sl k st = Some (Inr st') \<and>
        (\<forall>j < k. \<exists>sj. sleeps x cfg sl j st = Some (Inr sj) \<and> snd (fst sj) ! i = 1) \<and>
        (k < 900000 \<longrightarrow> snd (fst st') ! i \<noteq> 1) \<and>
        low_level_output_b x cfg sl p True s h = Some (Inr (if k = 900000 then ERR_TIMEOUT else e, False, st'))))"
proof -
  obtain q st where q: "low_level_send_b x cfg p True s h = Some (Inr (q, st))" "blocking_ok cfg (fst st)"
    "\<forall>e i. q = Some (e, Some i) \<longrightarrow> i < 4 * cfg_n_tx cfg"
    using send_b_returns [OF rings, of s p h] typed fits by (auto simp: blocking_ok_def)
  have out: "low_level_output_b x cfg sl p True s h =
      (case q of None \<Rightarrow> Some (Inr (ERR_MEM, True, st))
       | Some (e, None) \<Rightarrow> Some (Inl Uninit_read)
       | Some (e, Some i) \<Rightarrow>
           map_option (map_sum id (\<lambda>(timeout, st'). (if timeout then ERR_TIMEOUT else e, False, st')))
             (wait_tx_done x cfg sl i 900000 st))"
    by (cases q) (auto simp: low_level_output_b_def q(1) block_tx_sleeps_def split: option.split)
  have "\<exists>k st'. k \<le> 900000 \<and> sleeps x cfg sl k st = Some (Inr st') \<and>
        (\<forall>j < k. \<exists>sj. sleeps x cfg sl j st = Some (Inr sj) \<and> snd (fst sj) ! i = 1) \<and>
        (k < 900000 \<longrightarrow> snd (fst st') ! i \<noteq> 1) \<and>
        low_level_output_b x cfg sl p True s h = Some (Inr (if k = 900000 then ERR_TIMEOUT else e, False, st'))"
    if e: "q = Some (e, Some i)" for e i
  proof -
    have i: "i < 4 * cfg_n_tx cfg" using q(3) e by blast
    obtain k st' where k: "k \<le> 900000" "sleeps x cfg sl k st = Some (Inr st')"
      "wait_tx_done x cfg sl i 900000 st = Some (Inr (k = 900000, st'))"
      "\<forall>j < k. \<exists>sj. sleeps x cfg sl j st = Some (Inr sj) \<and> snd (fst sj) ! i = 1" "k < 900000 \<longrightarrow> snd (fst st') ! i \<noteq> 1"
      using wait_ends [OF rings q(2) i, of 900000] by blast
    have "low_level_output_b x cfg sl p True s h = Some (Inr (if k = 900000 then ERR_TIMEOUT else e, False, st'))"
      unfolding out e by (simp add: k(3))
    with k show ?thesis by blast
  qed
  then show ?thesis using q(1) out by (intro exI [of _ q] exI [of _ st]) simp
qed


theorem blocking_send_outcomes_witness:
  "\<exists>e st. low_level_output_b dsim_ops esim_cfg eager_irq 7 True blocking_em dsim0 = Some (Inr (e, False, st)) \<and>
    e \<in> {ERR_OK, ERR_TIMEOUT}"
proof -
  have wf: "emac_typed esim_cfg (fst blocking_em)" "notify_fits blocking_em"
    using dsim_typed(1) by (simp_all add: blocking_em_def notify_fits_def) (simp add: dsim_em_def esim_em_def)
  have "case low_level_send_b dsim_ops esim_cfg 7 True blocking_em dsim0 of
      Some (Inr (Some (e, Some i), st)) \<Rightarrow> e = ERR_OK | _ \<Rightarrow> False" by code_simp
  then obtain i st where "low_level_send_b dsim_ops esim_cfg 7 True blocking_em dsim0 = Some (Inr (Some (ERR_OK, Some i), st))"
    by (auto split: option.splits sum.splits prod.splits)
  with blocking_send_outcomes [OF dsim_rings wf, of 7 dsim0 eager_irq] show ?thesis by fastforce
qed

end
