(* ===== verification/Board.thy ===== *)
theory Board
  imports EmacSafe EthInput
begin

text \<open>
  The Ethernet driver and the link layer together. The environment of the link layer and of the gPTP
  client is a board: the driver's registers and buffers with its statics and a status, and the function
  behind \<open>netif->linkoutput\<close> is the driver's \<open>low_level_output\<close> (\<open>xemacpsif_init\<close> of \<open>netif/xemacpsif.c\<close>
  installs it). Interrupts come between the calls of the main loop.
\<close>

section \<open>The board\<close>

datatype drv_status = Running | Faulted fault | Hung

record 'h board =
  bo_hw :: 'h
  bo_em :: emac
  bo_status :: drv_status

text \<open>Operations on the registers and buffers, lifted to the board; none of them touches the driver's statics.\<close>

definition on_board :: "('h \<Rightarrow> 'h) \<Rightarrow> 'h board \<Rightarrow> 'h board" where
  "on_board f s = s\<lparr>bo_hw := f (bo_hw s)\<rparr>"

definition res_board :: "('h \<Rightarrow> 'a \<times> 'h) \<Rightarrow> 'h board \<Rightarrow> 'a \<times> 'h board" where
  "res_board f s = (fst (f (bo_hw s)), s\<lparr>bo_hw := snd (f (bo_hw s))\<rparr>)"

definition view_board :: "('h \<Rightarrow> 'a) \<Rightarrow> 'h board \<Rightarrow> 'a" where
  "view_board f s = f (bo_hw s)"

text \<open>
  A step of the driver. Once it has stopped with a fault, or runs on for ever, the status says so and
  the driver does nothing any more.
\<close>

definition drive :: "(emac \<times> 'h \<Rightarrow> (fault + (emac \<times> 'h)) option) \<Rightarrow> 'h board \<Rightarrow> 'h board" where
  "drive f s =
     (if bo_status s \<noteq> Running then s
      else (case f (bo_em s, bo_hw s) of
              None \<Rightarrow> s\<lparr>bo_status := Hung\<rparr>
            | Some (Inl e) \<Rightarrow> s\<lparr>bo_status := Faulted e\<rparr>
            | Some (Inr (em, h)) \<Rightarrow> s\<lparr>bo_em := em, bo_hw := h\<rparr>))"

definition board_bsp :: "'h bsp \<Rightarrow> 'h board bsp" where
  "board_bsp b = \<lparr>xil_in32 = (\<lambda>a. res_board (xil_in32 b a)), xil_out32 = (\<lambda>a v. on_board (xil_out32 b a v))\<rparr>"

definition board_emac :: "'h xemacps \<Rightarrow> 'h board xemacps" where
  "board_emac x =
     \<lparr>xe_read_reg = (\<lambda>a b. res_board (xe_read_reg x a b)),
      xe_write_reg = (\<lambda>a b c. on_board (xe_write_reg x a b c)),
      xe_free_cnt = (\<lambda>a. view_board (xe_free_cnt x a)),
      xe_alloc = (\<lambda>a b. res_board (xe_alloc x a b)),
      xe_unalloc = (\<lambda>a b c. on_board (xe_unalloc x a b c)),
      xe_to_hw = (\<lambda>a b c. res_board (xe_to_hw x a b c)),
      xe_from_hw = (\<lambda>a b. res_board (xe_from_hw x a b)),
      xe_free = (\<lambda>a b c. res_board (xe_free x a b c)), xe_next = (\<lambda>a b. view_board (xe_next x a b)),
      xe_base = (\<lambda>a. view_board (xe_base x a)), xe_separation = (\<lambda>a. view_board (xe_separation x a)),
      xe_create = (\<lambda>a b c. res_board (xe_create x a b c)),
      xe_clone = (\<lambda>a b. res_board (xe_clone x a b)),
      xe_ptr_reset = (\<lambda>a b. on_board (xe_ptr_reset x a b)),
      xe_set_queue_ptr = (\<lambda>a b c. on_board (xe_set_queue_ptr x a b c)),
      xe_bd_write = (\<lambda>a b c. on_board (xe_bd_write x a b c)),
      xe_bd_clear = (\<lambda>a. on_board (xe_bd_clear x a)),
      xe_bd_set_status = (\<lambda>a b. on_board (xe_bd_set_status x a b)),
      xe_bd_set_address_tx = (\<lambda>a b. on_board (xe_bd_set_address_tx x a b)),
      xe_bd_set_address_rx = (\<lambda>a b. on_board (xe_bd_set_address_rx x a b)),
      xe_bd_set_length = (\<lambda>a b. on_board (xe_bd_set_length x a b)),
      xe_bd_get_length = (\<lambda>a. view_board (xe_bd_get_length x a)),
      xe_bd_set_last = (\<lambda>a. on_board (xe_bd_set_last x a)),
      xe_bd_clear_last = (\<lambda>a. on_board (xe_bd_clear_last x a)),
      xe_bd_clear_tx_used = (\<lambda>a. on_board (xe_bd_clear_tx_used x a)),
      xe_pool_alloc = (\<lambda>a. res_board (xe_pool_alloc x a)),
      xe_pbuf_free = (\<lambda>a. on_board (xe_pbuf_free x a)),
      xe_pbuf_ref = (\<lambda>a. on_board (xe_pbuf_ref x a)),
      xe_pbuf_chain = (\<lambda>a. view_board (xe_pbuf_chain x a)),
      xe_pbuf_payload = (\<lambda>a. view_board (xe_pbuf_payload x a)),
      xe_pbuf_len = (\<lambda>a. view_board (xe_pbuf_len x a)),
      xe_pbuf_realloc = (\<lambda>a b. on_board (xe_pbuf_realloc x a b)),
      xe_dcache_flush = (\<lambda>a b. on_board (xe_dcache_flush x a b)),
      xe_dcache_inval = (\<lambda>a b. on_board (xe_dcache_inval x a b)),
      xe_pq_enqueue = (\<lambda>a. res_board (xe_pq_enqueue x a)), xe_pq_qlength = view_board (xe_pq_qlength x),
      xe_pq_dequeue = res_board (xe_pq_dequeue x), xe_stop = on_board (xe_stop x), xe_start = on_board (xe_start x),
      xe_set_options = (\<lambda>a. res_board (xe_set_options x a)),
      xe_clear_options = (\<lambda>a. res_board (xe_clear_options x a)),
      xe_set_hash = (\<lambda>a. on_board (xe_set_hash x a)),
      xe_delete_hash = (\<lambda>a. on_board (xe_delete_hash x a)),
      xe_wait_tx_idle = (\<lambda>s. map_option (\<lambda>h. s\<lparr>bo_hw := h\<rparr>) (xe_wait_tx_idle x (bo_hw s))),
      xe_cfg_initialize = (\<lambda>a. res_board (xe_cfg_initialize x a)),
      xe_init_emacps = on_board (xe_init_emacps x), xe_init_emacps_on_error = on_board (xe_init_emacps_on_error x),
      xe_setup_isr = on_board (xe_setup_isr x), xe_start_emacps = on_board (xe_start_emacps x),
      xe_set_tlb = (\<lambda>a. on_board (xe_set_tlb x a)),
      xe_gic_register = (\<lambda>a. on_board (xe_gic_register x a)),
      xe_gic_enable = (\<lambda>a. on_board (xe_gic_enable x a)),
      xe_gic_disable = (\<lambda>a. on_board (xe_gic_disable x a))\<rparr>"

text \<open>The stack on the board: only the link output is more than a lifted operation.\<close>

definition board_lwip :: "'h bsp \<Rightarrow> 'h lwip \<Rightarrow> 'h xemacps \<Rightarrow> emac_config \<Rightarrow> 'h board lwip" where
  "board_lwip b l x cfg =
     \<lparr>lw_udp_new = res_board (lw_udp_new l), lw_udp_bind = (\<lambda>p port. on_board (lw_udp_bind l p port)),
      lw_udp_recv = (\<lambda>p. on_board (lw_udp_recv l p)),
      lw_udp_sendto = (\<lambda>c p a port. on_board (lw_udp_sendto l c p a port)),
      lw_udp_remove = (\<lambda>c. on_board (lw_udp_remove l c)),
      lw_pbuf_alloc = (\<lambda>y n. res_board (lw_pbuf_alloc l y n)),
      lw_pbuf_set_len = (\<lambda>p n. on_board (lw_pbuf_set_len l p n)),
      lw_pbuf_store = (\<lambda>p bs. on_board (lw_pbuf_store l p bs)), lw_pbuf_free = (\<lambda>p. on_board (lw_pbuf_free l p)),
      lw_pbuf_msg = (\<lambda>p. view_board (lw_pbuf_msg l p)),
      lw_igmp_joingroup_netif = (\<lambda>a. on_board (lw_igmp_joingroup_netif l a)),
      lw_linkoutput = (\<lambda>p. drive (drv_step b x cfg (Tx_packet p)))\<rparr>"

text \<open>The events: a call of the poll function, and the driver's own (a packet the application sends, interrupts, errors).\<close>

datatype board_event = Poll | Driver drv_event

fun board_do ::
  "eth_config \<Rightarrow> 'h board link_stack \<Rightarrow> 'h bsp \<Rightarrow> 'h lwip \<Rightarrow> 'h xemacps \<Rightarrow> emac_config \<Rightarrow> board_event \<Rightarrow>
   'h board ptp_node \<Rightarrow> fault + 'h board ptp_node" where
  "board_do c ls b l x cfg Poll nd =
     bind_sum (xemacpsif_input c (board_emac x) (board_lwip b l x cfg) (ethernet_input c ls (board_lwip b l x cfg)) nd)
       (\<lambda>(r, nd1). Inr nd1)"
| "board_do c ls b l x cfg (Driver e) nd = Inr (on_hw (drive (drv_step b x cfg e)) nd)"

fun board_run ::
  "eth_config \<Rightarrow> 'h board link_stack \<Rightarrow> 'h bsp \<Rightarrow> 'h lwip \<Rightarrow> 'h xemacps \<Rightarrow> emac_config \<Rightarrow> board_event list \<Rightarrow>
   'h board ptp_node \<Rightarrow> fault + 'h board ptp_node" where
  "board_run c ls b l x cfg [] nd = Inr nd"
| "board_run c ls b l x cfg (e # es) nd = bind_sum (board_do c ls b l x cfg e nd) (board_run c ls b l x cfg es)"

section \<open>Separate accounts\<close>

text \<open>What the stack and the clock leave alone.\<close>

definition net_keeps :: "'h bsp \<Rightarrow> 'h lwip \<Rightarrow> ('h \<Rightarrow> int) \<Rightarrow> bool" where
  "net_keeps b l d \<longleftrightarrow>
     (\<forall>h. d (snd (lw_udp_new l h)) = d h) \<and>
     (\<forall>h p port. d (lw_udp_bind l p port h) = d h) \<and>
     (\<forall>h p. d (lw_udp_recv l p h) = d h) \<and>
     (\<forall>h c p a port. d (lw_udp_sendto l c p a port h) = d h) \<and>
     (\<forall>h c. d (lw_udp_remove l c h) = d h) \<and>
     (\<forall>h y n. d (snd (lw_pbuf_alloc l y n h)) = d h) \<and>
     (\<forall>h p n. d (lw_pbuf_set_len l p n h) = d h) \<and>
     (\<forall>h p bs. d (lw_pbuf_store l p bs h) = d h) \<and>
     (\<forall>h p. d (lw_pbuf_free l p h) = d h) \<and>
     (\<forall>h a. d (lw_igmp_joingroup_netif l a h) = d h) \<and>
     (\<forall>h p. d (lw_linkoutput l p h) = d h) \<and>
     (\<forall>h a. d (snd (xil_in32 b a h)) = d h) \<and>
     (\<forall>h a v. d (xil_out32 b a v h) = d h)"

text \<open>
  Four accounts over the same environment: \<open>refs\<close> and \<open>pcbs\<close> are the application's, \<open>drefs\<close> and \<open>rxhw\<close>
  the driver's. Neither side's operations move the other's; for the driver that is said of the sums.
\<close>

definition board_accounts ::
  "'h bsp \<Rightarrow> 'h lwip \<Rightarrow> 'h xemacps \<Rightarrow> ('h \<Rightarrow> int) \<Rightarrow> ('h \<Rightarrow> int) \<Rightarrow> ('h \<Rightarrow> int) \<Rightarrow> ('h \<Rightarrow> int) \<Rightarrow> bool" where
  "board_accounts b l x refs pcbs drefs rxhw \<longleftrightarrow>
     net_pool b l refs pcbs \<and> net_keeps b l drefs \<and> net_keeps b l rxhw \<and>
     emac_account b x drefs rxhw \<and> emac_account b x (\<lambda>h. drefs h + refs h) rxhw \<and>
     emac_account b x (\<lambda>h. drefs h + pcbs h) rxhw"

definition app_refs :: "('h \<Rightarrow> int) \<Rightarrow> 'h board \<Rightarrow> int" where
  "app_refs refs s = refs (bo_hw s)"

definition drv_balance :: "('h \<Rightarrow> int) \<Rightarrow> ('h \<Rightarrow> int) \<Rightarrow> 'h board \<Rightarrow> int" where
  "drv_balance drefs rxhw s = balance drefs rxhw (bo_em s) (bo_hw s)"

definition board_ok :: "emac_config \<Rightarrow> 'h board \<Rightarrow> bool" where
  "board_ok cfg s \<longleftrightarrow> bo_status s = Running \<and> emac_ok cfg (bo_em s)"

text \<open>
  What is relied on in the stack around the link layer, whose functions may send through the link
  output as often as they like: they take and give the application's buffers as before, and have no way
  to the driver's statics but the driver's functions, which keep its balance and its state in order.
\<close>

definition stack_on_board ::
  "'h board link_stack \<Rightarrow> 'h bsp \<Rightarrow> 'h lwip \<Rightarrow> 'h xemacps \<Rightarrow> emac_config \<Rightarrow> ('h \<Rightarrow> int) \<Rightarrow> ('h \<Rightarrow> int) \<Rightarrow>
   ('h \<Rightarrow> int) \<Rightarrow> ('h \<Rightarrow> int) \<Rightarrow> bool" where
  "stack_on_board ls b l x cfg refs pcbs drefs rxhw \<longleftrightarrow>
     full_traffic ls (board_lwip b l x cfg) (board_emac x) \<and>
     (\<forall>f \<in> {\<lambda>s. 0, drv_balance drefs rxhw, \<lambda>s. of_bool (board_ok cfg s)}.
        link_account ls (board_lwip b l x cfg) (board_emac x) (\<lambda>s. app_refs refs s + f s) (app_refs pcbs))"

section \<open>A driver step on the board\<close>

lemma low_level_output_frame:
  assumes "low_level_output x cfg p em h = Some (Inr (e, em', h'))"
  shows "tx_frame em' = tx_frame em"
proof -
  obtain em1 h1 where s: "(if is_tx_space_available x h \<le> 5 then process_sent_bds x cfg em h else Some (Inr (em, h))) =
      Some (Inr (em1, h1))"
    using assms by (auto simp: low_level_output_def split: option.splits sum.splits)
  then have "tx_frame em1 = tx_frame em"
    using process_sent_frame [of x cfg em h em1 h1] by (auto split: if_splits)
  moreover have "tx_frame em' = tx_frame em1"
    using assms s by (auto simp: low_level_output_def unbuffered_low_level_output_def bind_sum_Inr_iff
      dest: sgsend_frame split: if_splits)
  ultimately show ?thesis by simp
qed

lemma drive_cases:
  obtains (same) "drive f s = s" "bo_status s \<noteq> Running"
  | (stop) st where "drive f s = s\<lparr>bo_status := st\<rparr>" "bo_status s = Running" "st \<noteq> Running"
      "\<nexists>em h. f (bo_em s, bo_hw s) = Some (Inr (em, h))"
  | (go) em h where "drive f s = s\<lparr>bo_em := em, bo_hw := h\<rparr>" "f (bo_em s, bo_hw s) = Some (Inr (em, h))"
      "bo_status s = Running"
proof (cases "bo_status s = Running")
  case True
  consider "f (bo_em s, bo_hw s) = None" | e where "f (bo_em s, bo_hw s) = Some (Inl e)"
    | em h where "f (bo_em s, bo_hw s) = Some (Inr (em, h))"
    by (metis option.exhaust sum.exhaust surj_pair)
  then show thesis
  proof cases
    case 1
    then show ?thesis using stop [of Hung] True by (simp add: drive_def)
  next
    case (2 e)
    then show ?thesis using stop [of "Faulted e"] True by (simp add: drive_def)
  next
    case (3 em h)
    then show ?thesis using go [OF _ 3 True] True by (simp add: drive_def)
  qed
qed (use same in \<open>simp add: drive_def\<close>)

lemma drive_keeps:
  fixes s cfg e
  assumes acc: "board_accounts b l x refs pcbs drefs rxhw"
  defines "s' \<equiv> drive (drv_step b x cfg e) s"
  shows "app_refs refs s' = app_refs refs s" "app_refs pcbs s' = app_refs pcbs s"
    "drv_balance drefs rxhw s' = drv_balance drefs rxhw s"
proof -
  have a: "emac_account b x drefs rxhw" "emac_account b x (\<lambda>h. drefs h + refs h) rxhw"
    "emac_account b x (\<lambda>h. drefs h + pcbs h) rxhw" using acc by (simp_all add: board_accounts_def)
  have "app_refs refs s' = app_refs refs s \<and> app_refs pcbs s' = app_refs pcbs s \<and>
      drv_balance drefs rxhw s' = drv_balance drefs rxhw s"
  proof (cases rule: drive_cases [of "drv_step b x cfg e" s])
    case (go em h)
    then show ?thesis
      using drv_step_balance [OF a(1) go(2)] drv_step_balance [OF a(2) go(2)] drv_step_balance [OF a(3) go(2)]
      by (simp add: s'_def app_refs_def drv_balance_def balance_def)
  qed (simp_all add: s'_def app_refs_def drv_balance_def)
  then show "app_refs refs s' = app_refs refs s" "app_refs pcbs s' = app_refs pcbs s"
    "drv_balance drefs rxhw s' = drv_balance drefs rxhw s" by simp_all
qed

lemma drive_ok:
  assumes "driver_rings b x cfg" and "board_ok cfg s"
  shows "board_ok cfg (drive (drv_step b x cfg e) s)"
  using drv_step_ok [OF assms(1), of "bo_em s" e "bo_hw s"] assms(2)
  by (auto simp: board_ok_def drive_def)

lemma linkoutput_ok:
  assumes rings: "driver_rings b x cfg"
  shows "board_ok cfg (drive (drv_step b x cfg (Tx_packet p)) s) = board_ok cfg s"
proof (cases rule: drive_cases [of "drv_step b x cfg (Tx_packet p)" s])
  case (go em h)
  then obtain e where "low_level_output x cfg p (bo_em s) (bo_hw s) = Some (Inr (e, em, h))"
    by (auto simp: bind_sum_Inr_iff)
  then have f: "tx_frame em = tx_frame (bo_em s)" by (rule low_level_output_frame)
  have "emac_ok cfg em \<longleftrightarrow> emac_ok cfg (bo_em s)"
    unfolding emac_ok_def using emac_typed_tx rx_slots_tx f f [symmetric] by metis
  then show ?thesis using go by (simp add: board_ok_def)
next
  case (stop st)
  then have "\<not> emac_ok cfg (bo_em s)" using drv_step_ok [OF rings, of "bo_em s"] by blast
  then show ?thesis using stop by (simp add: board_ok_def)
qed simp


section \<open>The contract between the driver and its clients\<close>

text \<open>
  What the link layer and the stack rely on in the driver: counters that no step of it moves, the sending
  of a packet not even when the driver is out of order, and a condition under which it stays in order.
\<close>

locale link_driver =
  fixes step :: "drv_event \<Rightarrow> 'h board \<Rightarrow> 'h board" and counted :: "('h board \<Rightarrow> int) set"
    and ok :: "'h board \<Rightarrow> bool"
  assumes kept: "ok s \<Longrightarrow> f \<in> counted \<Longrightarrow> f (step e s) = f s"
    and sent: "f \<in> counted \<Longrightarrow> f (step (Tx_packet p) s) = f s"
    and stays: "ok s \<Longrightarrow> ok (step e s)"
begin

lemma all_sent: "f \<in> counted \<Longrightarrow> f (fold (\<lambda>p. step (Tx_packet p)) ps s) = f s"
  by (induction ps arbitrary: s) (simp_all add: sent)

lemma all_kept: "ok s \<Longrightarrow> f \<in> counted \<Longrightarrow> ok (fold step es s) \<and> f (fold step es s) = f s"
  by (induction es arbitrary: s) (simp_all add: kept stays)

end

definition counters :: "emac_config \<Rightarrow> ('h \<Rightarrow> int) \<Rightarrow> ('h \<Rightarrow> int) \<Rightarrow> ('h board \<Rightarrow> int) set" where
  "counters cfg drefs rxhw = {\<lambda>s. 0, drv_balance drefs rxhw, \<lambda>s. of_bool (board_ok cfg s)}"

text \<open>
  The laws depend on the rings and the accounts, which are not part of the repository, so the counters
  and the condition carry them.
\<close>

interpretation driver: link_driver "\<lambda>e. drive (drv_step b x cfg e)"
  "{f. driver_rings b x cfg \<and> board_accounts b l x refs pcbs drefs rxhw \<and>
     f \<in> {app_refs refs, app_refs pcbs} \<union> counters cfg drefs rxhw}"
  "\<lambda>s. driver_rings b x cfg \<and> board_ok cfg s" for b :: "'h bsp" and l x cfg refs pcbs drefs rxhw
proof
  fix f :: "'h board \<Rightarrow> int" and s e p
  assume f: "f \<in> {f. driver_rings b x cfg \<and> board_accounts b l x refs pcbs drefs rxhw \<and>
     f \<in> {app_refs refs, app_refs pcbs} \<union> counters cfg drefs rxhw}"
  then have rings: "driver_rings b x cfg" and acc: "board_accounts b l x refs pcbs drefs rxhw" by simp_all
  note keep = drive_keeps [OF acc, of cfg]
  show "f (drive (drv_step b x cfg (Tx_packet p)) s) = f s"
    using f keep linkoutput_ok [OF rings] by (auto simp: counters_def)
  show "f (drive (drv_step b x cfg e) s) = f s" if "driver_rings b x cfg \<and> board_ok cfg s"
    using f keep drive_ok [OF rings, of s e] that by (auto simp: counters_def)
qed (simp add: drive_ok)

section \<open>The accounts of the composed stack\<close>

lemma net_pool_add: "net_pool b l refs pcbs \<Longrightarrow> net_keeps b l d \<Longrightarrow> net_pool b l (\<lambda>h. refs h + d h) pcbs"
  by (simp add: net_pool_def net_keeps_def)

lemma net_keeps_diff: "net_keeps b l d \<Longrightarrow> net_keeps b l e \<Longrightarrow> net_keeps b l (\<lambda>h. d h - c - e h)"
  by (simp add: net_keeps_def)

lemma net_keeps_const: "net_keeps b l (\<lambda>h. c)"
  by (simp add: net_keeps_def)

lemma board_same [simp]: "s\<lparr>bo_hw := bo_hw s\<rparr> = (s :: 'h board)"
  by (cases s) simp

lemma board_net_pool:
  assumes inner: "\<And>s. net_pool b l (\<lambda>h. I (s\<lparr>bo_hw := h\<rparr>)) (\<lambda>h. P (s\<lparr>bo_hw := h\<rparr>))"
    and out: "\<And>p s. I (drive (drv_step b x cfg (Tx_packet p)) s) = I s" "\<And>p s. P (drive (drv_step b x cfg (Tx_packet p)) s) = P s"
  shows "net_pool (board_bsp b) (board_lwip b l x cfg) I P"
  unfolding net_pool_def board_bsp_def board_lwip_def on_board_def res_board_def
  by (simp add: inner [unfolded net_pool_def] out)

lemma board_link_ok:
  assumes rings: "driver_rings b x cfg" and acc: "board_accounts b l x refs pcbs drefs rxhw"
    and stack: "stack_on_board ls b l x cfg refs pcbs drefs rxhw" and f: "f \<in> counters cfg drefs rxhw"
  shows "link_ok (board_bsp b) ls (board_lwip b l x cfg) (board_emac x) (\<lambda>s. app_refs refs s + f s) (app_refs pcbs)"
proof -
  have k: "net_keeps b l (\<lambda>h. f (s\<lparr>bo_hw := h\<rparr>))" for s
    using f acc net_keeps_diff [of b l drefs rxhw "tx_held (bo_em s)"]
    by (auto simp: counters_def board_accounts_def drv_balance_def balance_def board_ok_def intro: net_keeps_const)
  have "net_pool (board_bsp b) (board_lwip b l x cfg) (\<lambda>s. app_refs refs s + f s) (app_refs pcbs)"
  proof (rule board_net_pool)
    show "net_pool b l (\<lambda>h. app_refs refs (s\<lparr>bo_hw := h\<rparr>) + f (s\<lparr>bo_hw := h\<rparr>)) (\<lambda>h. app_refs pcbs (s\<lparr>bo_hw := h\<rparr>))" for s
      using net_pool_add [OF _ k] acc by (simp add: app_refs_def board_accounts_def)
    show "app_refs refs (drive (drv_step b x cfg (Tx_packet p)) s) + f (drive (drv_step b x cfg (Tx_packet p)) s) =
        app_refs refs s + f s" for p s
      using driver.sent [of f b x cfg l refs pcbs drefs rxhw] driver.sent [of "app_refs refs" b x cfg l refs pcbs drefs rxhw]
        rings acc f by simp
    show "app_refs pcbs (drive (drv_step b x cfg (Tx_packet p)) s) = app_refs pcbs s" for p s
      using driver.sent [of "app_refs pcbs" b x cfg l refs pcbs drefs rxhw] rings acc by simp
  qed
  then show ?thesis
    using stack f by (auto simp: link_ok_def stack_on_board_def counters_def)
qed

section \<open>Running\<close>

definition board_inv where
  "board_inv b l x cfg refs pcbs drefs rxhw k n nd \<longleftrightarrow>
     (\<forall>f \<in> counters cfg drefs rxhw. gptp_owned (board_bsp b) (board_lwip b l x cfg)
        (\<lambda>s. app_refs refs s + f s) (app_refs pcbs) k (n f) nd)"

lemma board_inv_poll:
  assumes rings: "driver_rings b x cfg" and acc: "board_accounts b l x refs pcbs drefs rxhw"
    and stack: "stack_on_board ls b l x cfg refs pcbs drefs rxhw"
    and inv: "board_inv b l x cfg refs pcbs drefs rxhw k n nd"
  shows "\<exists>nd'. board_do c ls b l x cfg Poll nd = Inr nd' \<and> board_inv b l x cfg refs pcbs drefs rxhw k n nd'"
proof -
  let ?r = "xemacpsif_input c (board_emac x) (board_lwip b l x cfg) (ethernet_input c ls (board_lwip b l x cfg)) nd"
  have all: "\<exists>r nd'. ?r = Inr (r, nd') \<and> gptp_owned (board_bsp b) (board_lwip b l x cfg)
        (\<lambda>s. app_refs refs s + f s) (app_refs pcbs) k (n f) nd'" if f: "f \<in> counters cfg drefs rxhw" for f
    using link.poll_keeps [of "board_bsp b" ls "board_lwip b l x cfg" "board_emac x" "\<lambda>s. app_refs refs s + f s"
        "app_refs pcbs" k "n f" nd c c] board_link_ok [OF rings acc stack f] inv f
    by (simp add: board_inv_def)
  obtain r nd' where r: "?r = Inr (r, nd')" using all [of "\<lambda>s. 0"] by (auto simp: counters_def)
  have "board_inv b l x cfg refs pcbs drefs rxhw k n nd'"
    unfolding board_inv_def
  proof
    fix f assume "f \<in> counters cfg drefs rxhw"
    from all [OF this] r show "gptp_owned (board_bsp b) (board_lwip b l x cfg)
        (\<lambda>s. app_refs refs s + f s) (app_refs pcbs) k (n f) nd'" by simp
  qed
  with r show ?thesis by simp
qed

lemma board_inv_driver:
  assumes rings: "driver_rings b x cfg" and acc: "board_accounts b l x refs pcbs drefs rxhw"
    and stack: "stack_on_board ls b l x cfg refs pcbs drefs rxhw"
    and inv: "board_inv b l x cfg refs pcbs drefs rxhw k n nd"
    and ok: "board_ok cfg (hw (nd_world nd))"
  shows "board_inv b l x cfg refs pcbs drefs rxhw k n (on_hw (drive (drv_step b x cfg e)) nd)"
  unfolding board_inv_def
proof
  fix f assume f: "f \<in> counters cfg drefs rxhw"
  let ?s = "hw (nd_world nd)" and ?d = "drive (drv_step b x cfg e)"
  have np: "net_pool (board_bsp b) (board_lwip b l x cfg) (\<lambda>s. app_refs refs s + f s) (app_refs pcbs)"
    using board_link_ok [OF rings acc stack f] by (simp add: link_ok_def)
  have moved: "g (?d ?s) = g ?s" if "g \<in> {app_refs refs, app_refs pcbs} \<union> counters cfg drefs rxhw" for g
    using driver.kept [OF conjI [OF rings ok], of g l refs pcbs drefs rxhw e] rings acc that by simp
  have "app_refs refs (?d ?s) + f (?d ?s) = app_refs refs ?s + f ?s" "app_refs pcbs (?d ?s) = app_refs pcbs ?s"
    using moved [of "app_refs refs"] moved [of f] moved [of "app_refs pcbs"] f by simp_all
  then show "gptp_owned (board_bsp b) (board_lwip b l x cfg) (\<lambda>s. app_refs refs s + f s) (app_refs pcbs) k (n f)
      (on_hw ?d nd)"
    using gptp_owned_hw [OF _ np, of k "n f" nd ?d 0] inv f by (simp add: board_inv_def)
qed

lemma board_inv_counts:
  assumes rings: "driver_rings b x cfg" and acc: "board_accounts b l x refs pcbs drefs rxhw"
    and stack: "stack_on_board ls b l x cfg refs pcbs drefs rxhw"
    and inv: "board_inv b l x cfg refs pcbs drefs rxhw k n nd" and f: "f \<in> counters cfg drefs rxhw"
  shows "app_refs refs (hw (nd_world nd)) + f (hw (nd_world nd)) = n f" "app_refs pcbs (hw (nd_world nd)) = k"
    "service_inv (nd_world nd)" "counter_ok (nd_world nd)"
  using board_link_ok [OF rings acc stack f] inv f
  by (auto simp: board_inv_def gptp_owned_def node_inv_def link_ok_def)


lemma board_ops_keep:
  "bo_em (on_board g s) = bo_em s" "bo_status (on_board g s) = bo_status s"
  "bo_em (snd (res_board r s)) = bo_em s" "bo_status (snd (res_board r s)) = bo_status s"
  by (simp_all add: on_board_def res_board_def)

lemma board_start_keeps:
  defines "nd0 \<equiv> \<lambda>b l x cfg q em ip s. gptp_init (board_bsp b) (board_lwip b l x cfg) (board_emac x) cfg q em ip (node_boot s)"
  shows "bo_em (hw (nd_world (nd0 b l x cfg q em ip s))) = bo_em s"
    "bo_status (hw (nd_world (nd0 b l x cfg q em ip s))) = bo_status s"
  by (simp_all add: nd0_def gptp_init_def init_gptp_task_def set_gptp_param_def ptp_start_sync_def lw_def Let_def init_tsu_def
      write_reg_def read_reg_def split_beta enable_mac_multicast_def reset_dma_def gigeversion_def node_boot_def ptp_boot_def
      timesync.defs tsu.defs tsu_boot_def timesync_boot_def board_bsp_def board_lwip_def board_emac_def board_ops_keep)

text \<open>
  C1: the program over Ethernet is safe together with its driver. After start-up, in any interleaving of
  polls with transmit and receive interrupts, transmit errors and packets sent by the application, and
  whatever frames arrive: no call of the poll function stops; the delay requests and answers that are sent
  in the middle of it never find the driver in a state that makes it fault or hang; the state machine
  keeps its invariant; the application holds the buffers and control blocks it held after start-up; and
  the driver's references are accounted for by its slots and descriptors as they were then.
\<close>
theorem board_runs_safely:
  assumes rings: "driver_rings b x cfg" and acc: "board_accounts b l x refs pcbs drefs rxhw"
    and stack: "stack_on_board ls b l x cfg refs pcbs drefs rxhw"
    and start: "bo_status s0 = Running" "emac_typed cfg (bo_em s0)" "rx_slots_filled cfg (bo_em s0)"
    and nd0: "nd0 = gptp_init (board_bsp b) (board_lwip b l x cfg) (board_emac x) cfg q (bo_em s0)
      (init_param (board_bsp b)) (node_boot s0)"
  shows "\<exists>nd. board_run c ls b l x cfg es nd0 = Inr nd \<and> bo_status (hw (nd_world nd)) = Running \<and>
    service_inv (nd_world nd) \<and> counter_ok (nd_world nd) \<and>
    app_refs refs (hw (nd_world nd)) = app_refs refs (hw (nd_world nd0)) \<and>
    app_refs pcbs (hw (nd_world nd)) = app_refs pcbs (hw (nd_world nd0)) \<and>
    drv_balance drefs rxhw (hw (nd_world nd)) = drv_balance drefs rxhw (hw (nd_world nd0))"
proof -
  let ?C = "counters cfg drefs rxhw" and ?h0 = "hw (nd_world nd0)"
  define k where "k = app_refs pcbs ?h0"
  define n where "n f = app_refs refs ?h0 + f ?h0" for f :: "'a board \<Rightarrow> int"
  let ?inv = "board_inv b l x cfg refs pcbs drefs rxhw k n"
  have ok0: "board_ok cfg ?h0"
    using start by (simp add: nd0 board_ok_def emac_ok_def board_start_keeps)
  have inv0: "?inv nd0"
    unfolding board_inv_def n_def k_def nd0 by (intro ballI gptp_init_owned)
  have mem: "(\<lambda>s. 0) \<in> ?C" "drv_balance drefs rxhw \<in> ?C" "(\<lambda>s. of_bool (board_ok cfg s)) \<in> ?C"
    by (simp_all add: counters_def)
  note counts = board_inv_counts [OF rings acc stack]
  have ok: "board_ok cfg (hw (nd_world nd))" if "?inv nd" for nd
    using counts(1) [OF that mem(1)] counts(1) [OF that mem(3)] ok0 by (simp add: n_def split: if_splits)
  have step: "\<exists>nd'. board_do c ls b l x cfg e nd = Inr nd' \<and> ?inv nd'" if "?inv nd" for e nd
  proof (cases e)
    case Poll
    then show ?thesis using board_inv_poll [OF rings acc stack that] by simp
  next
    case (Driver d)
    then show ?thesis using board_inv_driver [OF rings acc stack that ok [OF that]] by simp
  qed
  have "\<exists>nd'. board_run c ls b l x cfg es nd = Inr nd' \<and> ?inv nd'" if "?inv nd" for nd
    using that
  proof (induction es arbitrary: nd)
    case (Cons e es)
    then show ?case using step [of nd e] by force
  qed simp
  then obtain nd where r: "board_run c ls b l x cfg es nd0 = Inr nd" "?inv nd" using inv0 by blast
  show ?thesis
    using r ok [OF r(2)] counts(1) [OF r(2) mem(1)] counts(1) [OF r(2) mem(2)] counts(2-4) [OF r(2) mem(1)]
    by (simp add: n_def k_def board_ok_def)
qed


section \<open>A stack that answers\<close>

text \<open>
  A stack over the registers, put on the board: after each of its input functions it sends the packets
  \<open>out\<close> names through the link output.
\<close>

definition send_all :: "'h bsp \<Rightarrow> 'h xemacps \<Rightarrow> emac_config \<Rightarrow> nat list \<Rightarrow> 'h board \<Rightarrow> 'h board" where
  "send_all b x cfg ps = fold (\<lambda>p. drive (drv_step b x cfg (Tx_packet p))) ps"

definition answering ::
  "'h bsp \<Rightarrow> 'h xemacps \<Rightarrow> emac_config \<Rightarrow> 'h link_stack \<Rightarrow> (nat \<Rightarrow> 'h \<Rightarrow> nat list) \<Rightarrow> 'h board link_stack" where
  "answering b x cfg ls out =
     (let after = (\<lambda>p s s'. send_all b x cfg (out p (bo_hw s)) s');
          handle = (\<lambda>f p s. after p s (on_board (f p) s));
          input = (\<lambda>f p s. let (d, s') = res_board (f p) s in (d, after p s s'))
      in \<lparr>ls_has_index = (\<lambda>p. view_board (ls_has_index ls p)), ls_set_index = (\<lambda>p. on_board (ls_set_index ls p)),
          ls_mark_multicast = (\<lambda>p. on_board (ls_mark_multicast ls p)),
          ls_mark_broadcast = (\<lambda>p. on_board (ls_mark_broadcast ls p)), ls_netif_etharp = view_board (ls_netif_etharp ls),
          ls_remove_header = (\<lambda>p n. res_board (ls_remove_header ls p n)),
          ls_add_header = (\<lambda>p n. res_board (ls_add_header ls p n)), ls_write = (\<lambda>p i bs. on_board (ls_write ls p i bs)),
          ls_ip4_input = input (ls_ip4_input ls), ls_ip6_input = input (ls_ip6_input ls),
          ls_etharp_input = handle (ls_etharp_input ls), ls_pppoe_disc = handle (ls_pppoe_disc ls),
          ls_pppoe_data = handle (ls_pppoe_data ls)\<rparr>)"

lemma send_all_keeps:
  assumes "driver_rings b x cfg" and "board_accounts b l x refs pcbs drefs rxhw"
  shows "app_refs refs (send_all b x cfg ps s) = app_refs refs s" "app_refs pcbs (send_all b x cfg ps s) = app_refs pcbs s"
    "f \<in> counters cfg drefs rxhw \<Longrightarrow> f (send_all b x cfg ps s) = f s"
  using driver.all_sent [of _ b x cfg l refs pcbs drefs rxhw ps s] assms by (simp_all add: send_all_def)

lemma link_account_apart:
  assumes "link_account ls l x refs pcbs" and "link_account ls l x (\<lambda>h. refs h + d h) pcbs"
  shows "d (ls_set_index ls p h) = d h" "d (ls_mark_multicast ls p h) = d h" "d (ls_mark_broadcast ls p h) = d h"
    "d (snd (ls_remove_header ls p n h)) = d h" "d (snd (ls_ip4_input ls p h)) = d h" "d (snd (ls_ip6_input ls p h)) = d h"
    "d (ls_etharp_input ls p h) = d h" "d (ls_pppoe_disc ls p h) = d h" "d (ls_pppoe_data ls p h) = d h"
    "d (snd (xe_pq_dequeue x h)) = d h"
  using assms unfolding link_account_def by simp_all

lemma stack_answering:
  assumes rings: "driver_rings b x cfg" and acc: "board_accounts b l x refs pcbs drefs rxhw"
    and ls: "\<forall>d \<in> {\<lambda>h. 0, drefs, rxhw}. link_account ls l x (\<lambda>h. refs h + d h) pcbs"
    and full: "full_traffic (answering b x cfg ls out) (board_lwip b l x cfg) (board_emac x)"
  shows "stack_on_board (answering b x cfg ls out) b l x cfg refs pcbs drefs rxhw"
proof -
  have a: "link_account ls l x refs pcbs" "link_account ls l x (\<lambda>h. refs h + drefs h) pcbs"
    "link_account ls l x (\<lambda>h. refs h + rxhw h) pcbs" using ls by simp_all
  note keep = send_all_keeps [OF rings acc, unfolded app_refs_def]
  have "link_account (answering b x cfg ls out) (board_lwip b l x cfg) (board_emac x) (\<lambda>s. app_refs refs s + f s) (app_refs pcbs)"
    if f: "f \<in> counters cfg drefs rxhw" for f
  proof -
    note apart = link_account_apart [OF a(1,2)] link_account_apart [OF a(1,3)]
    have fk: "f (s\<lparr>bo_hw := h\<rparr>) = f s" if "drefs h = drefs (bo_hw s)" "rxhw h = rxhw (bo_hw s)" for s h
      using f that by (auto simp: counters_def drv_balance_def balance_def board_ok_def)
    show ?thesis
      unfolding link_account_def answering_def Let_def app_refs_def
      by (simp add: keep keep(3) [OF f] on_board_def res_board_def board_emac_def board_lwip_def view_board_def split_beta
          fk apart a(1) [unfolded link_account_def, simplified])
  qed
  then show ?thesis using full by (auto simp: stack_on_board_def counters_def)
qed

text \<open>A board whose stack answers every frame for ARP and IP with a packet of its own.\<close>

definition dsim_lwip :: "dsim lwip" where
  "dsim_lwip = (sim_lwip [])\<lparr>lw_pbuf_msg := (\<lambda>p h. demo_frame)\<rparr>"

definition dsim_drop :: "nat \<Rightarrow> dsim \<Rightarrow> dsim" where
  "dsim_drop p h = h\<lparr>sim_refs := sim_refs h - 1\<rparr>"

definition dsim_link :: "dsim link_stack" where
  "dsim_link =
     \<lparr>ls_has_index = (\<lambda>p h. False), ls_set_index = (\<lambda>p h. h), ls_mark_multicast = (\<lambda>p h. h),
      ls_mark_broadcast = (\<lambda>p h. h), ls_netif_etharp = (\<lambda>h. True), ls_remove_header = (\<lambda>p n h. (False, h)),
      ls_add_header = (\<lambda>p n h. (False, h)), ls_write = (\<lambda>p i bs h. h),
      ls_ip4_input = (\<lambda>p h. (None, dsim_drop p h)), ls_ip6_input = (\<lambda>p h. (None, dsim_drop p h)),
      ls_etharp_input = dsim_drop, ls_pppoe_disc = dsim_drop, ls_pppoe_data = dsim_drop\<rparr>"

definition bsim_link :: "dsim board link_stack" where
  "bsim_link = answering sim_bsp dsim_ops esim_cfg dsim_link (\<lambda>p h. [p])"

definition bsim0 :: "dsim board" where
  "bsim0 = \<lparr>bo_hw = dsim0, bo_em = dsim_em, bo_status = Running\<rparr>"

lemma dsim_accounts: "board_accounts sim_bsp dsim_lwip dsim_ops sim_refs sim_pcbs ds_refs ds_rxhw"
proof -
  have "emac_account sim_bsp dsim_ops (\<lambda>h. ds_refs h + a h) ds_rxhw" if "a = sim_refs \<or> a = sim_pcbs" for a
    unfolding emac_account_def
    using that by (auto simp: dsim_ops_def sim_bsp_def dsim_alloc_def dsim_from_hw_def split: ring.split) (metis ring.exhaust)+
  then show ?thesis
    using dsim_account by (simp add: board_accounts_def net_pool_def net_keeps_def dsim_lwip_def sim_lwip_def sim_bsp_def)
qed

lemma bsim_stack: "stack_on_board bsim_link sim_bsp dsim_lwip dsim_ops esim_cfg sim_refs sim_pcbs ds_refs ds_rxhw"
  unfolding bsim_link_def
proof (rule stack_answering [OF dsim_rings dsim_accounts])
  show "\<forall>d \<in> {\<lambda>h. 0, ds_refs, ds_rxhw}. link_account dsim_link dsim_lwip dsim_ops (\<lambda>h. sim_refs h + d h) sim_pcbs"
    by (simp add: link_account_def dsim_link_def dsim_drop_def dsim_ops_def dsim_lwip_def split: list.split)
  show "full_traffic (answering sim_bsp dsim_ops esim_cfg dsim_link (\<lambda>p h. [p]))
      (board_lwip sim_bsp dsim_lwip dsim_ops esim_cfg) (board_emac dsim_ops)"
    by (auto simp: full_traffic_def answering_def dsim_link_def board_lwip_def view_board_def res_board_def dsim_lwip_def
        demo_frame_def gptp_eth_header_def)
qed

theorem board_runs_safely_witness:
  "\<exists>nd. board_run sim_eth bsim_link sim_bsp dsim_lwip dsim_ops esim_cfg
      [Driver Rx_irq, Poll, Driver (Tx_packet 7), Driver Tx_error, Poll, Poll, Driver Tx_irq]
      (gptp_init (board_bsp sim_bsp) (board_lwip sim_bsp dsim_lwip dsim_ops esim_cfg) (board_emac dsim_ops) esim_cfg 4
        (bo_em bsim0) (init_param (board_bsp sim_bsp)) (node_boot bsim0)) = Inr nd \<and>
    bo_status (hw (nd_world nd)) = Running \<and> service_inv (nd_world nd)"
  using board_runs_safely [OF dsim_rings dsim_accounts bsim_stack _ _ _ refl, of bsim0 sim_eth
      "[Driver Rx_irq, Poll, Driver (Tx_packet 7), Driver Tx_error, Poll, Poll, Driver Tx_irq]" 4] dsim_typed
  by (auto simp: bsim0_def)

end
