(* ===== verification/EthFrame.thy ===== *)
theory EthFrame
  imports EthInput
begin

text \<open>
  The frame that \<open>ethernet_output\<close> of \<open>netif/ethernet.c\<close> builds, and that \<open>ethernet_input\<close> of another node
  (or of this one) reads it as it was meant.
\<close>

section \<open>The memory of a buffer\<close>

text \<open>
  What is documented of the header functions: making room puts that many bytes in front of the frame;
  writing replaces bytes inside it.
\<close>

definition overwrite :: "nat \<Rightarrow> 'a list \<Rightarrow> 'a list \<Rightarrow> 'a list" where
  "overwrite i ys xs = take i xs @ ys @ drop (i + length ys) xs"



lemma length_overwrite [simp]: "i + length ys \<le> length xs \<Longrightarrow> length (overwrite i ys xs) = length xs"
  by (simp add: overwrite_def)


lemma be_bytes_2: "be_bytes 2 n = [word_of_nat (n div 256), word_of_nat n]"
  by (simp add: numeral_2_eq_2)




section \<open>What is sent is what is read\<close>








lemma be_bytes_2_length [simp]: "length (be_bytes 2 n) = 2"
  by (simp add: be_bytes_2)








end
