(* ===== verification/PtpMsg.thy ===== *)
theory PtpMsg
  imports PtpSync
begin

text \<open>
  The message formats of \<open>IEEE1588/ptp_sync.c\<close>: packed structures that the interpreter lays over the received
  bytes by a cast. Each has a function that stores it and one that reads it; the locale
  \<open>packed_struct\<close> is the contract the two keep, and its combinators carry the contract from the parts of a
  structure to the whole.
\<close>

section \<open>Packed structures\<close>

text \<open>
  Storing a value of the right shape takes exactly \<open>n\<close> bytes, reading them back gives the value whatever
  follows, and any \<open>n\<close> bytes are the storage of the value read from them.
\<close>

locale packed_struct =
  fixes enc :: "'m \<Rightarrow> u8 list" and dec :: "u8 list \<Rightarrow> 'm" and shape :: "'m \<Rightarrow> bool" and n :: nat
  assumes stored_size: "shape m \<Longrightarrow> length (enc m) = n"
    and read_stored: "shape m \<Longrightarrow> dec (enc m @ rest) = m"
    and read_shape: "n \<le> length bs \<Longrightarrow> shape (dec bs)"
    and stored_read: "n \<le> length bs \<Longrightarrow> enc (dec bs) = take n bs"
begin

lemma stored_inject: "shape m \<Longrightarrow> shape m' \<Longrightarrow> enc m @ rest = enc m' @ rest' \<Longrightarrow> m = m' \<and> rest = rest'"
  by (metis append_eq_append_conv stored_size read_stored)

lemma stored_prefix: "n \<le> length bs \<Longrightarrow> bs = enc (dec bs) @ drop n bs"
  by (simp add: stored_read)

end

lemma packed_pair:
  assumes "packed_struct enc1 dec1 shape1 n1" and "packed_struct enc2 dec2 shape2 n2"
  shows "packed_struct (\<lambda>(a, c). enc1 a @ enc2 c) (\<lambda>bs. (dec1 bs, dec2 (drop n1 bs)))
    (\<lambda>(a, c). shape1 a \<and> shape2 c) (n1 + n2)"
proof -
  note p1 = packed_struct.stored_size [OF assms(1)] packed_struct.read_stored [OF assms(1)]
    packed_struct.read_shape [OF assms(1)] packed_struct.stored_read [OF assms(1)]
  note p2 = packed_struct.stored_size [OF assms(2)] packed_struct.read_stored [OF assms(2)]
    packed_struct.read_shape [OF assms(2)] packed_struct.stored_read [OF assms(2)]
  show ?thesis by unfold_locales (auto simp: p1 p2 take_add)
qed

lemma packed_iso:
  assumes "packed_struct enc dec shape n" and "\<And>m. g (f m) = m" and "\<And>x. f (g x) = x"
    and "\<And>m. enc' m = enc (f m)" and "\<And>bs. dec' bs = g (dec bs)" and "\<And>m. shape' m = shape (f m)" and "k = n"
  shows "packed_struct enc' dec' shape' k"
proof -
  note p = packed_struct.stored_size [OF assms(1)] packed_struct.read_stored [OF assms(1)]
    packed_struct.read_shape [OF assms(1)] packed_struct.stored_read [OF assms(1)]
  show ?thesis by unfold_locales (simp_all add: p assms(2-))
qed

lemma packed_array: "packed_struct id (take n) (\<lambda>bs. length bs = n) n"
  by unfold_locales simp_all

lemma packed_u8: "packed_struct (\<lambda>v. [v]) hd (\<lambda>_ :: u8. True) 1"
  by unfold_locales (auto simp: take_Suc Suc_le_length_iff)

lemma packed_word:
  assumes "LENGTH('a::len) = 8 * n"
  shows "packed_struct (le_bytes n) (\<lambda>bs. le_word (take n bs) :: 'a word) (\<lambda>_. True) n"
proof unfold_locales
  show "le_word (take n (le_bytes n m @ rest)) = m" for m :: "'a word" and rest
    using assms by (simp add: le_word_le_bytes)
  show "le_bytes n (le_word (take n bs) :: 'a word) = take n bs" if "n \<le> length bs" for bs
    using that assms le_bytes_le_word [of "take n bs", where 'a = 'a] by (simp add: min_absorb2)
qed simp_all

lemmas packed_u16 = packed_word [where 'a = 16 and n = 2, simplified]
lemmas packed_u32 = packed_word [where 'a = 32 and n = 4, simplified]

text \<open>The header, which every message begins with.\<close>

interpretation hdr: packed_struct header_bytes header_of_bytes header_shape 34
proof unfold_locales
  have read: "header_of_bytes bs = header_of_bytes (take 34 bs)" if "34 \<le> length bs" for bs
    using that by (simp add: header_of_bytes_def drop_take min_def del: take_drop)
  fix bs :: "u8 list" assume l: "34 \<le> length bs"
  have "header_bytes (header_of_bytes (take 34 bs)) = take 34 bs"
    using header_roundtrip [of zero_header "take 34 bs"] l by simp
  then show "header_bytes (header_of_bytes bs) = take 34 bs"
    unfolding read [OF l, symmetric] .
next
  fix m rest assume s: "header_shape m"
  have "header_of_bytes (header_bytes m @ rest) = header_of_bytes (header_bytes m)"
    using length_header_bytes [OF s] by (simp add: header_of_bytes_def nth_append)
  then show "header_of_bytes (header_bytes m @ rest) = m" using header_roundtrip [of m] s by simp
qed simp_all

section \<open>The formats\<close>

record msg_time_t =
  mt_seconds :: "u8 list"
  mt_nanoseconds :: "u8 list"

definition msg_time_bytes :: "msg_time_t \<Rightarrow> u8 list" where
  "msg_time_bytes t = mt_seconds t @ mt_nanoseconds t"

definition msg_time_of_bytes :: "u8 list \<Rightarrow> msg_time_t" where
  "msg_time_of_bytes bs = \<lparr>mt_seconds = take 6 bs, mt_nanoseconds = take 4 (drop 6 bs)\<rparr>"

definition msg_time_shape :: "msg_time_t \<Rightarrow> bool" where
  "msg_time_shape t \<longleftrightarrow> length (mt_seconds t) = 6 \<and> length (mt_nanoseconds t) = 4"

interpretation time: packed_struct msg_time_bytes msg_time_of_bytes msg_time_shape 10
  by (rule packed_iso [OF packed_pair [OF packed_array [of 6] packed_array [of 4]],
        where f = "\<lambda>m. (mt_seconds m, mt_nanoseconds m)" and g = "\<lambda>(a, c). \<lparr>mt_seconds = a, mt_nanoseconds = c\<rparr>"])
     (auto simp: msg_time_bytes_def msg_time_of_bytes_def msg_time_shape_def)

lemmas header_time = packed_pair [OF hdr.packed_struct_axioms time.packed_struct_axioms]
lemmas header_time_id =
  packed_pair [OF hdr.packed_struct_axioms packed_pair [OF time.packed_struct_axioms packed_array [of 10]]]

record ptp_sync_msg_fmt_t =
  sm_header :: ptp_msg_header_t
  sm_origin_ts :: msg_time_t

definition sync_msg_bytes :: "ptp_sync_msg_fmt_t \<Rightarrow> u8 list" where
  "sync_msg_bytes m =
     header_bytes (sm_header m) @ msg_time_bytes (sm_origin_ts m)"

definition sync_msg_of_bytes :: "u8 list \<Rightarrow> ptp_sync_msg_fmt_t" where
  "sync_msg_of_bytes bs =
     \<lparr>sm_header = header_of_bytes bs, sm_origin_ts = msg_time_of_bytes (drop 34 bs)\<rparr>"

definition sync_msg_shape :: "ptp_sync_msg_fmt_t \<Rightarrow> bool" where
  "sync_msg_shape m \<longleftrightarrow> header_shape (sm_header m) \<and> msg_time_shape (sm_origin_ts m)"

interpretation sync_msg: packed_struct sync_msg_bytes sync_msg_of_bytes sync_msg_shape 44
  by (rule packed_iso [OF header_time,
        where f = "\<lambda>m. (sm_header m, sm_origin_ts m)"
        and g = "\<lambda>(a0, a1). \<lparr>sm_header = a0, sm_origin_ts = a1\<rparr>"])
     (auto simp: sync_msg_bytes_def sync_msg_of_bytes_def sync_msg_shape_def)

record ptp_follow_up_msg_fmt_t =
  fu_header :: ptp_msg_header_t
  fu_precise_origin_ts :: msg_time_t

definition follow_up_bytes :: "ptp_follow_up_msg_fmt_t \<Rightarrow> u8 list" where
  "follow_up_bytes m =
     header_bytes (fu_header m) @ msg_time_bytes (fu_precise_origin_ts m)"

definition follow_up_of_bytes :: "u8 list \<Rightarrow> ptp_follow_up_msg_fmt_t" where
  "follow_up_of_bytes bs =
     \<lparr>fu_header = header_of_bytes bs, fu_precise_origin_ts = msg_time_of_bytes (drop 34 bs)\<rparr>"

definition follow_up_shape :: "ptp_follow_up_msg_fmt_t \<Rightarrow> bool" where
  "follow_up_shape m \<longleftrightarrow> header_shape (fu_header m) \<and> msg_time_shape (fu_precise_origin_ts m)"

interpretation follow_up: packed_struct follow_up_bytes follow_up_of_bytes follow_up_shape 44
  by (rule packed_iso [OF header_time,
        where f = "\<lambda>m. (fu_header m, fu_precise_origin_ts m)"
        and g = "\<lambda>(a0, a1). \<lparr>fu_header = a0, fu_precise_origin_ts = a1\<rparr>"])
     (auto simp: follow_up_bytes_def follow_up_of_bytes_def follow_up_shape_def)

record ptp_delay_resp_msg_fmt_t =
  rs_header :: ptp_msg_header_t
  rs_recv_ts :: msg_time_t
  rs_req_port_id :: "u8 list"

definition delay_resp_bytes :: "ptp_delay_resp_msg_fmt_t \<Rightarrow> u8 list" where
  "delay_resp_bytes m =
     header_bytes (rs_header m) @ msg_time_bytes (rs_recv_ts m) @ rs_req_port_id m"

definition delay_resp_of_bytes :: "u8 list \<Rightarrow> ptp_delay_resp_msg_fmt_t" where
  "delay_resp_of_bytes bs =
     \<lparr>rs_header = header_of_bytes bs, rs_recv_ts = msg_time_of_bytes (drop 34 bs),
      rs_req_port_id = take 10 (drop 44 bs)\<rparr>"

definition delay_resp_shape :: "ptp_delay_resp_msg_fmt_t \<Rightarrow> bool" where
  "delay_resp_shape m \<longleftrightarrow> header_shape (rs_header m) \<and> msg_time_shape (rs_recv_ts m) \<and>
     length (rs_req_port_id m) = 10"

interpretation delay_resp: packed_struct delay_resp_bytes delay_resp_of_bytes delay_resp_shape 54
  by (rule packed_iso [OF header_time_id,
        where f = "\<lambda>m. (rs_header m, rs_recv_ts m, rs_req_port_id m)"
        and g = "\<lambda>(a0, a1, a2). \<lparr>rs_header = a0, rs_recv_ts = a1, rs_req_port_id = a2\<rparr>"])
     (auto simp: delay_resp_bytes_def delay_resp_of_bytes_def delay_resp_shape_def drop_drop)

record ptp_pdelay_req_msg_fmt_t =
  pq_header :: ptp_msg_header_t
  pq_origin_ts :: msg_time_t
  pq_reserved :: "u8 list"

definition pdelay_req_bytes :: "ptp_pdelay_req_msg_fmt_t \<Rightarrow> u8 list" where
  "pdelay_req_bytes m =
     header_bytes (pq_header m) @ msg_time_bytes (pq_origin_ts m) @ pq_reserved m"

definition pdelay_req_of_bytes :: "u8 list \<Rightarrow> ptp_pdelay_req_msg_fmt_t" where
  "pdelay_req_of_bytes bs =
     \<lparr>pq_header = header_of_bytes bs, pq_origin_ts = msg_time_of_bytes (drop 34 bs),
      pq_reserved = take 10 (drop 44 bs)\<rparr>"

definition pdelay_req_shape :: "ptp_pdelay_req_msg_fmt_t \<Rightarrow> bool" where
  "pdelay_req_shape m \<longleftrightarrow> header_shape (pq_header m) \<and> msg_time_shape (pq_origin_ts m) \<and>
     length (pq_reserved m) = 10"

interpretation pdelay_req: packed_struct pdelay_req_bytes pdelay_req_of_bytes pdelay_req_shape 54
  by (rule packed_iso [OF header_time_id,
        where f = "\<lambda>m. (pq_header m, pq_origin_ts m, pq_reserved m)"
        and g = "\<lambda>(a0, a1, a2). \<lparr>pq_header = a0, pq_origin_ts = a1, pq_reserved = a2\<rparr>"])
     (auto simp: pdelay_req_bytes_def pdelay_req_of_bytes_def pdelay_req_shape_def drop_drop)

record ptp_pdelay_resp_msg_fmt_t =
  pr_header :: ptp_msg_header_t
  pr_recv_receipt_ts :: msg_time_t
  pr_req_port_id :: "u8 list"

definition pdelay_resp_bytes :: "ptp_pdelay_resp_msg_fmt_t \<Rightarrow> u8 list" where
  "pdelay_resp_bytes m =
     header_bytes (pr_header m) @ msg_time_bytes (pr_recv_receipt_ts m) @ pr_req_port_id m"

definition pdelay_resp_of_bytes :: "u8 list \<Rightarrow> ptp_pdelay_resp_msg_fmt_t" where
  "pdelay_resp_of_bytes bs =
     \<lparr>pr_header = header_of_bytes bs, pr_recv_receipt_ts = msg_time_of_bytes (drop 34 bs),
      pr_req_port_id = take 10 (drop 44 bs)\<rparr>"

definition pdelay_resp_shape :: "ptp_pdelay_resp_msg_fmt_t \<Rightarrow> bool" where
  "pdelay_resp_shape m \<longleftrightarrow> header_shape (pr_header m) \<and> msg_time_shape (pr_recv_receipt_ts m) \<and>
     length (pr_req_port_id m) = 10"

interpretation pdelay_resp: packed_struct pdelay_resp_bytes pdelay_resp_of_bytes pdelay_resp_shape 54
  by (rule packed_iso [OF header_time_id,
        where f = "\<lambda>m. (pr_header m, pr_recv_receipt_ts m, pr_req_port_id m)"
        and g = "\<lambda>(a0, a1, a2). \<lparr>pr_header = a0, pr_recv_receipt_ts = a1, pr_req_port_id = a2\<rparr>"])
     (auto simp: pdelay_resp_bytes_def pdelay_resp_of_bytes_def pdelay_resp_shape_def drop_drop)

record ptp_pdelay_resp_follow_up_msg_fmt_t =
  pf_header :: ptp_msg_header_t
  pf_resp_origin_ts :: msg_time_t
  pf_req_port_id :: "u8 list"

definition pdelay_resp_follow_up_bytes :: "ptp_pdelay_resp_follow_up_msg_fmt_t \<Rightarrow> u8 list" where
  "pdelay_resp_follow_up_bytes m =
     header_bytes (pf_header m) @ msg_time_bytes (pf_resp_origin_ts m) @ pf_req_port_id m"

definition pdelay_resp_follow_up_of_bytes :: "u8 list \<Rightarrow> ptp_pdelay_resp_follow_up_msg_fmt_t" where
  "pdelay_resp_follow_up_of_bytes bs =
     \<lparr>pf_header = header_of_bytes bs, pf_resp_origin_ts = msg_time_of_bytes (drop 34 bs),
      pf_req_port_id = take 10 (drop 44 bs)\<rparr>"

definition pdelay_resp_follow_up_shape :: "ptp_pdelay_resp_follow_up_msg_fmt_t \<Rightarrow> bool" where
  "pdelay_resp_follow_up_shape m \<longleftrightarrow> header_shape (pf_header m) \<and> msg_time_shape (pf_resp_origin_ts m) \<and>
     length (pf_req_port_id m) = 10"

interpretation pdelay_resp_follow_up: packed_struct
    pdelay_resp_follow_up_bytes pdelay_resp_follow_up_of_bytes pdelay_resp_follow_up_shape 54
  by (rule packed_iso [OF header_time_id,
        where f = "\<lambda>m. (pf_header m, pf_resp_origin_ts m, pf_req_port_id m)"
        and g = "\<lambda>(a0, a1, a2). \<lparr>pf_header = a0, pf_resp_origin_ts = a1, pf_req_port_id = a2\<rparr>"])
     (auto simp: pdelay_resp_follow_up_bytes_def pdelay_resp_follow_up_of_bytes_def
       pdelay_resp_follow_up_shape_def drop_drop)

lemmas announce_parts =
  packed_pair [OF hdr.packed_struct_axioms
  packed_pair [OF time.packed_struct_axioms
  packed_pair [OF packed_u16
  packed_pair [OF packed_u8
  packed_pair [OF packed_u8
  packed_pair [OF packed_u32
  packed_pair [OF packed_u8
  packed_pair [OF packed_array [of 8]
  packed_pair [OF packed_u16 packed_u8]]]]]]]]]

record ptp_announce_msg_fmt_t =
  an_header :: ptp_msg_header_t
  an_origin_ts :: msg_time_t
  an_originUtcOffset :: u16
  an_RESERVED_1 :: u8
  an_gmPriority1 :: u8
  an_gmClockQuality :: u32
  an_gmPriority2 :: u8
  an_gmId :: "u8 list"
  an_stepsRemoved :: u16
  an_timeSource :: u8

definition announce_bytes :: "ptp_announce_msg_fmt_t \<Rightarrow> u8 list" where
  "announce_bytes m =
     header_bytes (an_header m) @ msg_time_bytes (an_origin_ts m) @
     le_bytes 2 (an_originUtcOffset m) @ [an_RESERVED_1 m] @ [an_gmPriority1 m] @
     le_bytes 4 (an_gmClockQuality m) @ [an_gmPriority2 m] @ an_gmId m @
     le_bytes 2 (an_stepsRemoved m) @ [an_timeSource m]"

definition announce_of_bytes :: "u8 list \<Rightarrow> ptp_announce_msg_fmt_t" where
  "announce_of_bytes bs =
     \<lparr>an_header = header_of_bytes bs, an_origin_ts = msg_time_of_bytes (drop 34 bs),
      an_originUtcOffset = le_word (take 2 (drop 44 bs)), an_RESERVED_1 = hd (drop 46 bs),
      an_gmPriority1 = hd (drop 47 bs), an_gmClockQuality = le_word (take 4 (drop 48 bs)),
      an_gmPriority2 = hd (drop 52 bs), an_gmId = take 8 (drop 53 bs),
      an_stepsRemoved = le_word (take 2 (drop 61 bs)), an_timeSource = hd (drop 63 bs)\<rparr>"

definition announce_shape :: "ptp_announce_msg_fmt_t \<Rightarrow> bool" where
  "announce_shape m \<longleftrightarrow> header_shape (an_header m) \<and> msg_time_shape (an_origin_ts m) \<and>
     length (an_gmId m) = 8"

interpretation announce: packed_struct announce_bytes announce_of_bytes announce_shape 64
  by (rule packed_iso [OF announce_parts,
        where f = "\<lambda>m. (an_header m, an_origin_ts m, an_originUtcOffset m, an_RESERVED_1 m, an_gmPriority1 m,
            an_gmClockQuality m, an_gmPriority2 m, an_gmId m, an_stepsRemoved m, an_timeSource m)"
        and g = "\<lambda>(a0, a1, a2, a3, a4, a5, a6, a7, a8, a9). \<lparr>an_header = a0, an_origin_ts = a1,
            an_originUtcOffset = a2, an_RESERVED_1 = a3, an_gmPriority1 = a4, an_gmClockQuality = a5,
            an_gmPriority2 = a6, an_gmId = a7, an_stepsRemoved = a8, an_timeSource = a9\<rparr>"])
     (auto simp: announce_bytes_def announce_of_bytes_def announce_shape_def drop_drop)

definition delay_req_of_bytes :: "u8 list \<Rightarrow> ptp_delay_req_msg_fmt_t" where
  "delay_req_of_bytes bs = \<lparr>dr_header = header_of_bytes bs, dr_origin_ts = take 10 (drop 34 bs)\<rparr>"

definition delay_req_shape :: "ptp_delay_req_msg_fmt_t \<Rightarrow> bool" where
  "delay_req_shape m \<longleftrightarrow> header_shape (dr_header m) \<and> length (dr_origin_ts m) = 10"

interpretation delay_req: packed_struct delay_req_bytes delay_req_of_bytes delay_req_shape 44
  by (rule packed_iso [OF packed_pair [OF hdr.packed_struct_axioms packed_array [of 10]],
        where f = "\<lambda>m. (dr_header m, dr_origin_ts m)" and g = "\<lambda>(a0, a1). \<lparr>dr_header = a0, dr_origin_ts = a1\<rparr>"])
     (auto simp: delay_req_bytes_def delay_req_of_bytes_def delay_req_shape_def)

section \<open>What the interpreter reads\<close>

text \<open>A time stamp as \<open>ptp_prepare_timestamp\<close> writes it into a message.\<close>

definition msg_time_of :: "ptp_timestamp_t \<Rightarrow> msg_time_t" where
  "msg_time_of t = msg_time_of_bytes (ptp_prepare_timestamp t (replicate 10 0))"

lemma msg_time_shape_of [simp]: "msg_time_shape (msg_time_of t)"
  by (simp add: msg_time_of_def time.read_shape)

lemma store_msg_time: "wf_ts t \<Longrightarrow> ptp_store_timestamp (msg_time_bytes (msg_time_of t)) = t"
  by (simp add: msg_time_of_def time.stored_read store_prepare_wf)

lemma type_of_stored: "header_shape h \<Longrightarrow> ucast (hd (header_bytes h @ rest)) = messageType h"
  by (simp add: header_bytes_def)

lemma time_of_stored:
  assumes "header_shape h" and "msg_time_shape t"
  shows "take 10 (drop 34 (header_bytes h @ msg_time_bytes t @ rest)) = msg_time_bytes t"
  using assms by (simp add: time.stored_size)

lemma follow_up_read:
  assumes "follow_up_shape m"
  shows "ucast (hd (follow_up_bytes m @ rest)) = messageType (fu_header m)"
    and "take 10 (drop 34 (follow_up_bytes m @ rest)) = msg_time_bytes (fu_precise_origin_ts m)"
  using assms type_of_stored [of "fu_header m"] time_of_stored [of "fu_header m" "fu_precise_origin_ts m" rest]
  by (simp_all add: follow_up_shape_def follow_up_bytes_def)

lemma delay_resp_read:
  assumes "delay_resp_shape m"
  shows "ucast (hd (delay_resp_bytes m @ rest)) = messageType (rs_header m)"
    and "take 10 (drop 34 (delay_resp_bytes m @ rest)) = msg_time_bytes (rs_recv_ts m)"
  using assms type_of_stored [of "rs_header m"]
    time_of_stored [of "rs_header m" "rs_recv_ts m" "rs_req_port_id m @ rest"]
  by (simp_all add: delay_resp_shape_def delay_resp_bytes_def)

lemma sync_msg_read:
  assumes "sync_msg_shape m"
  shows "ucast (hd (sync_msg_bytes m @ rest)) = messageType (sm_header m)"
  using assms type_of_stored [of "sm_header m"] by (simp add: sync_msg_shape_def sync_msg_bytes_def)

end
