(* ===== verification/Exchange.thy ===== *)
theory Exchange
  imports PtpMsg Controller
begin

text \<open>
  A whole exchange with a master, from the bytes of its three messages to the registers of the clock: the
  message formats, the receiver, the interpreter, the time calculation, the controller, the state
  machine and the clock driver together. What the exchange relies on in a client is the locale
  \<open>exchange_client\<close>, interpreted here on the client over UDP.
\<close>

section \<open>What the driver shows and what the state machine sets\<close>

lemma reading_wf:
  assumes "tsu_hw b now"
  shows "wf_ts (fst (get_systime b w))"
proof -
  obtain v1 h1 where r1: "xil_in32 b TSU_TIMER_SEC_GEM0 (hw w) = (v1, h1)" by fastforce
  obtain v2 h2 where r2: "xil_in32 b TSU_TIMER_NS_GEM0 h1 = (v2, h2)" by fastforce
  obtain v3 h3 where r3: "xil_in32 b TSU_TIMER_SEC_GEM0 h2 = (v3, h3)" by fastforce
  have "unat v2 = now h2 mod 10 ^ 9" using assms r2 unfolding tsu_hw_def by (metis fst_conv snd_conv)
  then have n: "uint v2 < 10 ^ 9" by (simp add: uint_nat)
  then have "sint v2 = uint v2" by (intro sint_of_uint_small) simp
  moreover have "sint (ucast v3 :: u64) = uint v3"
    using uint_lt2p [of v3] by (subst sint_of_uint_small) (simp_all add: unsigned_ucast_eq take_bit_int_eq_self)
  ultimately show ?thesis
    using n uint_lt2p [of v3]
    by (simp add: get_systime_def tsu_get_time_unfold [OF r1 r2 r3] wf_ts_def)
qed

lemma unat_of_sint: "0 \<le> sint (v :: i32) \<Longrightarrow> int (unat v) = sint v"
  by (simp add: uint_eq_sint)

lemma reading_nanosec:
  "tsu_hw b now \<Longrightarrow> unat (tsu_nanosec (fst (tsu_get_time b (w :: 'h ptp)))) < 10 ^ 9"
  using reading_wf [of b now w] uint_eq_sint [of "tsu_nanosec (fst (tsu_get_time b w))"]
  by (simp add: get_systime_def split_beta wf_ts_def unat_eq_nat_uint nat_less_iff)

lemma reading_frame: "snd (get_systime b w) = w\<lparr>hw := hw (snd (get_systime b w))\<rparr>"
  by (simp add: get_systime_def tsu_get_time_def read_reg_def Let_def split_beta)

lemma reading_nanosec_eq: "nanosec (fst (get_systime b w)) = tsu_nanosec (fst (tsu_get_time b w))"
  by (simp add: get_systime_def split_beta)

lemma set_time_clock:
  assumes "tsu_hw_write b now" and "unat (tsu_nanosec ts) < 10 ^ 9"
  shows "now (hw (tsu_set_time b ts w)) = unat (ucast (tsu_seconds ts) :: u32) * 10 ^ 9 + unat (tsu_nanosec ts)"
  using assms by (simp add: tsu_set_time_def write_reg_def tsu_hw_write_def)

lemma low_seconds: "0 \<le> sint (s :: i64) \<Longrightarrow> int (unat (ucast s :: u32)) = sint s mod 2 ^ 32"
  using uint_eq_sint [of s] by (simp add: unsigned_ucast_eq take_bit_eq_mod zmod_int)

text \<open>
  Seconds of zero are no time and leave the clock alone. Otherwise the seconds register takes the low
  32 bits of the seconds. Nanoseconds of zero are taken for ``not given'': then the clock keeps those it
  shows, and a time stamp on a whole second sets the seconds only.
\<close>

lemma coarse_sets_clock:
  fixes w :: "'h ptp"
  assumes hwm: "tsu_hw b now" "tsu_hw_write b now" and st: "status w = TS_NEVER \<or> status w = TS_LOST"
    and s: "0 \<le> sint s" and ns: "unat ns < 10 ^ 9"
  shows "sint s = 0 \<Longrightarrow> hw (coarse_time_received b s ns w) = hw w"
    and "sint s \<noteq> 0 \<Longrightarrow> int (now (hw (coarse_time_received b s ns w))) = sint s mod 2 ^ 32 * 10 ^ 9 +
      int (if ns = 0 then unat (tsu_nanosec (fst (tsu_get_time b w))) else unat ns)"
    and "status (coarse_time_received b s ns w) = TS_COARSE"
proof -
  let ?w = "w\<lparr>coarse_service_ok := True, last_coarse_time_value := s, last_coarse_time_stamp := tsu_get_uptime_ms w\<rparr>"
  note us = low_seconds [OF s]
  have r: "fst (tsu_get_time b ?w) = fst (tsu_get_time b w)" by (rule reading_of_hw [THEN conjunct1]) simp
  have due: "coarse_set_due ?w = (True, ?w)" using st by (auto simp: coarse_set_due_def)
  show "status (coarse_time_received b s ns w) = TS_COARSE" using st by (auto simp: coarse_cases)
  show "hw (coarse_time_received b s ns w) = hw w" if "sint s = 0"
    using that by (simp add: coarse_time_received_def due Let_def)
  show "int (now (hw (coarse_time_received b s ns w))) = sint s mod 2 ^ 32 * 10 ^ 9 +
      int (if ns = 0 then unat (tsu_nanosec (fst (tsu_get_time b w))) else unat ns)" if "sint s \<noteq> 0"
  proof (cases "ns = 0")
    case True
    have "hw (coarse_time_received b s ns w) =
        hw (tsu_set_time b (fst (tsu_get_time b w)\<lparr>tsu_seconds := s\<rparr>) (snd (tsu_get_time b ?w)))"
      using s that True by (simp add: coarse_time_received_def due r Let_def split_beta)
    then show ?thesis
      using True us reading_nanosec [OF hwm(1), of w] by (simp add: set_time_clock [OF hwm(2)])
  next
    case False
    have "hw (coarse_time_received b s ns w) = hw (tsu_set_time b \<lparr>tsu_seconds = s, tsu_nanosec = ns\<rparr> ?w)"
      using s that False by (simp add: coarse_time_received_def due Let_def split_beta word_gt_0)
    then show ?thesis
      using False us ns by (simp add: set_time_clock [OF hwm(2)])
  qed
qed

text \<open>
  \<open>clock_set_by b now w t h\<close>: the hardware \<open>h\<close> after a time stamp \<open>t\<close> has been set by way of coarse time
  in state \<open>w\<close>. \<open>n\<close> is the nanoseconds of \<open>t\<close> up to the rounding of the computation; they are set unless they are
  zero.
\<close>

definition clock_set_by :: "'h bsp \<Rightarrow> ('h \<Rightarrow> nat) \<Rightarrow> 'h ptp \<Rightarrow> ptp_timestamp_t \<Rightarrow> 'h \<Rightarrow> bool" where
  "clock_set_by b now w t h \<longleftrightarrow>
     (if seconds t = 0 then h = hw w
      else \<exists>n. 0 \<le> n \<and> n < 10 ^ 9 \<and> \<bar>n - sint (nanosec t)\<bar> \<le> 1 \<and>
        int (now h) = sint (seconds t) mod 2 ^ 32 * 10 ^ 9 +
          (if n = 0 then sint (nanosec (fst (get_systime b w))) else n))"

lemma clock_set_near:
  assumes "clock_set_by b now w t h" and "0 < sint (seconds t)" and "sint (seconds t) < 2 ^ 32"
    and "2 \<le> sint (nanosec t)"
  shows "\<bar>int (now h) - ts_total t\<bar> \<le> 1"
proof -
  have "seconds t \<noteq> 0" "sint (seconds t) mod 2 ^ 32 = sint (seconds t)" using assms(2,3) by auto
  then show ?thesis using assms(1,4) by (auto simp: clock_set_by_def ts_total_def)
qed

lemma coarse_sets_time:
  fixes w :: "'h ptp"
  assumes hwm: "tsu_hw b now" "tsu_hw_write b now" and st: "status w = TS_NEVER \<or> status w = TS_LOST"
    and t: "wf_ts u" "seconds u = seconds t" "\<bar>sint (nanosec u) - sint (nanosec t)\<bar> \<le> 1"
  shows "clock_set_by b now w t (hw (coarse_time_received b (seconds u) (nanosec u) w))"
proof -
  have n: "0 \<le> sint (nanosec u)" "sint (nanosec u) < 10 ^ 9" "0 \<le> sint (seconds u)" using t(1) by (simp_all add: wf_ts_def)
  then have u: "int (unat (nanosec u)) = sint (nanosec u)" using unat_of_sint by blast
  then have "int (unat (nanosec u)) < int (10 ^ 9)" using n(2) by simp
  then have ul: "unat (nanosec u) < 10 ^ 9" by (simp only: of_nat_less_iff)
  have r: "int (unat (tsu_nanosec (fst (tsu_get_time b w)))) = sint (nanosec (fst (get_systime b w)))"
    using unat_of_sint [of "tsu_nanosec (fst (tsu_get_time b w))"] reading_wf [OF hwm(1), of w]
    by (simp add: reading_nanosec_eq wf_ts_def)
  have z: "(nanosec u = 0) = (sint (nanosec u) = 0)" "(seconds t = 0) = (sint (seconds u) = 0)"
    unfolding t(2) [symmetric] by (metis signed_0 signed_word_eqI)+
  note set = coarse_sets_clock [OF hwm st n(3) ul]
  show ?thesis
  proof (cases "sint (seconds u) = 0")
    case False
    then have "int (now (hw (coarse_time_received b (seconds u) (nanosec u) w))) = sint (seconds t) mod 2 ^ 32 * 10 ^ 9 +
        (if sint (nanosec u) = 0 then sint (nanosec (fst (get_systime b w))) else sint (nanosec u))"
      using set(2) u r z(1) t(2) by simp
    then show ?thesis
      unfolding clock_set_by_def using False n(1,2) t(3) z(2) by (auto simp del: u)
  qed (simp add: clock_set_by_def z set(1))
qed

section \<open>The messages of a master\<close>

text \<open>
  \<open>view p h\<close> is the message that a client finds in the received buffer \<open>p\<close>, if it takes it for one. The
  three buffers of an exchange hold a sync message, its follow-up with the master's time \<open>t1\<close> and a delay
  response with the time \<open>t4\<close>, in the formats of the code, with anything behind them and in all other
  fields.
\<close>

definition holds :: "(nat \<Rightarrow> 'h \<Rightarrow> ptp_msg option) \<Rightarrow> nat \<Rightarrow> u8 list \<Rightarrow> bool" where
  "holds view p bs \<longleftrightarrow> (\<forall>h. \<exists>m rest. view p h = Some m \<and> msg_bytes m = bs @ rest)"

definition response_held :: "(nat \<Rightarrow> 'h \<Rightarrow> ptp_msg option) \<Rightarrow> nat \<Rightarrow> ptp_timestamp_t \<Rightarrow> bool" where
  "response_held view p t4 \<longleftrightarrow> wf_ts t4 \<and>
     (\<exists>m. delay_resp_shape m \<and> messageType (rs_header m) = msg_type_code DelayResponse_e \<and>
          rs_recv_ts m = msg_time_of t4 \<and> holds view p (delay_resp_bytes m))"

definition master_exchange ::
  "(nat \<Rightarrow> 'h \<Rightarrow> ptp_msg option) \<Rightarrow> nat \<Rightarrow> nat \<Rightarrow> nat \<Rightarrow> ptp_timestamp_t \<Rightarrow> ptp_timestamp_t \<Rightarrow> bool" where
  "master_exchange view p1 p2 p3 t1 t4 \<longleftrightarrow>
     wf_ts t1 \<and> response_held view p3 t4 \<and>
     (\<exists>m. sync_msg_shape m \<and> messageType (sm_header m) = msg_type_code SyncMsg_e \<and>
          holds view p1 (sync_msg_bytes m)) \<and>
     (\<exists>m. follow_up_shape m \<and> messageType (fu_header m) = msg_type_code FollowUpMsg_e \<and>
          fu_precise_origin_ts m = msg_time_of t1 \<and> holds view p2 (follow_up_bytes m))"

lemma sync_read:
  assumes "master_exchange view p1 p2 p3 t1 t4"
  shows "\<exists>m. view p1 h = Some m \<and> msg_bytes m \<noteq> [] \<and> msg_ty m = msg_type_code SyncMsg_e"
proof -
  from assms obtain m r x where m: "sync_msg_shape m" "messageType (sm_header m) = msg_type_code SyncMsg_e"
    and x: "view p1 h = Some x" "msg_bytes x = sync_msg_bytes m @ r"
    unfolding master_exchange_def holds_def by blast
  have "msg_bytes x \<noteq> []" using sync_msg.stored_size [OF m(1)] x by auto
  moreover have "msg_ty x = msg_type_code SyncMsg_e" unfolding msg_ty_def x sync_msg_read [OF m(1)] m ..
  ultimately show ?thesis using x by blast
qed

lemma follow_up_found:
  assumes "master_exchange view p1 p2 p3 t1 t4"
  shows "\<exists>m. view p2 h = Some m \<and> 44 \<le> length (msg_bytes m) \<and> msg_ty m = msg_type_code FollowUpMsg_e \<and>
    ptp_store_timestamp (take 10 (drop 34 (msg_bytes m))) = t1"
proof -
  from assms obtain m r x where m: "follow_up_shape m" "messageType (fu_header m) = msg_type_code FollowUpMsg_e"
      "fu_precise_origin_ts m = msg_time_of t1" "wf_ts t1"
    and x: "view p2 h = Some x" "msg_bytes x = follow_up_bytes m @ r"
    unfolding master_exchange_def holds_def by blast
  have "44 \<le> length (msg_bytes x)" unfolding x by (simp add: follow_up.stored_size [OF m(1)])
  moreover have "msg_ty x = msg_type_code FollowUpMsg_e" unfolding msg_ty_def x follow_up_read [OF m(1)] m ..
  moreover have "ptp_store_timestamp (take 10 (drop 34 (msg_bytes x))) = t1"
    unfolding x follow_up_read [OF m(1)] m by (rule store_msg_time [OF m(4)])
  ultimately show ?thesis using x by blast
qed

lemma delay_resp_found:
  assumes "response_held view p3 t4"
  shows "\<exists>m. view p3 h = Some m \<and> 44 \<le> length (msg_bytes m) \<and> msg_ty m = msg_type_code DelayResponse_e \<and>
    ptp_store_timestamp (take 10 (drop 34 (msg_bytes m))) = t4"
proof -
  from assms obtain m r x where m: "delay_resp_shape m" "messageType (rs_header m) = msg_type_code DelayResponse_e"
      "rs_recv_ts m = msg_time_of t4" "wf_ts t4"
    and x: "view p3 h = Some x" "msg_bytes x = delay_resp_bytes m @ r"
    unfolding response_held_def holds_def by blast
  have "44 \<le> length (msg_bytes x)" unfolding x by (simp add: delay_resp.stored_size [OF m(1)])
  moreover have "msg_ty x = msg_type_code DelayResponse_e" unfolding msg_ty_def x delay_resp_read [OF m(1)] m ..
  moreover have "ptp_store_timestamp (take 10 (drop 34 (msg_bytes x))) = t4"
    unfolding x delay_resp_read [OF m(1)] m by (rule store_msg_time [OF m(4)])
  ultimately show ?thesis using x by blast
qed

section \<open>The contract of a client\<close>

text \<open>
  Both clients register the clock and the controller of \<open>ptp.c\<close> and a sender of their own.
\<close>

definition client_cbs :: "'h bsp \<Rightarrow> (u8 list \<Rightarrow> 'h ptp \<Rightarrow> fault + 'h ptp) \<Rightarrow> 'h ptp ptp_sync_cbs" where
  "client_cbs b send = \<lparr>sSyscTimeCb = Some (get_systime b),
     sReportDiffCb = Some (ptp_process_time_diff b (Some (init_param b))), sSendDlyReqCb = Some send\<rparr>"

fun client_run :: "(nat \<Rightarrow> 'h ptp_node \<Rightarrow> fault + 'h ptp_node) \<Rightarrow> nat list \<Rightarrow> 'h ptp_node \<Rightarrow> fault + 'h ptp_node" where
  "client_run handle [] nd = Inr nd"
| "client_run handle (p # ps) nd = bind_sum (handle p nd) (client_run handle ps)"

lemma client_run_append: "client_run f (ps @ qs) nd = bind_sum (client_run f ps nd) (client_run f qs)"
  by (induction ps arbitrary: nd) (simp_all add: bind_sum_def split: sum.splits)

definition reads_keep :: "'h bsp \<Rightarrow> ('h \<Rightarrow> bool) \<Rightarrow> bool" where
  "reads_keep b Q \<longleftrightarrow> (\<forall>a h. Q h \<longrightarrow> Q (snd (xil_in32 b a h)))"

lemma reading_keeps: "reads_keep b Q \<Longrightarrow> Q (hw w) \<Longrightarrow> Q (hw (snd (get_systime b w)))"
  by (simp add: reads_keep_def get_systime_def tsu_get_time_def read_reg_def Let_def split_beta)

text \<open>
  What an exchange relies on: a received message goes to the interpreter and its buffer is given back;
  sending returns and touches the environment only, or it writes through a null pointer, which can happen
  only if the client is \<open>starved\<close>; and while \<open>live\<close> the clock shows well-formed times. \<open>keeps\<close> are the predicates of
  the environment that a client leaves alone.
\<close>

locale exchange_client =
  fixes b :: "'h bsp" and send :: "u8 list \<Rightarrow> 'h ptp \<Rightarrow> fault + 'h ptp"
    and handle :: "nat \<Rightarrow> 'h ptp_node \<Rightarrow> fault + 'h ptp_node"
    and view :: "nat \<Rightarrow> 'h \<Rightarrow> ptp_msg option" and free :: "nat \<Rightarrow> 'h \<Rightarrow> 'h"
    and live :: bool and starved :: bool and keeps :: "('h \<Rightarrow> bool) \<Rightarrow> bool"
  assumes handled: "view p (hw (nd_world nd)) = Some m \<Longrightarrow> handle p nd =
      bind_sum (ptp_sync_interpreter (nd_cbs nd) m (nd_sync nd) (nd_world nd))
        (\<lambda>(r, s, w). Inr (nd\<lparr>nd_sync := s, nd_world := lw (free p) w\<rparr>))"
    and sends: "send bs w = Inl Null_deref \<and> starved \<or>
      (\<exists>h. send bs w = Inr (w\<lparr>hw := h\<rparr>) \<and> (keeps Q \<longrightarrow> Q (hw w) \<longrightarrow> Q h))"
    and shows_time: "live \<Longrightarrow> wf_ts (fst (get_systime b w))"
    and keeps_more: "keeps Q \<Longrightarrow> reads_keep b Q \<and> (\<forall>p h. Q h \<longrightarrow> Q (free p h))"
begin

text \<open>
  The state of the interpreter after the first two messages, and what the third one reports. Answering
  the second message is where an exchange stops when the client is starved.
\<close>

definition stops :: "nat list \<Rightarrow> 'h ptp_node \<Rightarrow> bool" where
  "stops ps nd \<longleftrightarrow> client_run handle ps nd = Inl Null_deref \<and> starved"

lemma exchange_start:
  assumes ex: "master_exchange view p1 p2 p3 t1 t4" and live
    and cbs: "nd_cbs nd = client_cbs b send"
  shows "stops [p1, p2] nd \<or> (\<exists>nd2 h. client_run handle [p1, p2] nd = Inr nd2 \<and> nd_cbs nd2 = client_cbs b send \<and>
    nd_world nd2 = (nd_world nd)\<lparr>hw := h\<rparr> \<and>
    st_t1 (nd_sync nd2) = t1 \<and> wf_ts (st_t2 (nd_sync nd2)) \<and> wf_ts (st_t3 (nd_sync nd2)) \<and>
    (keeps Q \<longrightarrow> Q (hw (nd_world nd)) \<longrightarrow> Q h))"
proof -
  have c: "sSyscTimeCb (nd_cbs nd) = Some (get_systime b)" "sSendDlyReqCb (nd_cbs nd) = Some send"
    by (simp_all add: cbs client_cbs_def)
  obtain m1 where m1: "view p1 (hw (nd_world nd)) = Some m1" "msg_bytes m1 \<noteq> []" "msg_ty m1 = msg_type_code SyncMsg_e"
    using sync_read [OF ex] by blast
  obtain h1 where w1: "snd (get_systime b (nd_world nd)) = (nd_world nd)\<lparr>hw := h1\<rparr>"
      "keeps Q \<longrightarrow> Q (hw (nd_world nd)) \<longrightarrow> Q h1"
    using reading_frame [of b "nd_world nd"] reading_keeps [of b Q "nd_world nd"] keeps_more [of Q] by blast
  let ?s1 = "(nd_sync nd)\<lparr>pSync := Some (msg_addr m1), st_t2 := fst (get_systime b (nd_world nd))\<rparr>"
  let ?w1 = "(nd_world nd)\<lparr>hw := free p1 h1\<rparr>"
  have 1: "handle p1 nd = Inr (nd\<lparr>nd_sync := ?s1, nd_world := ?w1\<rparr>)"
    by (simp add: handled [OF m1(1)] interpreter_sync [OF m1(2,3) c(1)] w1(1) lw_def)
  have k1: "keeps Q \<longrightarrow> Q (hw (nd_world nd)) \<longrightarrow> Q (hw ?w1)"
    using w1(2) keeps_more [of Q] by simp
  obtain h2 where w2: "snd (get_systime b ?w1) = ?w1\<lparr>hw := h2\<rparr>"
      "keeps Q \<longrightarrow> Q (hw (nd_world nd)) \<longrightarrow> Q h2"
    using reading_frame [of b ?w1] reading_keeps [of b Q ?w1] keeps_more [of Q] k1 by blast
  obtain m2 where m2: "view p2 (hw ?w1) = Some m2" "44 \<le> length (msg_bytes m2)" "msg_ty m2 = msg_type_code FollowUpMsg_e"
      and t1: "ptp_store_timestamp (take 10 (drop 34 (msg_bytes m2))) = t1"
    using follow_up_found [OF ex] by blast
  let ?bs = "delay_req_bytes (fill_delay_req (take 4 (msg_bytes m2)) (fst (get_systime b ?w1)) (delay_req_msg ?s1))"
  note h2 = handled [of p2 "nd\<lparr>nd_sync := ?s1, nd_world := ?w1\<rparr>" m2]
  consider (stop) "send ?bs (?w1\<lparr>hw := h2\<rparr>) = Inl Null_deref" starved
    | (go) h3 where "send ?bs (?w1\<lparr>hw := h2\<rparr>) = Inr (?w1\<lparr>hw := h3\<rparr>)" "keeps Q \<longrightarrow> Q h2 \<longrightarrow> Q h3"
    using sends [of ?bs "?w1\<lparr>hw := h2\<rparr>" Q] by auto
  then show ?thesis
  proof cases
    case stop
    then have "handle p2 (nd\<lparr>nd_sync := ?s1, nd_world := ?w1\<rparr>) = Inl Null_deref"
      using h2 m2(1)
      by (simp add: interpreter_follow_up [OF m2(2,3) c] Let_def w2(1) t1 del: take_drop drop_drop)
    then have "stops [p1, p2] nd" unfolding stops_def using stop(2) by (simp add: 1)
    then show ?thesis ..
  next
    case go
    note w3 = go(1)
    have k3: "keeps Q \<longrightarrow> Q (hw (nd_world nd)) \<longrightarrow> Q (free p2 h3)" using go(2) w2(2) keeps_more [of Q] by auto
  have "\<exists>s2. handle p2 (nd\<lparr>nd_sync := ?s1, nd_world := ?w1\<rparr>) =
        Inr (nd\<lparr>nd_sync := s2, nd_world := ?w1\<lparr>hw := free p2 h3\<rparr>\<rparr>) \<and>
      st_t1 s2 = t1 \<and> st_t2 s2 = fst (get_systime b (nd_world nd)) \<and> st_t3 s2 = fst (get_systime b ?w1)"
    using w3 h2 m2(1)
    by (simp add: interpreter_follow_up [OF m2(2,3) c] Let_def w2(1) lw_def t1
        del: take_drop drop_drop) (rule exI, rule conjI, rule refl, simp)
  then show ?thesis using shows_time [OF \<open>live\<close>] cbs k3 by (auto simp: 1)
  qed
qed

lemma exchange_end:
  assumes ex: "response_held view p3 t4" and cbs: "nd_cbs nd = client_cbs b send"
    and sys: "get_systime b (nd_world nd) = (sys, w)"
    and synced: "synced = resp_synced_time (st_t1 (nd_sync nd)) (st_t2 (nd_sync nd)) (st_t3 (nd_sync nd)) t4"
    and rep: "ptp_process_time_diff b (Some (init_param b)) 0 synced (ptp_time_sub synced sys) w = Inr w'"
  shows "\<exists>nd3. client_run handle [p3] nd = Inr nd3 \<and> nd_world nd3 = w'\<lparr>hw := free p3 (hw w')\<rparr>"
proof -
  have c: "sSyscTimeCb (nd_cbs nd) = Some (get_systime b)"
      "sReportDiffCb (nd_cbs nd) = Some (ptp_process_time_diff b (Some (init_param b)))"
    by (simp_all add: cbs client_cbs_def)
  obtain m where m: "view p3 (hw (nd_world nd)) = Some m" "44 \<le> length (msg_bytes m)"
      "msg_ty m = msg_type_code DelayResponse_e"
      and t4: "ptp_store_timestamp (take 10 (drop 34 (msg_bytes m))) = t4"
    using delay_resp_found [OF ex] by blast
  show ?thesis
    using rep
    by (simp add: handled [OF m(1)] interpreter_delay_resp [OF m(2,3) c] Let_def sys t4 lw_def
        flip: synced del: take_drop drop_drop)
qed

lemma exchange_run:
  assumes ex: "master_exchange view p1 p2 p3 t1 t4" and live and cbs: "nd_cbs nd = client_cbs b send"
  obtains (stop) "stops [p1, p2] nd"
    | (go) nd2 sys w synced where "client_run handle [p1, p2] nd = Inr nd2" "get_systime b (nd_world nd2) = (sys, w)"
    "nd_world nd2 = (nd_world nd)\<lparr>hw := hw (nd_world nd2)\<rparr>" "w = (nd_world nd)\<lparr>hw := hw w\<rparr>" "wf_ts sys"
    "seconds synced = seconds t4" "\<bar>sint (nanosec synced) - sint (nanosec t4)\<bar> \<le> 1" "wf_ts synced"
    "\<And>w'. ptp_process_time_diff b (Some (init_param b)) 0 synced (ptp_time_sub synced sys) w = Inr w' \<Longrightarrow>
      \<exists>nd3. client_run handle [p1, p2, p3] nd = Inr nd3 \<and> nd_world nd3 = w'\<lparr>hw := free p3 (hw w')\<rparr>"
proof (cases "stops [p1, p2] nd")
  case False
  then obtain nd2 h where nd2: "client_run handle [p1, p2] nd = Inr nd2" "nd_cbs nd2 = client_cbs b send"
      "nd_world nd2 = (nd_world nd)\<lparr>hw := h\<rparr>" "st_t1 (nd_sync nd2) = t1"
      and wf: "wf_ts (st_t2 (nd_sync nd2))" "wf_ts (st_t3 (nd_sync nd2))"
    using exchange_start [OF ex \<open>live\<close> cbs, where Q = "\<lambda>_. True"] by blast
  obtain sys w where sys: "get_systime b (nd_world nd2) = (sys, w)" by fastforce
  have w: "w = (nd_world nd2)\<lparr>hw := hw w\<rparr>" using reading_frame [of b "nd_world nd2"] sys by simp
  let ?synced = "resp_synced_time (st_t1 (nd_sync nd2)) (st_t2 (nd_sync nd2)) (st_t3 (nd_sync nd2)) t4"
  have t: "wf_ts t1" "wf_ts t4" and ex3: "response_held view p3 t4"
    using ex by (simp_all add: master_exchange_def response_held_def)
  note sec = resp_synced_seconds [OF t(1) wf t(2)]
  have run: "client_run handle [p1, p2, p3] nd = client_run handle [p3] nd2"
    using client_run_append [of handle "[p1, p2]" "[p3]" nd] nd2(1) by simp
  show ?thesis
  proof (rule go [OF nd2(1) sys])
    show "nd_world nd2 = (nd_world nd)\<lparr>hw := hw (nd_world nd2)\<rparr>" by (simp add: nd2)
    show "w = (nd_world nd)\<lparr>hw := hw w\<rparr>" using w by (simp add: nd2)
    show "wf_ts sys" using shows_time [OF \<open>live\<close>, of "nd_world nd2"] sys by simp
    show "wf_ts ?synced" using resp_synced_wf [OF t(1) wf t(2)] by (simp add: nd2)
    show "seconds ?synced = seconds t4" "\<bar>sint (nanosec ?synced) - sint (nanosec t4)\<bar> \<le> 1"
      using sec by (simp_all add: nd2)
    show "\<exists>nd3. client_run handle [p1, p2, p3] nd = Inr nd3 \<and> nd_world nd3 = w'\<lparr>hw := free p3 (hw w')\<rparr>"
      if "ptp_process_time_diff b (Some (init_param b)) 0 ?synced (ptp_time_sub ?synced sys) w = Inr w'" for w'
      unfolding run by (rule exchange_end [OF ex3 nd2(2) sys refl that])
  qed
qed (rule stop)

text \<open>
  A delay response that shows another second than the clock, to a node that is not synchronised: it sets the
  clock, whatever was received before.
\<close>

lemma far_response:
  assumes hwm: "tsu_hw b now" "tsu_hw_write b now" and ex: "response_held view p t4"
    and cbs: "nd_cbs nd = client_cbs b send" and st: "status (nd_world nd) = TS_NEVER \<or> status (nd_world nd) = TS_LOST"
    and wf: "wf_ts (st_t1 (nd_sync nd))" "wf_ts (st_t2 (nd_sync nd))" "wf_ts (st_t3 (nd_sync nd))"
    and sys: "get_systime b (nd_world nd) = (sys, w)" and far: "seconds sys \<noteq> seconds t4"
  shows "\<exists>nd3 h. client_run handle [p] nd = Inr nd3 \<and> status (nd_world nd3) = TS_COARSE \<and>
    ptp_integrated_ns (nd_world nd3) = 0 \<and> hw (nd_world nd3) = free p h \<and> clock_set_by b now w t4 h"
proof -
  let ?synced = "resp_synced_time (st_t1 (nd_sync nd)) (st_t2 (nd_sync nd)) (st_t3 (nd_sync nd)) t4"
  have t4: "wf_ts t4" using ex by (simp add: response_held_def)
  note synced = resp_synced_seconds [OF wf t4]
  have "status w = status (nd_world nd)" using sys by (auto simp: get_systime_def split_beta)
  then have st': "status w = TS_NEVER \<or> status w = TS_LOST" using st by simp
  let ?w' = "(coarse_time_received b (seconds ?synced) (nanosec ?synced) w)\<lparr>ptp_integrated_ns := 0\<rparr>"
  have clock: "clock_set_by b now w t4 (hw ?w')" "status ?w' = TS_COARSE"
    using coarse_sets_time [OF hwm st' resp_synced_wf [OF wf t4] synced] st' by (auto simp: coarse_cases)
  have "seconds (ptp_time_sub ?synced sys) \<noteq> 0"
    using far synced(1) by (simp add: ptp_time_sub_def ptp_time_add_def)
  from exchange_end [OF ex cbs sys refl process_coarse [OF this]] obtain nd3 where
      "client_run handle [p] nd = Inr nd3" "nd_world nd3 = ?w'\<lparr>hw := free p (hw ?w')\<rparr>"
    by blast
  with clock show ?thesis by (intro exI [of _ nd3] exI [of _ "hw ?w'"]) simp
qed

lemma sets_clock:
  assumes hwm: "tsu_hw b now" "tsu_hw_write b now" and live
    and ex: "master_exchange view p1 p2 p3 t1 t4"
    and start: "nd_cbs nd = client_cbs b send" "status (nd_world nd) = TS_NEVER \<or> status (nd_world nd) = TS_LOST"
  shows "stops [p1, p2] nd \<or> (\<exists>nd2 sys w. client_run handle [p1, p2] nd = Inr nd2 \<and>
    status (nd_world nd2) = status (nd_world nd) \<and> get_systime b (nd_world nd2) = (sys, w) \<and>
    (seconds sys \<noteq> seconds t4 \<longrightarrow>
      (\<exists>nd3 h. client_run handle [p1, p2, p3] nd = Inr nd3 \<and> status (nd_world nd3) = TS_COARSE \<and>
         ptp_integrated_ns (nd_world nd3) = 0 \<and> hw (nd_world nd3) = free p3 h \<and> clock_set_by b now w t4 h)))"
proof (cases "stops [p1, p2] nd")
  case False
  then obtain nd2 h where nd2: "client_run handle [p1, p2] nd = Inr nd2" "nd_cbs nd2 = client_cbs b send"
      "nd_world nd2 = (nd_world nd)\<lparr>hw := h\<rparr>"
      and wf: "st_t1 (nd_sync nd2) = t1" "wf_ts (st_t2 (nd_sync nd2))" "wf_ts (st_t3 (nd_sync nd2))"
    using exchange_start [OF ex \<open>live\<close> start(1), where Q = "\<lambda>_. True"] by blast
  obtain sys w where sys: "get_systime b (nd_world nd2) = (sys, w)" by fastforce
  have st: "status (nd_world nd2) = status (nd_world nd)" by (simp add: nd2)
  have t: "wf_ts (st_t1 (nd_sync nd2))" "response_held view p3 t4"
    using ex wf(1) by (simp_all add: master_exchange_def)
  have "client_run handle [p1, p2, p3] nd = client_run handle [p3] nd2"
    using client_run_append [of handle "[p1, p2]" "[p3]" nd] nd2(1) by simp
  then show ?thesis
    using nd2(1) st sys far_response [OF hwm t(2) nd2(2) _ t(1) wf(2,3) sys] start(2)
    by (intro disjI2 exI [of _ nd2] exI [of _ sys] exI [of _ w]) simp
qed simp

lemma trims_clock:
  assumes hwm: "tsu_hw b now" "tsu_hw_write b now" and live
    and ex: "master_exchange view p1 p2 p3 t1 t4" and start: "nd_cbs nd = client_cbs b send"
  defines "I \<equiv> ptp_integrated_ns (nd_world nd)"
  shows "stops [p1, p2] nd \<or> (\<exists>nd2 sys w. client_run handle [p1, p2] nd = Inr nd2 \<and> get_systime b (nd_world nd2) = (sys, w) \<and>
    (seconds sys = seconds t4 \<longrightarrow>
      (\<exists>e nd3 h. client_run handle [p1, p2, p3] nd = Inr nd3 \<and> hw (nd_world nd3) = free p3 h \<and>
         \<bar>sint e - (sint (nanosec t4) - sint (nanosec sys))\<bar> \<le> 1 \<and>
         status (nd_world nd3) = TS_FINE \<and> ptp_integrated_ns (nd_world nd3) = I + e \<and>
         (if dead_band e (I + e) 500 then fine_tune_register (nd_world nd3) = fine_tune_register (nd_world nd)
          else now h = nat (int (now (hw w)) + adj30 (freq_adj e (I + e)))))))"
  using ex \<open>live\<close> start(1)
proof (rule exchange_run)
  fix nd2 sys w synced
  assume nd2: "client_run handle [p1, p2] nd = Inr nd2"
      "get_systime b (nd_world nd2) = (sys, w)" "nd_world nd2 = (nd_world nd)\<lparr>hw := hw (nd_world nd2)\<rparr>"
      "w = (nd_world nd)\<lparr>hw := hw w\<rparr>" "wf_ts sys"
  assume synced: "seconds synced = seconds t4" "\<bar>sint (nanosec synced) - sint (nanosec t4)\<bar> \<le> 1" "wf_ts synced"
  assume run: "\<And>w'. ptp_process_time_diff b (Some (init_param b)) 0 synced (ptp_time_sub synced sys) w = Inr w' \<Longrightarrow>
      \<exists>nd3. client_run handle [p1, p2, p3] nd = Inr nd3 \<and> nd_world nd3 = w'\<lparr>hw := free p3 (hw w')\<rparr>"
  have w: "ptp_integrated_ns w = I" "fine_tune_register w = fine_tune_register (nd_world nd)"
    unfolding I_def by (subst nd2(4), simp)+
  let ?d = "ptp_time_sub synced sys"
  let ?e = "nanosec ?d"
  have b: "\<bar>sint (nanosec synced) - sint (nanosec sys)\<bar> < 10 ^ 9" "\<bar>sint (nanosec sys)\<bar> < 2 ^ 31"
    using synced(3) nd2(5) by (auto simp: wf_ts_def)
  then have d: "sint ?e = sint (nanosec synced) - sint (nanosec sys)"
    by (simp add: ptp_time_sub_def ptp_time_add_def sint32_diff)
  then have bound: "\<bar>sint ?e\<bar> < 10 ^ 9" using b(1) by simp
  from d have e: "\<bar>sint ?e - (sint (nanosec t4) - sint (nanosec sys))\<bar> \<le> 1" using synced(2) by simp
  show ?thesis
  proof (intro disjI2 exI [of _ nd2] exI [of _ sys] exI [of _ w] conjI impI)
    assume "seconds sys = seconds t4"
    then have z: "seconds ?d = 0" by (simp add: ptp_time_sub_def ptp_time_add_def synced(1))
    let ?w' = "fine_report b ?e w"
    from run [OF process_fine [OF z]] obtain nd3 where nd3: "client_run handle [p1, p2, p3] nd = Inr nd3"
        "nd_world nd3 = ?w'\<lparr>hw := free p3 (hw ?w')\<rparr>" by blast
    have "if dead_band ?e (I + ?e) 500 then fine_tune_register ?w' = fine_tune_register (nd_world nd)
          else now (hw ?w') = nat (int (now (hw w)) + adj30 (freq_adj ?e (I + ?e)))"
      using fine_report_field [OF hwm(2) bound, of w] fine_report_dead(1) [of ?e w b] w by simp
    then show "\<exists>e nd3 h. client_run handle [p1, p2, p3] nd = Inr nd3 \<and> hw (nd_world nd3) = free p3 h \<and>
         \<bar>sint e - (sint (nanosec t4) - sint (nanosec sys))\<bar> \<le> 1 \<and>
         status (nd_world nd3) = TS_FINE \<and> ptp_integrated_ns (nd_world nd3) = I + e \<and>
         (if dead_band e (I + e) 500 then fine_tune_register (nd_world nd3) = fine_tune_register (nd_world nd)
          else now h = nat (int (now (hw w)) + adj30 (freq_adj e (I + e))))"
      using nd3 e w by (intro exI [of _ ?e] exI [of _ nd3] exI [of _ "hw ?w'"]) (simp add: fine_report_effects(1,4))
  qed (use nd2 in auto)
qed simp

end

section \<open>The client over UDP\<close>

definition udp_view :: "'h lwip \<Rightarrow> nat \<Rightarrow> 'h \<Rightarrow> ptp_msg option" where
  "udp_view l p h = Some (lw_pbuf_msg l p h)"

text \<open>What reading the clock and answering a follow-up leaves as it was.\<close>

definition answer_keeps :: "'h bsp \<Rightarrow> 'h lwip \<Rightarrow> ('h \<Rightarrow> bool) \<Rightarrow> bool" where
  "answer_keeps b l Q \<longleftrightarrow>
     (\<forall>h. Q h \<longrightarrow> (\<forall>a. Q (snd (xil_in32 b a h))) \<and> Q (snd (lw_udp_new l h)) \<and>
        (\<forall>y n. Q (snd (lw_pbuf_alloc l y n h))) \<and> (\<forall>p n. Q (lw_pbuf_set_len l p n h)) \<and>
        (\<forall>p bs. Q (lw_pbuf_store l p bs h)) \<and> (\<forall>c p a port. Q (lw_udp_sendto l c p a port h)) \<and>
        (\<forall>p. Q (lw_pbuf_free l p h)) \<and> (\<forall>c. Q (lw_udp_remove l c h)))"

text \<open>A stack that can run out of buffers: the allocation that sending a request does not check can fail.\<close>

definition alloc_can_fail :: "'h lwip \<Rightarrow> bool" where
  "alloc_can_fail l \<longleftrightarrow> (\<exists>h n. fst (lw_pbuf_alloc l PBUF_TRANSPORT n h) = None)"

lemma udp_send_outcomes:
  "ptp_send_delay_request l bs w = Inl Null_deref \<and> alloc_can_fail l \<or>
    (\<exists>h. ptp_send_delay_request l bs w = Inr (w\<lparr>hw := h\<rparr>) \<and> (answer_keeps b l Q \<longrightarrow> Q (hw w) \<longrightarrow> Q h))"
  by (auto simp: ptp_send_delay_request_def answer_keeps_def alloc_can_fail_def Let_def split_beta split: option.splits)

interpretation udp: exchange_client b "ptp_send_delay_request l" "ptp_msg_interpreter l" "udp_view l" "lw_pbuf_free l"
  "\<exists>now. tsu_hw b now" "alloc_can_fail l" "answer_keeps b l" for b :: "'h bsp" and l
proof
  show "ptp_msg_interpreter l p nd = bind_sum (ptp_sync_interpreter (nd_cbs nd) m (nd_sync nd) (nd_world nd))
      (\<lambda>(r, s, w). Inr (nd\<lparr>nd_sync := s, nd_world := lw (lw_pbuf_free l p) w\<rparr>))"
    if "udp_view l p (hw (nd_world nd)) = Some m" for p m and nd :: "'h ptp_node"
    using that by (simp add: ptp_msg_interpreter_def udp_view_def)
  show "ptp_send_delay_request l bs w = Inl Null_deref \<and> alloc_can_fail l \<or>
      (\<exists>h. ptp_send_delay_request l bs w = Inr (w\<lparr>hw := h\<rparr>) \<and> (answer_keeps b l Q \<longrightarrow> Q (hw w) \<longrightarrow> Q h))"
    for bs Q and w :: "'h ptp"
    by (rule udp_send_outcomes)
qed (auto simp: reads_keep_def answer_keeps_def intro: reading_wf)

lemma rx_run_client: "ptp_rx_run l ps nd = client_run (ptp_msg_interpreter l) ps nd"
  by (induction ps arbitrary: nd) (simp_all add: bind_sum_def split: sum.splits)

definition ptp_cbs :: "'h bsp \<Rightarrow> 'h lwip \<Rightarrow> 'h ptp ptp_sync_cbs" where
  "ptp_cbs b l = client_cbs b (ptp_send_delay_request l)"

lemma ptp_init_cbs: "nd_cbs (ptp_init b l q (init_param b) nd) = ptp_cbs b l"
  by (simp add: init_task_effects ptp_cbs_def client_cbs_def)

text \<open>
  C5: One complete exchange sets the clock of a node that is not yet synchronised. Given the three messages
  in three received buffers, with well-formed time stamps, the receiver handles the first two, or it stops at a
  null pointer while answering the second, which a stack allows only if its allocation of a buffer can fail. If the clock then
  shows another second than the delay response, the receiver handles that too: the state machine is in
  coarse synchronisation and the integral is cleared. The clock is set to the time stamp \<open>t4\<close> of the delay
  response, the master's time when it received the request: the seconds modulo \<open>2 ^ 32\<close>, the nanoseconds up
  to one. Two cases are excepted: nanoseconds that come out as zero are not set, the clock
  keeps those it shows; and seconds of zero set nothing at all, although the state machine then claims
  coarse synchronisation.
\<close>

theorem exchange_sets_clock:
  assumes hwm: "tsu_hw b now" "tsu_hw_write b now"
    and ex: "master_exchange (udp_view l) p1 p2 p3 t1 t4"
    and start: "nd_cbs nd = ptp_cbs b l" "status (nd_world nd) = TS_NEVER \<or> status (nd_world nd) = TS_LOST"
  shows "ptp_rx_run l [p1, p2] nd = Inl Null_deref \<and> alloc_can_fail l \<or>
    (\<exists>nd2 sys w. ptp_rx_run l [p1, p2] nd = Inr nd2 \<and>
      status (nd_world nd2) = status (nd_world nd) \<and> get_systime b (nd_world nd2) = (sys, w) \<and>
      (seconds sys \<noteq> seconds t4 \<longrightarrow>
        (\<exists>nd3 h. ptp_rx_run l [p1, p2, p3] nd = Inr nd3 \<and> status (nd_world nd3) = TS_COARSE \<and>
           ptp_integrated_ns (nd_world nd3) = 0 \<and> hw (nd_world nd3) = lw_pbuf_free l p3 h \<and>
           (if seconds t4 = 0 then h = hw w
            else \<exists>n. 0 \<le> n \<and> n < 10 ^ 9 \<and> \<bar>n - sint (nanosec t4)\<bar> \<le> 1 \<and>
              int (now h) = sint (seconds t4) mod 2 ^ 32 * 10 ^ 9 +
                (if n = 0 then sint (nanosec (fst (get_systime b w))) else n)))))"
  unfolding rx_run_client clock_set_by_def [symmetric] udp.stops_def [symmetric]
  by (rule udp.sets_clock) (use assms in \<open>auto simp: ptp_cbs_def\<close>)

text \<open>
  C6: One complete exchange trims the clock of a node that shows the master's second, in any state of the
  state machine, unless the stack runs out of buffers, which stops the receiver at a null pointer. The error
  \<open>e\<close> that the controller gets is, up to a nanosecond, the time stamp \<open>t4\<close> less the clock reading at the
  delay response; the integral grows by \<open>e\<close>, the state machine is in fine synchronisation, and the clock
  moves by \<open>e + (I + e) / 20\<close> nanoseconds (division truncating), cut down to sign and 30-bit
  magnitude by the adjustment register, while inside the dead band the register keeps its old correction.
\<close>

theorem exchange_trims_clock:
  assumes hwm: "tsu_hw b now" "tsu_hw_write b now"
    and ex: "master_exchange (udp_view l) p1 p2 p3 t1 t4" and start: "nd_cbs nd = ptp_cbs b l"
  defines "I \<equiv> ptp_integrated_ns (nd_world nd)"
  shows "ptp_rx_run l [p1, p2] nd = Inl Null_deref \<and> alloc_can_fail l \<or>
    (\<exists>nd2 sys w. ptp_rx_run l [p1, p2] nd = Inr nd2 \<and> get_systime b (nd_world nd2) = (sys, w) \<and>
    (seconds sys = seconds t4 \<longrightarrow>
      (\<exists>e nd3 h. ptp_rx_run l [p1, p2, p3] nd = Inr nd3 \<and> hw (nd_world nd3) = lw_pbuf_free l p3 h \<and>
         \<bar>sint e - (sint (nanosec t4) - sint (nanosec sys))\<bar> \<le> 1 \<and>
         status (nd_world nd3) = TS_FINE \<and> ptp_integrated_ns (nd_world nd3) = I + e \<and>
         (if dead_band e (I + e) 500 then fine_tune_register (nd_world nd3) = fine_tune_register (nd_world nd)
          else now h = nat (int (now (hw w)) + adj30 (freq_adj e (I + e)))))))"
  unfolding rx_run_client I_def udp.stops_def [symmetric]
  by (rule udp.trims_clock) (use assms in \<open>auto simp: ptp_cbs_def\<close>)

text \<open>
  C7: A delay response that nobody asked for sets the clock. A node that has just been started and has sent
  no request takes a single delay response from the network, with a well-formed time stamp, as the end
  of an exchange: if its clock shows another second, the receiver handles the message and the clock is
  set to the sender's time stamp \<open>t4\<close>: the seconds modulo \<open>2 ^ 32\<close>, the nanoseconds up to one, except that
  nanoseconds that come out as zero are not set and seconds of zero set nothing.
\<close>

theorem unsolicited_response_sets_clock:
  assumes hwm: "tsu_hw b now" "tsu_hw_write b now"
    and nd: "nd = ptp_init b l q (init_param b) (node_boot h0)"
    and ex: "response_held (udp_view l) p t4"
    and sys: "get_systime b (nd_world nd) = (sys, w)" and far: "seconds sys \<noteq> seconds t4"
  shows "\<exists>nd' h. ptp_msg_interpreter l p nd = Inr nd' \<and> status (nd_world nd') = TS_COARSE \<and>
    hw (nd_world nd') = lw_pbuf_free l p h \<and>
    (if seconds t4 = 0 then h = hw w
     else \<exists>n. 0 \<le> n \<and> n < 10 ^ 9 \<and> \<bar>n - sint (nanosec t4)\<bar> \<le> 1 \<and>
       int (now h) = sint (seconds t4) mod 2 ^ 32 * 10 ^ 9 +
         (if n = 0 then sint (nanosec (fst (get_systime b w))) else n))"
proof -
  have s: "nd_sync nd = ptp_sync_boot" "nd_cbs nd = client_cbs b (ptp_send_delay_request l)"
    using ptp_init_cbs [of b l q "node_boot h0"] by (simp_all add: nd init_task_effects node_boot_def ptp_cbs_def)
  obtain h where "nd_world nd = (ptp_boot h0)\<lparr>hw := h, udp_bound := True, group_addr := PTP_MULTICAST_IPV4_ADDR32\<rparr>"
    using ptp_init_world [of b l q "init_param b" "node_boot h0"] by (auto simp: nd node_boot_def)
  then have st: "status (nd_world nd) = TS_NEVER" by (simp add: ptp_boot_def timesync.defs)
  have z: "wf_ts zero_ts" by (simp add: wf_ts_def zero_ts_def)
  have "\<exists>nd' h. client_run (ptp_msg_interpreter l) [p] nd = Inr nd' \<and> status (nd_world nd') = TS_COARSE \<and>
      ptp_integrated_ns (nd_world nd') = 0 \<and> hw (nd_world nd') = lw_pbuf_free l p h \<and> clock_set_by b now w t4 h"
    by (rule udp.far_response [OF hwm ex s(2) _ _ _ _ sys far]) (simp_all add: st s(1) ptp_sync_boot_def z)
  then show ?thesis unfolding clock_set_by_def [symmetric] by (auto simp: bind_sum_Inr_iff)
qed

section \<open>A stack with a master behind it\<close>

text \<open>The simulator with buffers that never run out and three received messages.\<close>

definition plain_header :: "msg_type_e \<Rightarrow> ptp_msg_header_t" where
  "plain_header ty = zero_header\<lparr>messageType := msg_type_code ty, versionPTP := 2\<rparr>"

lemma plain_header_simps [simp]: "header_shape (plain_header ty)" "messageType (plain_header ty) = msg_type_code ty"
  by (simp_all add: plain_header_def zero_header_def header_shape_def header_of_bytes_def)

definition master_msgs :: "ptp_timestamp_t \<Rightarrow> ptp_timestamp_t \<Rightarrow> ptp_msg list" where
  "master_msgs t1 t4 =
     [\<lparr>msg_addr = 1, msg_bytes = sync_msg_bytes \<lparr>sm_header = plain_header SyncMsg_e, sm_origin_ts = msg_time_of zero_ts\<rparr>\<rparr>,
      \<lparr>msg_addr = 2, msg_bytes = follow_up_bytes
         \<lparr>fu_header = plain_header FollowUpMsg_e, fu_precise_origin_ts = msg_time_of t1\<rparr>\<rparr>,
      \<lparr>msg_addr = 3, msg_bytes = delay_resp_bytes
         \<lparr>rs_header = plain_header DelayResponse_e, rs_recv_ts = msg_time_of t4, rs_req_port_id = replicate 10 0\<rparr>\<rparr>]"

definition master_lwip :: "ptp_timestamp_t \<Rightarrow> ptp_timestamp_t \<Rightarrow> sim lwip" where
  "master_lwip t1 t4 = (sim_lwip (master_msgs t1 t4))\<lparr>lw_pbuf_alloc := (\<lambda>y n h. (Some 0, h))\<rparr>"

lemma master_msgs_exchange:
  assumes wf: "wf_ts t1" "wf_ts t4"
    and found: "\<And>p h. p < 3 \<Longrightarrow> \<exists>m. view p h = Some m \<and> msg_bytes m = msg_bytes (master_msgs t1 t4 ! p)"
  shows "master_exchange view 0 1 2 t1 t4"
proof -
  have h: "holds view p (msg_bytes (master_msgs t1 t4 ! p))" if "p < 3" for p
    unfolding holds_def using found [OF that] append_Nil2 by metis
  have m: "msg_bytes (master_msgs t1 t4 ! 0) =
        sync_msg_bytes \<lparr>sm_header = plain_header SyncMsg_e, sm_origin_ts = msg_time_of zero_ts\<rparr>"
      "msg_bytes (master_msgs t1 t4 ! 1) = follow_up_bytes
        \<lparr>fu_header = plain_header FollowUpMsg_e, fu_precise_origin_ts = msg_time_of t1\<rparr>"
      "msg_bytes (master_msgs t1 t4 ! 2) = delay_resp_bytes
        \<lparr>rs_header = plain_header DelayResponse_e, rs_recv_ts = msg_time_of t4, rs_req_port_id = replicate 10 0\<rparr>"
    by (simp_all add: master_msgs_def)
  show ?thesis
    unfolding master_exchange_def response_held_def
    using wf h [of 0] h [of 1] h [of 2] unfolding m
    by (auto simp: sync_msg_shape_def follow_up_shape_def delay_resp_shape_def
        intro!: exI [of _ "\<lparr>sm_header = plain_header SyncMsg_e, sm_origin_ts = msg_time_of zero_ts\<rparr>"]
          exI [of _ "\<lparr>fu_header = plain_header FollowUpMsg_e, fu_precise_origin_ts = msg_time_of t1\<rparr>"]
          exI [of _ "\<lparr>rs_header = plain_header DelayResponse_e, rs_recv_ts = msg_time_of t4, rs_req_port_id = replicate 10 0\<rparr>"])
qed

lemma master_lwip_exchange:
  assumes "wf_ts t1" and "wf_ts t4"
  shows "master_exchange (udp_view (master_lwip t1 t4)) 0 1 2 t1 t4"
  by (rule master_msgs_exchange [OF assms]) (auto simp: udp_view_def master_lwip_def sim_lwip_def master_msgs_def)

lemma master_lwip_supply: "\<not> alloc_can_fail (master_lwip t1 t4)"
  by (simp add: alloc_can_fail_def master_lwip_def)

definition demo_node :: "ptp_timestamp_t \<Rightarrow> ptp_timestamp_t \<Rightarrow> sim ptp_node" where
  "demo_node t1 t4 = ptp_init sim_bsp (master_lwip t1 t4) 4 (init_param sim_bsp) (node_boot sim0)"

lemma demo_keeps_clock: "answer_keeps sim_bsp (master_lwip t1 t4) (\<lambda>h. sim_clock h = k)"
  by (simp add: answer_keeps_def sim_bsp_def master_lwip_def sim_lwip_def)

lemma demo_cbs: "nd_cbs (demo_node t1 t4) = ptp_cbs sim_bsp (master_lwip t1 t4)"
  unfolding demo_node_def by (rule ptp_init_cbs)

lemma demo_start:
  assumes "wf_ts t1" and "wf_ts t4" and "nd_cbs nd = ptp_cbs sim_bsp (master_lwip t1 t4)"
    and "ptp_rx_run (master_lwip t1 t4) [0, 1] nd = Inr nd2"
  shows "sim_clock (hw (nd_world nd2)) = sim_clock (hw (nd_world nd))"
proof -
  have "\<exists>now. tsu_hw (sim_bsp :: sim bsp) now" using sim_hw by blast
  from udp.exchange_start [OF master_lwip_exchange [OF assms(1,2)] this, of nd "\<lambda>h. sim_clock h = sim_clock (hw (nd_world nd))"]
  show ?thesis using assms(3,4) demo_keeps_clock by (auto simp: rx_run_client ptp_cbs_def udp.stops_def)
qed

lemma demo_reading:
  "get_systime sim_bsp w = (\<lparr>seconds = ucast (word_of_nat (sim_clock (hw w) div 10 ^ 9) :: u32),
     nanosec = word_of_nat (sim_clock (hw w) mod 10 ^ 9)\<rparr>, w)"
  by (simp add: get_systime_def tsu_get_time_def read_reg_def sim_bsp_def tick_bsp_def tsu_reg_defs)

lemma demo_node_start: "status (nd_world (demo_node t1 t4)) = TS_NEVER" "sim_clock (hw (nd_world (demo_node t1 t4))) = 0"
  by (simp_all add: demo_node_def ptp_init_def init_ptp_task_def bind_udp_receiver_def bind_port_def ptp_start_sync_def
      lw_def init_tsu_def read_reg_def write_reg_def node_boot_def ptp_boot_def timesync.defs timesync_boot_def
      tsu.defs tsu_boot_def Let_def split_beta master_lwip_def sim_lwip_def sim_bsp_def tick_bsp_def sim0_def
      tsu_reg_defs)

lemma sim_free_clock: "sim_clock (lw_pbuf_free (master_lwip t1 t4) p h) = sim_clock h"
  by (simp add: master_lwip_def sim_lwip_def)

theorem exchange_sets_clock_witness:
  defines "t1 \<equiv> \<lparr>seconds = 1700000000, nanosec = 100\<rparr>" and "t4 \<equiv> \<lparr>seconds = 1700000000, nanosec = 500\<rparr>"
  shows "\<exists>nd3. ptp_rx_run (master_lwip t1 t4) [0, 1, 2] (demo_node t1 t4) = Inr nd3 \<and>
    status (nd_world nd3) = TS_COARSE \<and> \<bar>int (sim_clock (hw (nd_world nd3))) - 1700000000000000500\<bar> \<le> 1"
proof -
  let ?l = "master_lwip t1 t4"
  have wf: "wf_ts t1" "wf_ts t4" by (simp_all add: t1_def t4_def wf_ts_def)
  have t: "0 < sint (seconds t4)" "sint (seconds t4) < 2 ^ 32" "2 \<le> sint (nanosec t4)" "ts_total t4 = 1700000000000000500"
    by (simp_all add: t4_def ts_total_def)
  obtain nd2 sys w where nd2: "ptp_rx_run ?l [0, 1] (demo_node t1 t4) = Inr nd2" "get_systime sim_bsp (nd_world nd2) = (sys, w)"
    and go: "seconds sys \<noteq> seconds t4 \<longrightarrow>
        (\<exists>nd3 h. ptp_rx_run ?l [0, 1, 2] (demo_node t1 t4) = Inr nd3 \<and> status (nd_world nd3) = TS_COARSE \<and>
           ptp_integrated_ns (nd_world nd3) = 0 \<and> hw (nd_world nd3) = lw_pbuf_free ?l 2 h \<and> clock_set_by sim_bsp sim_clock w t4 h)"
    using exchange_sets_clock [OF sim_hw sim_hw_write master_lwip_exchange [OF wf] demo_cbs] master_lwip_supply demo_node_start(1)
    unfolding clock_set_by_def [symmetric] by blast
  have "seconds sys \<noteq> seconds t4"
    using demo_start [OF wf demo_cbs nd2(1)] nd2(2) by (auto simp: demo_node_start demo_reading t4_def)
  with go obtain nd3 h where "ptp_rx_run ?l [0, 1, 2] (demo_node t1 t4) = Inr nd3" "status (nd_world nd3) = TS_COARSE"
      "hw (nd_world nd3) = lw_pbuf_free ?l 2 h" and c: "clock_set_by sim_bsp sim_clock w t4 h" by blast
  with clock_set_near [OF c t(1-3)] show ?thesis by (auto simp: t(4) sim_free_clock)
qed

theorem unsolicited_response_sets_clock_witness:
  defines "t1 \<equiv> zero_ts" and "t4 \<equiv> \<lparr>seconds = 4000000000, nanosec = 777\<rparr>"
  shows "\<exists>nd'. ptp_msg_interpreter (master_lwip t1 t4) 2 (demo_node t1 t4) = Inr nd' \<and>
    \<bar>int (sim_clock (hw (nd_world nd'))) - 4000000000000000777\<bar> \<le> 1"
proof -
  let ?l = "master_lwip t1 t4"
  have "wf_ts t1" "wf_ts t4" by (simp_all add: t1_def t4_def wf_ts_def zero_ts_def)
  then have r: "response_held (udp_view ?l) 2 t4"
    using master_lwip_exchange by (simp add: master_exchange_def)
  have t: "0 < sint (seconds t4)" "sint (seconds t4) < 2 ^ 32" "2 \<le> sint (nanosec t4)" "ts_total t4 = 4000000000000000777"
    by (simp_all add: t4_def ts_total_def)
  obtain sys w where sys: "get_systime sim_bsp (nd_world (demo_node t1 t4)) = (sys, w)" by fastforce
  then have far: "seconds sys \<noteq> seconds t4"
    by (auto simp: demo_reading demo_node_start t4_def)
  obtain nd' h where nd': "ptp_msg_interpreter ?l 2 (demo_node t1 t4) = Inr nd'" "hw (nd_world nd') = lw_pbuf_free ?l 2 h"
      and c: "clock_set_by sim_bsp sim_clock w t4 h"
    using unsolicited_response_sets_clock [OF sim_hw sim_hw_write demo_node_def r sys far]
    unfolding clock_set_by_def [symmetric] by blast
  with clock_set_near [OF c t(1-3)] show ?thesis by (auto simp: t(4) sim_free_clock)
qed

text \<open>The same node once its clock shows the second of the master.\<close>

definition near_node :: "ptp_timestamp_t \<Rightarrow> ptp_timestamp_t \<Rightarrow> sim ptp_node" where
  "near_node t1 t4 = (let nd = demo_node t1 t4; w = nd_world nd in
     nd\<lparr>nd_world := w\<lparr>hw := (hw w)\<lparr>sim_clock := 1700000000000400000\<rparr>\<rparr>\<rparr>)"

theorem exchange_trims_clock_witness:
  defines "t1 \<equiv> \<lparr>seconds = 1700000000, nanosec = 100\<rparr>" and "t4 \<equiv> \<lparr>seconds = 1700000000, nanosec = 500000\<rparr>"
  shows "\<exists>nd3 e. ptp_rx_run (master_lwip t1 t4) [0, 1, 2] (near_node t1 t4) = Inr nd3 \<and>
    status (nd_world nd3) = TS_FINE \<and> \<bar>sint e - 100000\<bar> \<le> 1 \<and>
    sim_clock (hw (nd_world nd3)) = nat (1700000000000400000 + freq_adj e e)"
proof -
  let ?l = "master_lwip t1 t4" and ?nd = "near_node t1 t4"
  have wf: "wf_ts t1" "wf_ts t4" by (simp_all add: t1_def t4_def wf_ts_def)
  note ex = master_lwip_exchange [OF wf]
  have cbs: "nd_cbs ?nd = ptp_cbs sim_bsp ?l" by (simp add: near_node_def demo_cbs Let_def)
  have I: "ptp_integrated_ns (nd_world ?nd) = 0"
    by (simp add: near_node_def demo_node_def ptp_init_def init_ptp_task_def bind_udp_receiver_def bind_port_def
      ptp_start_sync_def lw_def init_tsu_def read_reg_def write_reg_def node_boot_def ptp_boot_def timesync.defs
      Let_def split_beta split: option.splits)
  obtain nd2 sys w where nd2: "ptp_rx_run ?l [0, 1] ?nd = Inr nd2" "get_systime sim_bsp (nd_world nd2) = (sys, w)"
    and trim: "seconds sys = seconds t4 \<Longrightarrow>
      \<exists>e nd3 h. ptp_rx_run ?l [0, 1, 2] ?nd = Inr nd3 \<and> hw (nd_world nd3) = lw_pbuf_free ?l 2 h \<and>
         \<bar>sint e - (sint (nanosec t4) - sint (nanosec sys))\<bar> \<le> 1 \<and>
         status (nd_world nd3) = TS_FINE \<and> ptp_integrated_ns (nd_world nd3) = 0 + e \<and>
         (if dead_band e (0 + e) 500 then fine_tune_register (nd_world nd3) = fine_tune_register (nd_world ?nd)
          else sim_clock h = nat (int (sim_clock (hw w)) + adj30 (freq_adj e (0 + e))))"
    using exchange_trims_clock [OF sim_hw sim_hw_write ex cbs] master_lwip_supply unfolding I by blast
  have c: "sim_clock (hw (nd_world nd2)) = 1700000000000400000"
    using demo_start [OF wf cbs nd2(1)] by (simp add: near_node_def Let_def)
  then have s: "seconds sys = seconds t4" "sint (nanosec sys) = 400000" "sim_clock (hw w) = 1700000000000400000"
    using nd2(2) by (auto simp: demo_reading t4_def)
  from trim [OF s(1)] obtain e nd3 h where e: "ptp_rx_run ?l [0, 1, 2] ?nd = Inr nd3" "hw (nd_world nd3) = lw_pbuf_free ?l 2 h"
      "\<bar>sint e - 100000\<bar> \<le> 1" "status (nd_world nd3) = TS_FINE"
    and m: "if dead_band e e 500 then fine_tune_register (nd_world nd3) = fine_tune_register (nd_world ?nd)
          else sim_clock h = nat (1700000000000400000 + adj30 (freq_adj e e))"
    by (auto simp: s t4_def)
  have "\<bar>freq_adj e e - 105000\<bar> \<le> 10" using e(3) by (simp add: freq_adj_def sdiv_pos) arith
  then have "\<not> dead_band e e 500" "adj30 (freq_adj e e) = freq_adj e e" by (auto simp: dead_band_def intro: adj30_fits)
  then show ?thesis using e m by (auto simp: sim_free_clock)
qed

end
