(* ===== verification/GptpExchange.thy ===== *)
theory GptpExchange
  imports Exchange EthInput
begin







lemma gptp_init_cbs:
  "nd_cbs (gptp_init b l x cfg q em (init_param b) nd) = client_cbs b (gptp_send_delay_request l)"
  by (simp add: gptp_init_def init_gptp_task_def set_gptp_param_def client_cbs_def ptp_sync_register_gettime_cb_def
      ptp_sync_register_report_diff_cb_def ptp_sync_register_delay_req_cb_def Let_def)






end
