(* ===== verification/Spec2Isabelle.thy ===== *)
theory Spec2Isabelle
  imports Controller System EmacSetup NetifInit TtcTimer EmacBlocking Board EthFrame GptpExchange
begin

text \<open>
  A model of a PTP and gPTP slave for a bare-metal Zynq board: IEEE 1588 over UDP and over raw
  Ethernet, on lwIP and the Xilinx drivers.

  \<^bold>\<open>The program.\<close> \<open>timesync_init\<close> starts one of two time sources. \<open>ptp.c\<close> binds the UDP ports 319 and 320,
  \<open>gptp.c\<close> opens the Ethernet multicast filter; both initialise the time-stamp unit and register three
  call-backs with the message interpreter of \<open>ptp_sync.c\<close>: read the clock, report a time difference,
  send a delay request. Frames come in through the Ethernet driver (\<open>netif/xemacpsif_dma.c\<close> fills the
  rings and a queue, \<open>netif/xemacpsif.c\<close> polls it), the link layer (\<open>netif/ethernet.c\<close>) and either UDP or
  the hook of \<open>gptp_hook.c\<close>. The interpreter runs the exchange Sync, Follow_Up, Delay_Req, Delay_Resp; its
  report goes to the clock controller in \<open>ptp.c\<close>, which sets or trims the clock (\<open>ttc_tsu/tsu_time.c\<close>)
  and drives the state machine of \<open>timesync.c\<close>. \<open>ttc_tsu/ttc_timer.c\<close> is a periodic tick beside it.

  \<^bold>\<open>The theories\<close>, in the order of import:

  \<^item> \<open>CInt\<close>: C integers as words (signed division and shifts, absolute value), bytes in network and memory
    order, the faults an operation can stop with, and \<open>forever\<close>, the unbounded loop as a partial
    function into \<open>option\<close>.
  \<^item> \<open>TsuTime\<close>: the clock driver over the parameter \<open>bsp\<close> (\<open>Xil_In32\<close>, \<open>Xil_Out32\<close>). A read of the clock is
    bracketed by the times of its first and last register access, setting it is exact, trimming
    programs the proportional-integral correction where it fits the adjustment field, and start-up leaves
    the clock restarted with the truncated clock period in its increment registers.
  \<^item> \<open>Timesync\<close>: the handlers, the pulse-per-second discipline and the time-outs; refinement of an abstract
    automaton, the transition diagram, the invariant of reachable states, the resync period and what each
    resync writes (zero nanoseconds or seconds included), the bounds of the phase error and of its filter.
  \<^item> \<open>PtpTime\<close>: time-stamp arithmetic and codec: no step overflows on well-formed stamps, delay and offset as
    two-way averages, round trips in both directions, and what the synchronised time really is.
  \<^item> \<open>PtpSync\<close>: the packed header, the delay request and the interpreter; it returns on every complete
    message, what it does not check, and the outcome of a whole exchange. The locale \<open>sync_callbacks\<close> is
    the contract of the three call-backs.
  \<^item> \<open>PtpMsg\<close>: the packed message formats that are laid over the received bytes, and what the interpreter reads of them. The locale
    \<open>packed_struct\<close> is the contract of storing and reading; it is interpreted on every format.
  \<^item> \<open>Lwip\<close>: the parameter \<open>lwip\<close> and the account \<open>net_pool\<close> of buffer references and control blocks.
  \<^item> \<open>Ptp\<close>: the client over UDP. The locales \<open>time_service\<close> (what a time source relies on in the parameter block) and
    \<open>udp_time_source\<close>, a sublocale of \<open>sync_callbacks\<close>, are interpreted on the handlers of \<open>Timesync\<close>; the
    receiver is safe on every sequence of complete messages.
  \<^item> \<open>Controller\<close>: the control loop: what one report does, overflow of the adjustment field included; a
    clock that is behind is brought into the dead band, where the last correction is applied once more; and
    the cases in which the controller does not converge.
  \<^item> \<open>Exchange\<close>: a whole exchange with a master, from the bytes of its three messages to the registers of the
    clock: how it sets the clock of a node that is not synchronised and trims that of one that is, and
    that a single response nobody asked for sets it as well. Nothing is assumed of the times in the messages:
    with zero nanoseconds the clock keeps its own, with seconds that are not positive it is not set. When the buffer
    for the delay request cannot be had, the exchange stops at the fault that \<open>ptp.c\<close> then commits. The
    locale \<open>exchange_client\<close> is what an exchange relies on in a client, interpreted on the one over UDP here
    and on the one over Ethernet in \<open>GptpExchange\<close>.
  \<^item> \<open>Emac\<close>, \<open>EmacAccount\<close>, \<open>EmacIf\<close>, \<open>EmacRecv\<close>, \<open>EmacSetup\<close>: the Ethernet driver over the parameter \<open>xemacps\<close>: descriptors
    and slots, sending, receiving, error recovery, multicast filters. The account of buffer references
    is kept by every run of driver events, releasing sent buffers and draining the receive ring end,
    recovery uses up the descriptor space on either kind of controller.
  \<^item> \<open>EmacSafe\<close>: type safety of the driver. From well-formed statics every run of driver events ends without
    a fault and leaves them well-formed; creating new rings and filling them establishes these statics, for any ring
    base. \<open>driver_rings\<close> speaks of the time between two creations of the rings, in which their base is
    fixed. Error recovery releases a buffer for every slot, and so too many unless the receive ring is full.
  \<^item> \<open>EmacBlocking\<close>: the build in which a packet may wait for its transmission: equal to the plain build where
    nothing waits, and what a packet that waits can come back with.
  \<^item> \<open>NetifInit\<close>: bringing the interface up, and what it reports when memory runs out.
  \<^item> \<open>Gptp\<close>: the client over Ethernet, with the table-driven checksum equal to the bitwise one; locale
    \<open>raw_time_source\<close>, a second sublocale of \<open>sync_callbacks\<close>.
  \<^item> \<open>EthInput\<close>: polling, the link layer and the hook. The locale \<open>netif_input\<close> is the contract of
    \<open>netif->input\<close>, interpreted on \<open>ethernet_input\<close>; polling is safe and consumes each frame once.
  \<^item> \<open>Board\<close>: the driver and the link layer composed: \<open>netif->linkoutput\<close> is the driver's sender, interrupts
    come between the polls, and the whole stays safe. The locale \<open>link_driver\<close> is the contract of that
    sender, interpreted on the driver.
  \<^item> \<open>EthFrame\<close>: what \<open>ethernet_output\<close> sends, with or without a VLAN tag, is what \<open>ethernet_input\<close> reads,
    for every configuration of the receiver: which of them refuse a tagged frame or read it without its tag is part
    of the statement. The memory of the buffer obeys \<open>buffer_memory\<close>.
  \<^item> \<open>TtcTimer\<close>: the tick timer over the contract \<open>ticker_board\<close> of the timer and the interrupt controller: a
    start-up that reports success leads to one call of the registered callback for each interval
    while the timer runs.
  \<^item> \<open>System\<close>: the start of the service and the program as a transition system with its invariant.

  \<^bold>\<open>Correspondence.\<close> Definitions have the names of the C functions. File statics are records that extend
  one another in the order \<open>tsu\<close>, \<open>timesync\<close>, \<open>ptp\<close>; \<open>ptp_node\<close> adds the registered call-backs and the
  interpreter's statics. The field \<open>hw\<close> is the environment \<open>'h\<close>: registers, buffers, queues, everything that
  code outside the repository owns. That code is a parameter: the records \<open>bsp\<close>, \<open>lwip\<close>, \<open>xemacps\<close>,
  \<open>link_stack\<close>, \<open>netif_board\<close> and \<open>xttcps\<close> hold its functions, and \<open>tsu_hw\<close>, \<open>tsu_hw_write\<close>, \<open>tsu_regs\<close>, \<open>ticker_board\<close>, \<open>net_pool\<close>,
  \<open>emac_account\<close>, \<open>tx_ring\<close>, \<open>rx_ring\<close>, \<open>rx_in_order\<close>, \<open>link_account\<close>, \<open>buffer_memory\<close>, \<open>full_traffic\<close>, \<open>board_accounts\<close>,
  \<open>stack_on_board\<close> and \<open>master_exchange\<close> state what is relied on; each is met by a simulator that the
  witnesses run. None of them says that a buffer can always be had: \<open>pbuf_supply\<close> and
  \<open>alloc_can_fail\<close> occur only in conclusions, as the cause of the fault in the client over UDP. Asserts, null pointers, reads past a buffer, unset variables and indices out of range
  are values of \<open>fault\<close>. Integers have the width of the C types and wrap around.

  \<^bold>\<open>Loops and bounds.\<close> All loops are structural except the two of the driver that run until the ring is
  empty; they are \<open>forever\<close>, whose value is \<open>None\<close> when they do not end, and both are
  proved to end: on a transmit ring that holds finitely many completed descriptors, those that complete while
  the handler runs counted in, and on a receive ring into which finitely many frames arrive while the
  handler runs. With traffic that fills the receive ring as fast as it is drained the handler does not end. The wait of a blocking send counts its own
  900000 sleeps down. The wait for the transmitter in the filter updates is a parameter that may fail to
  return. No fuel is used.

  \<^bold>\<open>Not modelled.\<close> lwIP and the Xilinx drivers (not in the repository); console output, except what
  housekeeping prints; statistics counters; the field \<open>dts\<close> of a time stamp, a double that nothing
  reads; code that the preprocessor removes (\<open>#if 0\<close>, jumbo frames, the
  operating-system build apart from its timer call-back, secure-monitor calls); preemption: an interrupt
  handler runs as one event between others, and only the arrival of frames overlaps with it.
\<close>

end
